(* ===== verification/Lucent_Prelude.thy ===== *)
theory Lucent_Prelude
  imports Complex_Main "HOL-Library.AList" "HOL-Library.Word" "HOL-Library.Sublist"
begin

text \<open>
  Shared vocabulary of the development: the types that name Python's values, the
  exceptions of the language, state-passing computations that may raise, and the
  list lemmas every component uses.

  Text is a \<open>string\<close> whose characters are the code points U+0000 to U+00FF; a
  finite Python float is the rational number it denotes and arithmetic on it is
  exact (rounding is not modelled).
\<close>

named_theorems result_simps
named_theorems od_simps

type_synonym pystr = string
type_synonym byte = "8 word"
type_synonym bytes = "byte list"

section \<open>Python's exceptions\<close>

datatype py_exn =
    TypeError pystr
  | ValueError pystr
  | KeyError pystr
  | AttributeError pystr
  | RuntimeError pystr
  | OverflowError pystr

text \<open>\<open>str(exc)\<close>.\<close>

definition py_exn_text :: "py_exn \<Rightarrow> pystr" where
  "py_exn_text e =
     (case e of TypeError m \<Rightarrow> m | ValueError m \<Rightarrow> m | KeyError m \<Rightarrow> m | AttributeError m \<Rightarrow> m
      | RuntimeError m \<Rightarrow> m | OverflowError m \<Rightarrow> m)"

section \<open>Python's dynamic values\<close>

text \<open>
  Floats are finite rationals or one of the three special values. A dictionary is an
  association list in insertion order; its keys are text, as in every JSON object.
\<close>

datatype pyfloat = Finite rat | PosInf | NegInf | NaN

datatype pyval =
    PNone
  | PBool bool
  | PInt int
  | PFloat pyfloat
  | PStr pystr
  | PBytes bytes
  | PList "pyval list"
  | PTuple "pyval list"
  | PDict "(pystr \<times> pyval) list"

fun is_str :: "pyval \<Rightarrow> bool" where
  "is_str (PStr _) = True"
| "is_str _ = False"

fun is_dict :: "pyval \<Rightarrow> bool" where
  "is_dict (PDict _) = True"
| "is_dict _ = False"

fun is_list :: "pyval \<Rightarrow> bool" where
  "is_list (PList _) = True"
| "is_list _ = False"

text \<open>Truth value of a Python object, as \<open>bool(x)\<close> gives it.\<close>

fun truthy :: "pyval \<Rightarrow> bool" where
  "truthy PNone = False"
| "truthy (PBool b) = b"
| "truthy (PInt i) = (i \<noteq> 0)"
| "truthy (PFloat (Finite q)) = (q \<noteq> 0)"
| "truthy (PFloat _) = True"
| "truthy (PStr s) = (s \<noteq> [])"
| "truthy (PBytes b) = (b \<noteq> [])"
| "truthy (PList xs) = (xs \<noteq> [])"
| "truthy (PTuple xs) = (xs \<noteq> [])"
| "truthy (PDict kvs) = (kvs \<noteq> [])"

text \<open>\<open>d.get(k)\<close> and \<open>d.get(k, default)\<close> on a dictionary's items.\<close>

definition dget :: "(pystr \<times> pyval) list \<Rightarrow> pystr \<Rightarrow> pyval" where
  "dget d k = (case map_of d k of None \<Rightarrow> PNone | Some v \<Rightarrow> v)"

definition dget_or :: "(pystr \<times> pyval) list \<Rightarrow> pystr \<Rightarrow> pyval \<Rightarrow> pyval" where
  "dget_or d k x = (case map_of d k of None \<Rightarrow> x | Some v \<Rightarrow> v)"

lemma dget_Nil [simp]: "dget [] k = PNone"
  by (simp add: dget_def)

lemma dget_Cons [simp]: "dget ((k', v) # d) k = (if k = k' then v else dget d k)"
  by (simp add: dget_def)

lemma dget_or_Nil [simp]: "dget_or [] k x = x"
  by (simp add: dget_or_def)

lemma dget_or_Cons [simp]: "dget_or ((k', v) # d) k x = (if k = k' then v else dget_or d k x)"
  by (simp add: dget_or_def)

text \<open>The values inside a container are smaller than it.\<close>

lemma size_dict_value: "(k, v) \<in> set d \<Longrightarrow> size v < size (PDict d)"
  by (induction d) auto

lemma size_dget: "dget d k \<noteq> PNone \<Longrightarrow> size (dget d k) < size (PDict d)"
  unfolding dget_def by (auto split: option.split simp del: pyval.size dest!: map_of_SomeD size_dict_value)

lemma size_list_item: "v \<in> set xs \<Longrightarrow> size v < size (PList xs)" "v \<in> set xs \<Longrightarrow> size v < size (PTuple xs)"
  by (induction xs) auto

section \<open>Results and state-passing computations that may raise\<close>

text \<open>
  An operation of a stateful object takes the object and returns its result together
  with the object afterwards. A raise keeps what the operation had already changed,
  as an exception does in Python.
\<close>

type_synonym ('s, 'e, 'a) st = "'s \<Rightarrow> ('e + 'a) \<times> 's"

definition st_return :: "'a \<Rightarrow> ('s, 'e, 'a) st" where
  "st_return x s = (Inr x, s)"

definition st_raise :: "'e \<Rightarrow> ('s, 'e, 'a) st" where
  "st_raise e s = (Inl e, s)"

definition st_bind :: "('s, 'e, 'a) st \<Rightarrow> ('a \<Rightarrow> ('s, 'e, 'b) st) \<Rightarrow> ('s, 'e, 'b) st" where
  "st_bind m f s = (case m s of (Inl e, s') \<Rightarrow> (Inl e, s') | (Inr x, s') \<Rightarrow> f x s')"

fun st_for :: "'a list \<Rightarrow> ('a \<Rightarrow> ('s, 'e, unit) st) \<Rightarrow> ('s, 'e, unit) st" where
  "st_for [] f = st_return ()"
| "st_for (x # xs) f = st_bind (f x) (\<lambda>_. st_for xs f)"

definition res_bind :: "'e + 'a \<Rightarrow> ('a \<Rightarrow> 'e + 'b) \<Rightarrow> 'e + 'b" where
  "res_bind m f = (case m of Inl e \<Rightarrow> Inl e | Inr x \<Rightarrow> f x)"

fun res_map :: "('a \<Rightarrow> 'e + 'b) \<Rightarrow> 'a list \<Rightarrow> 'e + 'b list" where
  "res_map f [] = Inr []"
| "res_map f (x # xs) = res_bind (f x) (\<lambda>y. res_bind (res_map f xs) (\<lambda>ys. Inr (y # ys)))"

fun res_all :: "('a \<Rightarrow> 'e + unit) \<Rightarrow> 'a list \<Rightarrow> 'e + unit" where
  "res_all f [] = Inr ()"
| "res_all f (x # xs) = res_bind (f x) (\<lambda>_. res_all f xs)"

text \<open>\<open>guard c e\<close> is the early raise \<open>if not c: raise e\<close>.\<close>

definition guard :: "bool \<Rightarrow> 'e \<Rightarrow> 'e + unit" where
  "guard c e = (if c then Inr () else Inl e)"

lemma res_bind_simps [simp, result_simps]:
  "res_bind (Inl e) f = Inl e"
  "res_bind (Inr x) f = f x"
  by (simp_all add: res_bind_def)

lemma guard_simps [simp, result_simps]:
  "guard True e = Inr ()"
  "guard False e = Inl e"
  by (simp_all add: guard_def)

lemma guard_eq_Inr [simp]: "guard c e = Inr u \<longleftrightarrow> c"
  by (simp add: guard_def)

lemma guard_eq_Inl [simp]: "guard c e = Inl e' \<longleftrightarrow> \<not> c \<and> e = e'"
  by (auto simp: guard_def)

lemma res_bind_cong [fundef_cong]:
  "m = m' \<Longrightarrow> (\<And>x. m' = Inr x \<Longrightarrow> f x = g x) \<Longrightarrow> res_bind m f = res_bind m' g"
  by (simp add: res_bind_def split: sum.split)

lemma res_map_cong [fundef_cong]:
  "xs = ys \<Longrightarrow> (\<And>x. x \<in> set ys \<Longrightarrow> f x = g x) \<Longrightarrow> res_map f xs = res_map g ys"
  by (induction ys arbitrary: xs) auto

lemma res_all_cong [fundef_cong]:
  "xs = ys \<Longrightarrow> (\<And>x. x \<in> set ys \<Longrightarrow> f x = g x) \<Longrightarrow> res_all f xs = res_all g ys"
  by (induction ys arbitrary: xs) auto

lemma res_bind_Inr_iff: "res_bind m f = Inr y \<longleftrightarrow> (\<exists>x. m = Inr x \<and> f x = Inr y)"
  by (cases m) auto

lemma res_bind_Inl_iff: "res_bind m f = Inl e \<longleftrightarrow> m = Inl e \<or> (\<exists>x. m = Inr x \<and> f x = Inl e)"
  by (cases m) auto

text \<open>An operation that returns.\<close>

definition succeeds :: "'e + 'a \<Rightarrow> bool" where
  "succeeds m \<longleftrightarrow> (\<exists>x. m = Inr x)"

lemma succeeds_code [code]: "succeeds m = (case m of Inl _ \<Rightarrow> False | Inr _ \<Rightarrow> True)"
  by (simp add: succeeds_def split: sum.split)

lemma succeeds_simps [simp]: "succeeds (Inr x)" "\<not> succeeds (Inl e)"
  by (simp_all add: succeeds_def)

lemma succeeds_bind: "succeeds m \<Longrightarrow> (\<And>x. m = Inr x \<Longrightarrow> succeeds (f x)) \<Longrightarrow> succeeds (res_bind m f)"
  by (auto simp: succeeds_def)

lemma res_all_Inr_iff: "res_all f xs = Inr u \<longleftrightarrow> (\<forall>x\<in>set xs. f x = Inr ())"
  by (induction xs) (auto simp: res_bind_Inr_iff)

lemma res_map_Inr_length: "res_map f xs = Inr ys \<Longrightarrow> length ys = length xs"
  by (induction xs arbitrary: ys) (auto simp: res_bind_Inr_iff)

lemma res_map_Inr_set:
  "res_map f xs = Inr ys \<Longrightarrow> y \<in> set ys \<Longrightarrow> \<exists>x\<in>set xs. f x = Inr y"
  by (induction xs arbitrary: ys) (fastforce simp: res_bind_Inr_iff)+

lemma st_simps [simp, result_simps]:
  "st_return x s = (Inr x, s)"
  "st_raise e s = (Inl e, s)"
  by (simp_all add: st_return_def st_raise_def)

lemma st_bind_return [simp, result_simps]: "m s = (Inr x, s') \<Longrightarrow> st_bind m f s = f x s'"
  by (simp add: st_bind_def)

lemma st_bind_raise [simp, result_simps]: "m s = (Inl e, s') \<Longrightarrow> st_bind m f s = (Inl e, s')"
  by (simp add: st_bind_def)

section \<open>Ordered dictionaries\<close>

text \<open>
  \<open>OrderedDict\<close> is an association list in insertion order: assignment keeps the
  position of a present key and appends a new one, \<open>pop\<close> deletes,
  \<open>move_to_end\<close> re-appends.
\<close>

type_synonym ('k, 'v) odict = "('k \<times> 'v) list"

definition od_move_to_end :: "'k \<Rightarrow> ('k, 'v) odict \<Rightarrow> ('k, 'v) odict" where
  "od_move_to_end k d =
     (case map_of d k of None \<Rightarrow> d | Some v \<Rightarrow> AList.delete k d @ [(k, v)])"

definition od_wf :: "('k, 'v) odict \<Rightarrow> bool" where
  "od_wf d \<longleftrightarrow> distinct (map fst d)"

definition od_total :: "('v \<Rightarrow> int) \<Rightarrow> ('k, 'v) odict \<Rightarrow> int" where
  "od_total w d = sum_list (map (\<lambda>kv. w (snd kv)) d)"

lemma od_wf_Nil [simp, od_simps]: "od_wf []"
  by (simp add: od_wf_def)

lemma od_wf_delete [simp, od_simps]: "od_wf d \<Longrightarrow> od_wf (AList.delete k d)"
  by (simp add: od_wf_def AList.distinct_delete)

lemma od_wf_update [simp, od_simps]: "od_wf d \<Longrightarrow> od_wf (AList.update k v d)"
  by (simp add: od_wf_def AList.distinct_update)

lemma od_wf_filter [simp, od_simps]: "od_wf d \<Longrightarrow> od_wf (filter P d)"
  by (auto simp: od_wf_def distinct_map_filter)

lemma map_of_delete [simp, od_simps]:
  "map_of (AList.delete k d) k' = (if k' = k then None else map_of d k')"
  by (simp add: AList.delete_conv')

lemma map_of_update [simp, od_simps]:
  "map_of (AList.update k v d) k' = (if k' = k then Some v else map_of d k')"
  by (simp add: AList.update_conv')

lemma od_wf_move_to_end [simp, od_simps]: "od_wf d \<Longrightarrow> od_wf (od_move_to_end k d)"
  by (auto simp: od_wf_def od_move_to_end_def AList.delete_keys distinct_removeAll
      split: option.split)

lemma map_of_move_to_end [simp, od_simps]: "map_of (od_move_to_end k d) k' = map_of d k'"
  by (auto simp: od_move_to_end_def map_add_def split: option.split)

lemma map_of_filter_vals:
  "od_wf d \<Longrightarrow> map_of (filter (\<lambda>kv. P (snd kv)) d) k =
     (case map_of d k of None \<Rightarrow> None | Some v \<Rightarrow> if P v then Some v else None)"
  by (induction d) (auto simp: od_wf_def map_of_eq_None_iff rev_image_eqI split: option.splits)

lemma delete_absent: "map_of d k = None \<Longrightarrow> AList.delete k d = d"
  by (induction d) (auto split: if_splits)

lemma update_absent: "map_of d k = None \<Longrightarrow> AList.update k v d = d @ [(k, v)]"
  by (induction d) (auto split: if_splits)

lemma set_delete_subset: "set (AList.delete k d) \<subseteq> set d"
  by (auto simp: AList.delete_eq)

lemma set_move_to_end [simp]: "od_wf d \<Longrightarrow> set (od_move_to_end k d) = set d"
  by (auto simp: od_move_to_end_def AList.delete_eq od_wf_def dest: map_of_SomeD
      eq_key_imp_eq_value split: option.split)

lemma set_update_cases:
  "kv \<in> set (AList.update k v d) \<Longrightarrow> kv = (k, v) \<or> kv \<in> set d"
  by (induction d) (auto split: if_splits)

lemma length_delete_present:
  "od_wf d \<Longrightarrow> map_of d k = Some v \<Longrightarrow> Suc (length (AList.delete k d)) = length d"
proof (induction d)
  case Nil
  then show ?case by simp
next
  case (Cons kv d)
  then show ?case
    by (cases kv) (auto simp: od_wf_def delete_absent map_of_eq_None_iff split: if_splits)
qed

lemma length_move_to_end [simp]: "od_wf d \<Longrightarrow> length (od_move_to_end k d) = length d"
  by (auto simp: od_move_to_end_def length_delete_present split: option.split)

lemma od_total_Nil [simp, od_simps]: "od_total w [] = 0"
  by (simp add: od_total_def)

lemma od_total_Cons [simp, od_simps]: "od_total w (kv # d) = w (snd kv) + od_total w d"
  by (simp add: od_total_def)

lemma od_total_append [simp, od_simps]: "od_total w (d @ d') = od_total w d + od_total w d'"
  by (simp add: od_total_def)

lemma od_total_delete:
  "od_wf d \<Longrightarrow> od_total w (AList.delete k d) =
     od_total w d - (case map_of d k of None \<Rightarrow> 0 | Some v \<Rightarrow> w v)"
proof (induction d)
  case Nil
  then show ?case by simp
next
  case (Cons kv d)
  then show ?case
    by (cases kv) (auto simp: od_wf_def delete_absent map_of_eq_None_iff rev_image_eqI
        split: option.splits)
qed

lemma od_total_update:
  "od_wf d \<Longrightarrow> od_total w (AList.update k v d) =
     od_total w d - (case map_of d k of None \<Rightarrow> 0 | Some u \<Rightarrow> w u) + w v"
  by (induction d) (auto simp: od_wf_def split: option.splits)

lemma od_total_move_to_end [simp, od_simps]:
  "od_wf d \<Longrightarrow> od_total w (od_move_to_end k d) = od_total w d"
  by (auto simp: od_move_to_end_def od_total_delete split: option.split)

section \<open>Weighed stores\<close>

text \<open>
  The byte accounting that every bounded store of the program shares: each value has a
  non-negative weight and the store keeps the sum. The laws are proved once here and
  used for the response bytes and the reserved bytes of the idempotency store and for
  the bytes of the verified-source cache.
\<close>

locale weighed =
  fixes weight :: "'v \<Rightarrow> int" and ok :: "'v \<Rightarrow> bool"
  assumes weight_nonneg: "ok v \<Longrightarrow> 0 \<le> weight v"
begin

lemma total_nonneg: "list_all (\<lambda>kv. ok (snd kv)) d \<Longrightarrow> 0 \<le> od_total weight d"
  by (induction d) (simp_all add: weight_nonneg)

lemma total_filter_le:
  "list_all (\<lambda>kv. ok (snd kv)) d \<Longrightarrow> od_total weight (filter P d) \<le> od_total weight d"
  by (induction d) (auto simp: weight_nonneg add_increasing)

lemma weight_le_total:
  "list_all (\<lambda>kv. ok (snd kv)) d \<Longrightarrow> map_of d k = Some v \<Longrightarrow> weight v \<le> od_total weight d"
  by (induction d)
    (auto simp: total_nonneg weight_nonneg add_increasing add_increasing2 split: if_splits)

lemma total_delete_le:
  "list_all (\<lambda>kv. ok (snd kv)) d \<Longrightarrow>
     od_total weight (AList.delete k d) \<le> od_total weight d"
  by (simp add: AList.delete_eq total_filter_le)

lemma delete_no_underflow:
  "od_wf d \<Longrightarrow> list_all (\<lambda>kv. ok (snd kv)) d \<Longrightarrow> map_of d k = Some v \<Longrightarrow>
     od_total weight d - weight v = od_total weight (AList.delete k d)
     \<and> 0 \<le> od_total weight (AList.delete k d)"
  using weight_le_total [of d k v] by (simp add: od_total_delete)

end

end
