(* ===== verification/Py_Text.thy ===== *)
theory Py_Text
  imports Lucent_Prelude
begin

text \<open>
  The string and bytes operations of Python's library that the program uses: \<open>lower\<close>,
  \<open>strip\<close>, \<open>split\<close>, \<open>in\<close>, decimal and hexadecimal rendering and parsing, UTF-8
  lengths, and the character classes of the program's regular expressions.
\<close>

section \<open>Characters\<close>

definition code :: "char \<Rightarrow> nat" where
  "code c = of_char c"

definition in_range :: "char \<Rightarrow> nat \<Rightarrow> nat \<Rightarrow> bool" where
  "in_range c lo hi \<longleftrightarrow> lo \<le> code c \<and> code c \<le> hi"

definition is_digit :: "char \<Rightarrow> bool" where
  "is_digit c = in_range c 48 57"

definition is_lower_hex :: "char \<Rightarrow> bool" where
  "is_lower_hex c \<longleftrightarrow> is_digit c \<or> in_range c 97 102"

definition is_hex :: "char \<Rightarrow> bool" where
  "is_hex c \<longleftrightarrow> is_lower_hex c \<or> in_range c 65 70"

definition is_letter :: "char \<Rightarrow> bool" where
  "is_letter c \<longleftrightarrow> in_range c 65 90 \<or> in_range c 97 122"

text \<open>Lower-casing of one code point: ASCII and Latin-1 capitals move up by 32.\<close>

definition lower_char :: "char \<Rightarrow> char" where
  "lower_char c =
     (if in_range c 65 90 \<or> (in_range c 192 222 \<and> code c \<noteq> 215) then char_of (code c + 32) else c)"

text \<open>\<open>str.isspace\<close> on the code points of the model.\<close>

definition is_space :: "char \<Rightarrow> bool" where
  "is_space c \<longleftrightarrow> in_range c 9 13 \<or> in_range c 28 32 \<or> code c = 133 \<or> code c = 160"

section \<open>Text\<close>

definition py_lower :: "pystr \<Rightarrow> pystr" where
  "py_lower = map lower_char"

fun py_in :: "pystr \<Rightarrow> pystr \<Rightarrow> bool" where
  "py_in p [] = (p = [])"
| "py_in p (c # s) = (prefix p (c # s) \<or> py_in p s)"

definition py_startswith :: "pystr \<Rightarrow> pystr \<Rightarrow> bool" where
  "py_startswith s p = prefix p s"

definition py_endswith :: "pystr \<Rightarrow> pystr \<Rightarrow> bool" where
  "py_endswith s p = prefix (rev p) (rev s)"

definition py_strip :: "pystr \<Rightarrow> pystr" where
  "py_strip s = rev (dropWhile is_space (rev (dropWhile is_space s)))"

definition py_strip_char :: "char \<Rightarrow> pystr \<Rightarrow> pystr" where
  "py_strip_char x s = rev (dropWhile (\<lambda>c. c = x) (rev (dropWhile (\<lambda>c. c = x) s)))"

text \<open>\<open>s.split()\<close>: the maximal runs of non-space characters.\<close>

fun py_words_acc :: "pystr \<Rightarrow> pystr \<Rightarrow> pystr list" where
  "py_words_acc acc [] = (if acc = [] then [] else [rev acc])"
| "py_words_acc acc (c # s) =
     (if is_space c then (if acc = [] then py_words_acc [] s else rev acc # py_words_acc [] s)
      else py_words_acc (c # acc) s)"

definition py_words :: "pystr \<Rightarrow> pystr list" where
  "py_words s = py_words_acc [] s"

text \<open>\<open>s.split(x)\<close> for a one-character separator.\<close>

fun py_split_acc :: "char \<Rightarrow> pystr \<Rightarrow> pystr \<Rightarrow> pystr list" where
  "py_split_acc x acc [] = [rev acc]"
| "py_split_acc x acc (c # s) =
     (if c = x then rev acc # py_split_acc x [] s else py_split_acc x (c # acc) s)"

definition py_split :: "char \<Rightarrow> pystr \<Rightarrow> pystr list" where
  "py_split x s = py_split_acc x [] s"

fun py_join :: "pystr \<Rightarrow> pystr list \<Rightarrow> pystr" where
  "py_join sep [] = []"
| "py_join sep [x] = x"
| "py_join sep (x # y # xs) = x @ sep @ py_join sep (y # xs)"

text \<open>\<open>s.replace(x, y)\<close> for one-character \<open>x\<close>.\<close>

definition py_replace_char :: "char \<Rightarrow> pystr \<Rightarrow> pystr \<Rightarrow> pystr" where
  "py_replace_char x y s = concat (map (\<lambda>c. if c = x then y else [c]) s)"

section \<open>Encodings\<close>

definition utf8_char :: "char \<Rightarrow> bytes" where
  "utf8_char c =
     (let n = code c in
      if n < 128 then [of_nat n] else [of_nat (192 + n div 64), of_nat (128 + n mod 64)])"

definition utf8 :: "pystr \<Rightarrow> bytes" where
  "utf8 s = concat (map utf8_char s)"

definition is_ascii :: "pystr \<Rightarrow> bool" where
  "is_ascii s = list_all (\<lambda>c. code c < 128) s"

definition hex_digit :: "nat \<Rightarrow> char" where
  "hex_digit n = char_of (if n < 10 then 48 + n else 87 + n)"

definition hex_byte :: "byte \<Rightarrow> pystr" where
  "hex_byte b = [hex_digit (unat b div 16), hex_digit (unat b mod 16)]"

definition bytes_hex :: "bytes \<Rightarrow> pystr" where
  "bytes_hex bs = concat (map hex_byte bs)"

definition hex_value :: "char \<Rightarrow> nat" where
  "hex_value c =
     (if is_digit c then code c - 48 else if in_range c 97 102 then code c - 87 else code c - 55)"

text \<open>\<open>bytes.fromhex\<close> on an even number of hexadecimal digits.\<close>

fun bytes_fromhex :: "pystr \<Rightarrow> bytes" where
  "bytes_fromhex (a # b # s) = of_nat (16 * hex_value a + hex_value b) # bytes_fromhex s"
| "bytes_fromhex _ = []"

definition int_fromhex :: "pystr \<Rightarrow> int" where
  "int_fromhex s = foldl (\<lambda>n c. 16 * n + int (hex_value c)) 0 s"

fun nat_digits :: "nat \<Rightarrow> nat \<Rightarrow> nat list" where
  "nat_digits b n = (if b < 2 \<or> n < b then [n] else nat_digits b (n div b) @ [n mod b])"

declare nat_digits.simps [simp del]

text \<open>\<open>str(n)\<close> and \<open>hex(n)\<close>.\<close>

definition nat_str :: "nat \<Rightarrow> pystr" where
  "nat_str n = map (\<lambda>d. char_of (48 + d)) (nat_digits 10 n)"

definition int_str :: "int \<Rightarrow> pystr" where
  "int_str i = (if i < 0 then CHR ''-'' # nat_str (nat (- i)) else nat_str (nat i))"

definition nat_hex :: "nat \<Rightarrow> pystr" where
  "nat_hex n = ''0x'' @ map hex_digit (nat_digits 16 n)"

section \<open>Facts\<close>

lemma code_less [simp]: "code c < 256"
  by (simp add: code_def)

lemma code_char_of [simp]: "n < 256 \<Longrightarrow> code (char_of n) = n"
  by (simp add: code_def)

lemma length_py_lower [simp]: "length (py_lower s) = length s"
  by (simp add: py_lower_def)

lemma py_lower_Nil [simp]: "py_lower [] = []"
  by (simp add: py_lower_def)

lemma py_lower_Cons [simp]: "py_lower (c # s) = lower_char c # py_lower s"
  by (simp add: py_lower_def)

lemma py_lower_append [simp]: "py_lower (s @ t) = py_lower s @ py_lower t"
  by (simp add: py_lower_def)

lemma lower_char_idem [simp]: "lower_char (lower_char c) = lower_char c"
  by (auto simp: lower_char_def in_range_def)

lemma py_lower_idem [simp]: "py_lower (py_lower s) = py_lower s"
  by (simp add: py_lower_def comp_def)

lemma py_in_sublist: "py_in p s = sublist p s"
  by (induction s) (auto simp: sublist_Cons_right)

lemma utf8_length_ge: "length s \<le> length (utf8 s)"
proof (induction s)
  case Nil
  then show ?case by (simp add: utf8_def)
next
  case (Cons c s)
  have "1 \<le> length (utf8_char c)" by (simp add: utf8_char_def Let_def)
  with Cons show ?case by (simp add: utf8_def)
qed

lemma length_utf8_char_ascii: "code c < 128 \<Longrightarrow> length (utf8_char c) = 1"
  by (simp add: utf8_char_def)

lemma utf8_length_ascii: "is_ascii s \<Longrightarrow> length (utf8 s) = length s"
  by (induction s) (simp_all add: utf8_def is_ascii_def length_utf8_char_ascii)

lemma utf8_Nil_iff [simp]: "utf8 s = [] \<longleftrightarrow> s = []"
proof
  assume "utf8 s = []"
  with utf8_length_ge [of s] show "s = []" by simp
qed (simp add: utf8_def)

lemma length_bytes_hex [simp]: "length (bytes_hex bs) = 2 * length bs"
  by (induction bs) (simp_all add: bytes_hex_def hex_byte_def)

lemma length_bytes_fromhex [simp]: "length (bytes_fromhex s) = length s div 2"
  by (induction s rule: bytes_fromhex.induct) auto

lemma code_hex_digit: "n < 16 \<Longrightarrow> code (hex_digit n) = (if n < 10 then 48 + n else 87 + n)"
  by (simp add: hex_digit_def)

lemma hex_value_digit [simp]: "n < 16 \<Longrightarrow> hex_value (hex_digit n) = n"
  by (simp add: hex_value_def is_digit_def in_range_def code_hex_digit)

lemma is_lower_hex_digit [simp]: "n < 16 \<Longrightarrow> is_lower_hex (hex_digit n)"
  by (simp add: is_lower_hex_def is_digit_def in_range_def code_hex_digit)

lemma unat_byte_less: "unat (b :: byte) < 256"
  using unsigned_less [where 'a = nat, of b] by simp

lemma bytes_fromhex_hex [simp]: "bytes_fromhex (bytes_hex bs) = bs"
proof (induction bs)
  case Nil
  then show ?case by (simp add: bytes_hex_def)
next
  case (Cons b bs)
  have "unat b < 256" by (rule unat_byte_less)
  then have "unat b div 16 < 16" by simp
  moreover have "16 * (unat b div 16) + unat b mod 16 = unat b" by simp
  ultimately show ?case
    using Cons by (simp add: bytes_hex_def hex_byte_def del: of_nat_add of_nat_mult)
qed

lemma bytes_hex_lower: "list_all is_lower_hex (bytes_hex bs)"
proof (induction bs)
  case Nil
  then show ?case by (simp add: bytes_hex_def)
next
  case (Cons b bs)
  have "unat b < 256" by (rule unat_byte_less)
  then have "unat b div 16 < 16" by simp
  with Cons show ?case by (simp add: bytes_hex_def hex_byte_def)
qed

end
