(* ===== verification/Access_Errors.thy ===== *)
theory Access_Errors
  imports Py_Text
begin

text \<open>
  The error values and the input validators of \<open>lucent/access.py\<close>. An
  \<open>AccessError\<close> subclass is a constructor carrying what its \<open>__init__\<close> takes; the
  attributes the base class stores are functions of it. The validators take a dynamic
  Python value and raise \<open>TypeError\<close> or \<open>ValueError\<close> as the code does. SHA-256 is a
  parameter of every definition that hashes.
\<close>

section \<open>Limits\<close>

definition API_KEY_HASH_PREFIX :: pystr where
  "API_KEY_HASH_PREFIX = ''sha256:''"

definition MAX_API_KEY_BYTES :: nat where
  "MAX_API_KEY_BYTES = 4096"

definition MAX_TENANT_ID_BYTES :: nat where
  "MAX_TENANT_ID_BYTES = 128"

definition MAX_IDEMPOTENCY_KEY_BYTES :: nat where
  "MAX_IDEMPOTENCY_KEY_BYTES = 256"

definition MAX_FINGERPRINT_BYTES :: nat where
  "MAX_FINGERPRINT_BYTES = 256"

definition MAX_CACHED_HEADERS :: nat where
  "MAX_CACHED_HEADERS = 64"

definition MAX_HEADER_LINE_BYTES :: nat where
  "MAX_HEADER_LINE_BYTES = 8192"

definition MAX_QUOTA_CAPACITY :: int where
  "MAX_QUOTA_CAPACITY = 1000000"

definition MAX_QUOTA_REFILL_TOKENS_PER_SECOND :: rat where
  "MAX_QUOTA_REFILL_TOKENS_PER_SECOND = 100000"

section \<open>Structured failures\<close>

datatype access_error =
    AuthenticationError
  | QuotaExceededError int int rat  \<comment> \<open>limit, remaining, retry_after_seconds\<close>
  | IdempotencyConflictError
  | IdempotencyInProgressError rat  \<comment> \<open>retry_after_seconds\<close>
  | IdempotencyCapacityError rat  \<comment> \<open>retry_after_seconds\<close>
  | InvalidIdempotencyInputError pystr  \<comment> \<open>detail\<close>
  | InvalidReservationError
  | IdempotencyResponseTooLargeError int  \<comment> \<open>max_bytes\<close>

text \<open>What an operation of the module can raise: its own errors or the language's.\<close>

datatype access_failure = Access access_error | Py py_exn

fun ae_code :: "access_error \<Rightarrow> pystr" where
  "ae_code AuthenticationError = ''AUTHENTICATION_FAILED''"
| "ae_code (QuotaExceededError _ _ _) = ''QUOTA_EXCEEDED''"
| "ae_code IdempotencyConflictError = ''IDEMPOTENCY_CONFLICT''"
| "ae_code (IdempotencyInProgressError _) = ''IDEMPOTENCY_IN_PROGRESS''"
| "ae_code (IdempotencyCapacityError _) = ''IDEMPOTENCY_CAPACITY_EXCEEDED''"
| "ae_code (InvalidIdempotencyInputError _) = ''INVALID_IDEMPOTENCY_INPUT''"
| "ae_code InvalidReservationError = ''INVALID_IDEMPOTENCY_RESERVATION''"
| "ae_code (IdempotencyResponseTooLargeError _) = ''IDEMPOTENCY_RESPONSE_TOO_LARGE''"

fun ae_title :: "access_error \<Rightarrow> pystr" where
  "ae_title AuthenticationError = ''Unauthorized''"
| "ae_title (QuotaExceededError _ _ _) = ''Too Many Requests''"
| "ae_title IdempotencyConflictError = ''Conflict''"
| "ae_title (IdempotencyInProgressError _) = ''Conflict''"
| "ae_title (IdempotencyCapacityError _) = ''Service Unavailable''"
| "ae_title (InvalidIdempotencyInputError _) = ''Bad Request''"
| "ae_title InvalidReservationError = ''Conflict''"
| "ae_title (IdempotencyResponseTooLargeError _) = ''Internal Server Error''"

fun ae_status :: "access_error \<Rightarrow> int" where
  "ae_status AuthenticationError = 401"
| "ae_status (QuotaExceededError _ _ _) = 429"
| "ae_status IdempotencyConflictError = 409"
| "ae_status (IdempotencyInProgressError _) = 409"
| "ae_status (IdempotencyCapacityError _) = 503"
| "ae_status (InvalidIdempotencyInputError _) = 400"
| "ae_status InvalidReservationError = 409"
| "ae_status (IdempotencyResponseTooLargeError _) = 500"

fun ae_detail :: "access_error \<Rightarrow> pystr" where
  "ae_detail AuthenticationError = ''a valid API key is required''"
| "ae_detail (QuotaExceededError _ _ _) = ''tenant request quota exceeded''"
| "ae_detail IdempotencyConflictError =
     ''idempotency key was already used for a different request''"
| "ae_detail (IdempotencyInProgressError _) = ''an equivalent request is still in progress''"
| "ae_detail (IdempotencyCapacityError _) = ''idempotency capacity is temporarily exhausted''"
| "ae_detail (InvalidIdempotencyInputError d) = d"
| "ae_detail InvalidReservationError = ''idempotency reservation is no longer active''"
| "ae_detail (IdempotencyResponseTooLargeError _) =
     ''response exceeds the idempotency cache limit''"

fun ae_retry_after :: "access_error \<Rightarrow> rat option" where
  "ae_retry_after (QuotaExceededError _ _ r) = Some r"
| "ae_retry_after (IdempotencyInProgressError r) = Some r"
| "ae_retry_after (IdempotencyCapacityError r) = Some r"
| "ae_retry_after _ = None"

fun ae_context :: "access_error \<Rightarrow> (pystr \<times> pyval) list" where
  "ae_context (QuotaExceededError limit remaining _) =
     [(''limit'', PInt limit), (''remaining'', PInt remaining)]"
| "ae_context (IdempotencyResponseTooLargeError m) = [(''max_bytes'', PInt m)]"
| "ae_context _ = []"

definition as_problem :: "access_error \<Rightarrow> pystr option \<Rightarrow> (pystr \<times> pyval) list" where
  "as_problem e request_id =
     [(''type'', PStr ''about:blank''),
      (''title'', PStr (ae_title e)),
      (''status'', PInt (ae_status e)),
      (''code'', PStr (ae_code e)),
      (''detail'', PStr (ae_detail e))]
     @ (case request_id of None \<Rightarrow> [] | Some r \<Rightarrow> [(''request_id'', PStr r)])
     @ (case ae_retry_after e of None \<Rightarrow> []
        | Some r \<Rightarrow> [(''retry_after_seconds'', PFloat (Finite r))])
     @ ae_context e"

definition response_headers :: "access_error \<Rightarrow> (pystr \<times> pystr) list" where
  "response_headers e =
     (if e = AuthenticationError then [(''WWW-Authenticate'', ''ApiKey realm=\"lucent\"'')]
      else case ae_retry_after e of
        None \<Rightarrow> []
      | Some r \<Rightarrow> [(''Retry-After'', int_str (max 1 \<lceil>r\<rceil>))])"

section \<open>Validators\<close>

fun secret_bytes :: "pyval \<Rightarrow> py_exn + bytes" where
  "secret_bytes v =
     res_bind
       (case v of PStr s \<Rightarrow> Inr (utf8 s) | PBytes b \<Rightarrow> Inr b
        | _ \<Rightarrow> Inl (TypeError ''API key must be text or bytes''))
       (\<lambda>encoded. res_bind (guard (encoded \<noteq> []) (ValueError ''API key must not be empty''))
       (\<lambda>_. res_bind
          (guard (length encoded \<le> MAX_API_KEY_BYTES)
            (ValueError (''API key may not exceed '' @ nat_str MAX_API_KEY_BYTES
               @ '' encoded bytes'')))
       (\<lambda>_. Inr encoded)))"

definition hash_api_key :: "(bytes \<Rightarrow> bytes) \<Rightarrow> pyval \<Rightarrow> py_exn + pystr" where
  "hash_api_key sha256 api_key =
     res_bind (secret_bytes api_key) (\<lambda>b. Inr (API_KEY_HASH_PREFIX @ bytes_hex (sha256 b)))"

definition fingerprint_request :: "(bytes \<Rightarrow> bytes) \<Rightarrow> pyval \<Rightarrow> py_exn + pystr" where
  "fingerprint_request sha256 body =
     (case body of
        PBytes b \<Rightarrow> Inr (API_KEY_HASH_PREFIX @ bytes_hex (sha256 b))
      | _ \<Rightarrow> Inl (TypeError ''request body must be bytes-like''))"

text \<open>\<open>_HASH_RE\<close>: the prefix and exactly 64 lowercase hexadecimal digits.\<close>

definition matches_HASH_RE :: "pystr \<Rightarrow> bool" where
  "matches_HASH_RE s \<longleftrightarrow>
     prefix API_KEY_HASH_PREFIX s \<and> length (drop 7 s) = 64 \<and> list_all is_lower_hex (drop 7 s)"

definition parse_api_key_hash :: "pyval \<Rightarrow> py_exn + bytes" where
  "parse_api_key_hash v =
     (case v of
        PStr s \<Rightarrow>
          if matches_HASH_RE s then Inr (bytes_fromhex (drop 7 s))
          else Inl (ValueError ''api_key_hash must use canonical sha256:<lowercase hex>'')
      | _ \<Rightarrow> Inl (TypeError ''api_key_hash must be a sha256 string''))"

text \<open>
  \<open>float(i)\<close> of an integer raises \<open>OverflowError\<close> from the midpoint above the largest
  finite double on.
\<close>

definition float_overflow :: "int \<Rightarrow> bool" where
  "float_overflow i \<longleftrightarrow> 2 ^ 1024 - 2 ^ 970 \<le> \<bar>i\<bar>"

definition positive_finite :: "pyval \<Rightarrow> pystr \<Rightarrow> py_exn + rat" where
  "positive_finite v name =
     (let bad = Inl (ValueError (name @ '' must be positive and finite'')) in
      case v of
        PInt i \<Rightarrow> if float_overflow i \<or> i \<le> 0 then bad else Inr (of_int i)
      | PFloat (Finite q) \<Rightarrow> if q \<le> 0 then bad else Inr q
      | PFloat _ \<Rightarrow> bad
      | _ \<Rightarrow> Inl (TypeError (name @ '' must be a number'')))"

definition positive_int :: "pyval \<Rightarrow> pystr \<Rightarrow> py_exn + int" where
  "positive_int v name =
     (case v of
        PInt i \<Rightarrow> if i \<le> 0 then Inl (ValueError (name @ '' must be positive'')) else Inr i
      | _ \<Rightarrow> Inl (TypeError (name @ '' must be an integer'')))"

definition bounded_text :: "pyval \<Rightarrow> pystr \<Rightarrow> nat \<Rightarrow> py_exn + pystr" where
  "bounded_text v name max_bytes =
     (case v of
        PStr s \<Rightarrow>
          if s = [] \<or> max_bytes < length (utf8 s)
          then Inl (ValueError (name @ '' must contain 1 to '' @ nat_str max_bytes
                 @ '' encoded bytes''))
          else Inr s
      | _ \<Rightarrow> Inl (TypeError (name @ '' must be text'')))"

text \<open>\<open>_now\<close> on the clock's return value; an integer too large for a float raises.\<close>

definition now_of :: "pyval \<Rightarrow> py_exn + rat" where
  "now_of v =
     (case v of
        PInt i \<Rightarrow>
          if float_overflow i then Inl (OverflowError ''int too large to convert to float'')
          else Inr (of_int i)
      | PFloat (Finite q) \<Rightarrow> Inr q
      | PFloat _ \<Rightarrow> Inl (ValueError ''clock must return a finite number'')
      | _ \<Rightarrow> Inl (TypeError ''clock must return a number''))"

section \<open>Facts\<close>

lemma secret_bytes_Inr: "secret_bytes v = Inr b \<Longrightarrow> b \<noteq> [] \<and> length b \<le> MAX_API_KEY_BYTES"
  by (auto simp: res_bind_Inr_iff)

declare secret_bytes.simps [simp del]

lemma positive_finite_pos: "positive_finite v name = Inr q \<Longrightarrow> 0 < q"
  by (auto simp: positive_finite_def Let_def split: pyval.splits pyfloat.splits if_splits)

lemma positive_int_pos: "positive_int v name = Inr i \<Longrightarrow> 0 < i"
  by (auto simp: positive_int_def split: pyval.splits if_splits)

lemma bounded_text_Inr:
  "bounded_text v name m = Inr s \<longleftrightarrow> v = PStr s \<and> s \<noteq> [] \<and> length (utf8 s) \<le> m"
  by (auto simp: bounded_text_def split: pyval.splits)

lemma matches_HASH_RE_hash:
  "length d = 32 \<Longrightarrow> matches_HASH_RE (API_KEY_HASH_PREFIX @ bytes_hex d)"
  using bytes_hex_lower [of d] by (simp add: matches_HASH_RE_def API_KEY_HASH_PREFIX_def)

lemma parse_api_key_hash_hash:
  "length d = 32 \<Longrightarrow> parse_api_key_hash (PStr (API_KEY_HASH_PREFIX @ bytes_hex d)) = Inr d"
  by (simp add: parse_api_key_hash_def matches_HASH_RE_hash)
    (simp add: API_KEY_HASH_PREFIX_def)

lemma parse_api_key_hash_length: "parse_api_key_hash v = Inr d \<Longrightarrow> length d = 32"
  by (auto simp: parse_api_key_hash_def matches_HASH_RE_def split: pyval.splits if_splits)

text \<open>
  Every structured access failure renders as a problem object with its status and
  code, the status is a client or server error, and a \<open>Retry-After\<close> header is sent
  exactly for the failures that carry a delay, never naming less than one second and
  never less than the delay itself.
\<close>

theorem access_error_contract:
  "map_of (as_problem e rid) ''status'' = Some (PInt (ae_status e))
   \<and> map_of (as_problem e rid) ''code'' = Some (PStr (ae_code e))
   \<and> ae_status e \<in> {400, 401, 409, 429, 500, 503}
   \<and> (case ae_retry_after e of
        None \<Rightarrow> map_of (response_headers e) ''Retry-After'' = None
      | Some r \<Rightarrow> \<exists>n. map_of (response_headers e) ''Retry-After'' = Some (int_str n)
                    \<and> 1 \<le> n \<and> r \<le> of_int n \<and> (n = 1 \<or> of_int n < r + 1))"
proof -
  have "(n :: int) = 1 \<or> of_int n < r + 1" if "n = max 1 \<lceil>r\<rceil>" for n and r :: rat
    using that by (auto simp: max_def) linarith
  moreover have "r \<le> of_int (max 1 \<lceil>r\<rceil>)" for r :: rat
    by (simp add: of_int_max le_max_iff_disj)
  ultimately show ?thesis
    by (cases e) (auto simp: as_problem_def response_headers_def
        intro!: exI [where x = "max 1 \<lceil>r\<rceil>" for r])
qed

end
