(* ===== verification/Access_Auth.thy ===== *)
theory Access_Auth
  imports Access_Errors
begin

text \<open>
  Tenant configuration and API-key authentication of \<open>lucent/access.py\<close>. Arguments
  annotated with one of the module's own dataclasses carry that type here; every other
  argument is a dynamic value that the constructor checks. \<open>hmac.compare_digest\<close> is
  equality: its constant running time is not modelled.
\<close>

section \<open>Configuration\<close>

record quota_policy =
  qp_capacity :: int
  qp_refill :: rat

record tenant_config =
  tc_tenant_id :: pystr
  tc_api_key_hash :: pystr
  tc_quota :: quota_policy
  tc_enabled :: bool

text \<open>\<open>QuotaPolicy.__post_init__\<close>; the default policy is 60 tokens, one per second.\<close>

definition make_quota_policy :: "pyval \<Rightarrow> pyval \<Rightarrow> py_exn + quota_policy" where
  "make_quota_policy capacity refill =
     res_bind (positive_int capacity ''capacity'')
     (\<lambda>c. res_bind
       (guard (c \<le> MAX_QUOTA_CAPACITY) (ValueError ''capacity may not exceed 1000000''))
     (\<lambda>_. res_bind (positive_finite refill ''refill_tokens_per_second'')
     (\<lambda>r. res_bind
       (guard (r \<le> MAX_QUOTA_REFILL_TOKENS_PER_SECOND)
         (ValueError ''refill_tokens_per_second may not exceed 100000''))
     (\<lambda>_. Inr \<lparr>qp_capacity = c, qp_refill = r\<rparr>))))"

definition default_quota_policy :: quota_policy where
  "default_quota_policy = \<lparr>qp_capacity = 60, qp_refill = 1\<rparr>"

text \<open>\<open>TenantConfig.__post_init__\<close>.\<close>

definition make_tenant_config ::
  "pyval \<Rightarrow> pyval \<Rightarrow> quota_policy \<Rightarrow> pyval \<Rightarrow> py_exn + tenant_config" where
  "make_tenant_config tenant_id api_key_hash quota enabled =
     res_bind (bounded_text tenant_id ''tenant_id'' MAX_TENANT_ID_BYTES)
     (\<lambda>tid. res_bind (parse_api_key_hash api_key_hash)
     (\<lambda>_. case (api_key_hash, enabled) of
        (PStr h, PBool b) \<Rightarrow>
          Inr \<lparr>tc_tenant_id = tid, tc_api_key_hash = h, tc_quota = quota, tc_enabled = b\<rparr>
      | _ \<Rightarrow> Inl (TypeError ''enabled must be a boolean'')))"

definition from_api_key ::
  "(bytes \<Rightarrow> bytes) \<Rightarrow> pyval \<Rightarrow> pyval \<Rightarrow> quota_policy option \<Rightarrow> pyval \<Rightarrow> py_exn + tenant_config" where
  "from_api_key sha256 tenant_id api_key quota enabled =
     res_bind (hash_api_key sha256 api_key)
     (\<lambda>h. make_tenant_config tenant_id (PStr h)
       (case quota of None \<Rightarrow> default_quota_policy | Some q \<Rightarrow> q) enabled)"

section \<open>The authenticator\<close>

text \<open>One record per tenant: its digest, its identity and whether it is enabled.\<close>

type_synonym auth_record = "bytes \<times> pystr \<times> bool"

fun authenticator_records ::
  "pystr list \<Rightarrow> bytes list \<Rightarrow> tenant_config list \<Rightarrow> py_exn + auth_record list" where
  "authenticator_records ids digests [] = Inr []"
| "authenticator_records ids digests (c # cs) =
     res_bind (parse_api_key_hash (PStr (tc_api_key_hash c)))
     (\<lambda>d. res_bind (guard (tc_tenant_id c \<notin> set ids) (ValueError ''tenant ids must be unique''))
     (\<lambda>_. res_bind (guard (d \<notin> set digests) (ValueError ''API key hashes must be unique''))
     (\<lambda>_. res_bind (authenticator_records (tc_tenant_id c # ids) (d # digests) cs)
     (\<lambda>rs. Inr ((d, tc_tenant_id c, tc_enabled c) # rs)))))"

definition make_authenticator :: "tenant_config list \<Rightarrow> py_exn + auth_record list" where
  "make_authenticator tenants =
     res_bind (authenticator_records [] [] tenants)
     (\<lambda>rs. res_bind (guard (rs \<noteq> []) (ValueError ''at least one tenant must be configured''))
     (\<lambda>_. Inr rs))"

text \<open>The loop of \<open>authenticate\<close>: every record is compared, the last match is kept.\<close>

fun match_digest ::
  "bytes \<Rightarrow> auth_record list \<Rightarrow> (pystr \<times> bool) option \<Rightarrow> (pystr \<times> bool) option" where
  "match_digest supplied [] m = m"
| "match_digest supplied ((d, tid, enabled) # rs) m =
     match_digest supplied rs (if supplied = d then Some (tid, enabled) else m)"

definition authenticate ::
  "(bytes \<Rightarrow> bytes) \<Rightarrow> auth_record list \<Rightarrow> pyval \<Rightarrow> access_error + pystr" where
  "authenticate sha256 records api_key =
     (let (supplied, valid) =
        (if api_key = PNone then (sha256 (utf8 ''invalid-api-key''), False)
         else case secret_bytes api_key of
           Inl _ \<Rightarrow> (sha256 (utf8 ''invalid-api-key''), False)
         | Inr b \<Rightarrow> (sha256 b, True))
      in case match_digest supplied records None of
           Some (tid, enabled) \<Rightarrow>
             if valid \<and> enabled then Inr tid else Inl AuthenticationError
         | None \<Rightarrow> Inl AuthenticationError)"

section \<open>Facts\<close>

lemma make_quota_policy_bounds:
  "make_quota_policy c r = Inr p \<Longrightarrow>
     1 \<le> qp_capacity p \<and> qp_capacity p \<le> 1000000 \<and> 0 < qp_refill p \<and> qp_refill p \<le> 100000"
  by (auto simp: make_quota_policy_def res_bind_Inr_iff MAX_QUOTA_CAPACITY_def
      MAX_QUOTA_REFILL_TOKENS_PER_SECOND_def dest!: positive_int_pos positive_finite_pos)

lemma authenticator_records_fresh:
  "authenticator_records ids ds cs = Inr rs \<Longrightarrow> r \<in> set rs \<Longrightarrow>
     fst r \<notin> set ds \<and> fst (snd r) \<notin> set ids"
proof (induction cs arbitrary: ids ds rs)
  case Nil
  then show ?case by simp
next
  case (Cons c cs)
  then show ?case by (fastforce simp: res_bind_Inr_iff)
qed

lemma authenticator_records_distinct:
  "authenticator_records ids ds cs = Inr rs \<Longrightarrow>
     distinct (map fst rs) \<and> distinct (map (fst \<circ> snd) rs)"
proof (induction cs arbitrary: ids ds rs)
  case Nil
  then show ?case by simp
next
  case (Cons c cs)
  then obtain d rs' where
    rec: "authenticator_records (tc_tenant_id c # ids) (d # ds) cs = Inr rs'"
    and rs: "rs = (d, tc_tenant_id c, tc_enabled c) # rs'"
    by (auto simp: res_bind_Inr_iff)
  show ?case
    using Cons.IH [OF rec] authenticator_records_fresh [OF rec] by (fastforce simp: rs)
qed

lemma authenticator_records_iff:
  "authenticator_records ids ds cs = Inr rs \<Longrightarrow>
     r \<in> set rs \<longleftrightarrow> (\<exists>c\<in>set cs. parse_api_key_hash (PStr (tc_api_key_hash c)) = Inr (fst r)
                      \<and> snd r = (tc_tenant_id c, tc_enabled c))"
proof (induction cs arbitrary: ids ds rs)
  case Nil
  then show ?case by simp
next
  case (Cons c cs)
  then obtain d rs' where d: "parse_api_key_hash (PStr (tc_api_key_hash c)) = Inr d"
    and rec: "authenticator_records (tc_tenant_id c # ids) (d # ds) cs = Inr rs'"
    and rs: "rs = (d, tc_tenant_id c, tc_enabled c) # rs'"
    by (auto simp: res_bind_Inr_iff)
  show ?case using Cons.IH [OF rec] d by (cases r) (auto simp: rs)
qed

lemma match_digest_absent: "s \<notin> fst ` set rs \<Longrightarrow> match_digest s rs m = m"
  by (induction s rs m rule: match_digest.induct) auto

lemma match_digest_iff:
  "distinct (map fst rs) \<Longrightarrow> match_digest s rs None = Some (t, e) \<longleftrightarrow> (s, t, e) \<in> set rs"
proof (induction rs)
  case Nil
  then show ?case by simp
next
  case (Cons r rs)
  obtain d tid en where r: "r = (d, tid, en)" by (cases r)
  show ?case
  proof (cases "s = d")
    case True
    with Cons.prems have "s \<notin> fst ` set rs" by (simp add: r)
    with True show ?thesis by (auto simp: r match_digest_absent intro: rev_image_eqI)
  next
    case False
    with Cons show ?thesis by (simp add: r)
  qed
qed

lemma authenticate_iff:
  assumes "distinct (map fst records)"
  shows "authenticate sha256 records key = Inr t \<longleftrightarrow>
     (\<exists>b. secret_bytes key = Inr b \<and> (sha256 b, t, True) \<in> set records)"
proof (cases "secret_bytes key")
  case (Inl e)
  then show ?thesis by (auto simp: authenticate_def Let_def split: option.split)
next
  case (Inr b)
  then have "key \<noteq> PNone" by (auto simp: secret_bytes.simps)
  then have "authenticate sha256 records key =
      (case match_digest (sha256 b) records None of
         Some (tid, enabled) \<Rightarrow> if enabled then Inr tid else Inl AuthenticationError
       | None \<Rightarrow> Inl AuthenticationError)"
    using Inr by (simp add: authenticate_def split: option.split)
  also have "\<dots> = Inr t \<longleftrightarrow> match_digest (sha256 b) records None = Some (t, True)"
    by (auto split: option.split)
  finally show ?thesis using Inr by (simp add: match_digest_iff [OF assms])
qed

lemma authenticate_result:
  "authenticate sha256 records key = Inl AuthenticationError
   \<or> (\<exists>t. authenticate sha256 records key = Inr t)"
  by (simp add: authenticate_def Let_def split: prod.split option.split)

text \<open>
  C16: The authenticator built from a tenant list accepts a credential as tenant \<open>t\<close>
  exactly when the credential is a well-formed secret whose SHA-256 digest is the one
  configured for an enabled tenant named \<open>t\<close>; every other credential (missing,
  malformed, unknown or disabled) fails with the same \<open>AuthenticationError\<close>.
\<close>

theorem authenticate_correct:
  assumes "make_authenticator tenants = Inr records"
  shows "(authenticate sha256 records key = Inr t \<longleftrightarrow>
           (\<exists>b c. secret_bytes key = Inr b \<and> c \<in> set tenants \<and> tc_enabled c \<and> tc_tenant_id c = t
              \<and> parse_api_key_hash (PStr (tc_api_key_hash c)) = Inr (sha256 b)))
         \<and> (authenticate sha256 records key = Inl AuthenticationError
            \<or> (\<exists>t. authenticate sha256 records key = Inr t))"
proof -
  from assms have recs: "authenticator_records [] [] tenants = Inr records"
    by (auto simp: make_authenticator_def res_bind_Inr_iff)
  then have dist: "distinct (map fst records)"
    using authenticator_records_distinct by blast
  show ?thesis
    using authenticate_result [of sha256 records key]
    by (auto simp: authenticate_iff [OF dist] authenticator_records_iff [OF recs])
qed

text \<open>The digest of a toy instance: the first 32 bytes of the padded input.\<close>

definition toy_digest :: "bytes \<Rightarrow> bytes" where
  "toy_digest b = take 32 (b @ replicate 32 0)"

definition toy_tenant :: tenant_config where
  "toy_tenant = \<lparr>tc_tenant_id = ''acme'',
     tc_api_key_hash = API_KEY_HASH_PREFIX @ bytes_hex (toy_digest (utf8 ''k1'')),
     tc_quota = default_quota_policy, tc_enabled = True\<rparr>"

lemma toy_authenticator:
  "make_authenticator [toy_tenant] = Inr [(toy_digest (utf8 ''k1''), ''acme'', True)]"
  by (simp add: make_authenticator_def toy_tenant_def parse_api_key_hash_hash toy_digest_def)

theorem authenticate_correct_witness:
  "authenticate toy_digest [(toy_digest (utf8 ''k1''), ''acme'', True)] (PStr ''k1'') = Inr ''acme''"
proof -
  have "secret_bytes (PStr ''k1'') = Inr (utf8 ''k1'')"
    by (simp add: secret_bytes.simps MAX_API_KEY_BYTES_def) (simp add: utf8_def utf8_char_def code_def)
  moreover have "parse_api_key_hash (PStr (tc_api_key_hash toy_tenant)) = Inr (toy_digest (utf8 ''k1''))"
    by (simp add: toy_tenant_def parse_api_key_hash_hash toy_digest_def)
  ultimately show ?thesis
    using authenticate_correct [OF toy_authenticator, of toy_digest "PStr ''k1''" "''acme''"]
    by (auto simp: toy_tenant_def)
qed

text \<open>
  Provisioning a tenant from a plaintext key and presenting that key round-trips:
  whenever \<open>from_api_key\<close> succeeds, the stored hash parses back to the digest of the
  key, so an authenticator over that one enabled tenant accepts the key.
\<close>

theorem provision_then_authenticate:
  assumes "\<And>b. length (sha256 b) = 32"
    and "from_api_key sha256 tid key q (PBool True) = Inr c"
  shows "\<exists>records. make_authenticator [c] = Inr records
           \<and> authenticate sha256 records key = Inr (tc_tenant_id c)"
proof -
  from assms(2) obtain b where b: "secret_bytes key = Inr b"
    and c: "tc_api_key_hash c = API_KEY_HASH_PREFIX @ bytes_hex (sha256 b)" "tc_enabled c"
    by (auto simp: from_api_key_def hash_api_key_def make_tenant_config_def res_bind_Inr_iff)
  have parse: "parse_api_key_hash (PStr (tc_api_key_hash c)) = Inr (sha256 b)"
    by (simp add: c parse_api_key_hash_hash assms(1))
  then have make: "make_authenticator [c] = Inr [(sha256 b, tc_tenant_id c, tc_enabled c)]"
    by (simp add: make_authenticator_def)
  have "key \<noteq> PNone" using b by (auto simp: secret_bytes.simps)
  with b c(2) make show ?thesis by (simp add: authenticate_def)
qed

lemma toy_from_api_key:
  "from_api_key toy_digest (PStr ''acme'') (PStr ''k1'') None (PBool True) = Inr toy_tenant"
proof -
  have "secret_bytes (PStr ''k1'') = Inr (utf8 ''k1'')"
    by (simp add: secret_bytes.simps MAX_API_KEY_BYTES_def) (simp add: utf8_def utf8_char_def code_def)
  moreover have "bounded_text (PStr ''acme'') n MAX_TENANT_ID_BYTES = Inr ''acme''" for n
    by (simp add: bounded_text_Inr MAX_TENANT_ID_BYTES_def) (simp add: utf8_def utf8_char_def code_def)
  ultimately show ?thesis
    by (simp add: from_api_key_def hash_api_key_def make_tenant_config_def toy_tenant_def
        parse_api_key_hash_hash toy_digest_def)
qed

theorem provision_then_authenticate_witness:
  "\<exists>records. make_authenticator [toy_tenant] = Inr records
     \<and> authenticate toy_digest records (PStr ''k1'') = Inr ''acme''"
proof -
  have len: "length (toy_digest b) = 32" for b by (simp add: toy_digest_def)
  show ?thesis
    using provision_then_authenticate [OF len toy_from_api_key] by (simp add: toy_tenant_def)
qed

end
