(* ===== verification/Access_Quota.thy ===== *)
theory Access_Quota
  imports Access_Auth
begin

text \<open>
  The token-bucket limiter of \<open>lucent/access.py\<close>: one bucket per configured tenant,
  created full on first use and refilled by elapsed time on every later use. The lock
  makes each \<open>consume\<close> one atomic step, so a history is a sequence of steps.
\<close>

section \<open>State and operations\<close>

record bucket =
  bk_tokens :: rat
  bk_last_refill :: rat

record limiter =
  lim_policies :: "(pystr, quota_policy) odict"
  lim_buckets :: "(pystr, bucket) odict"

record quota_receipt =
  qr_limit :: int
  qr_remaining :: int
  qr_reset_after :: rat

text \<open>The float literal \<open>1e-12\<close> of the comparison.\<close>

definition token_slack :: rat where
  "token_slack = 1 / 10 ^ 12"

fun check_policies :: "(pystr \<times> quota_policy) list \<Rightarrow> py_exn + unit" where
  "check_policies [] = Inr ()"
| "check_policies ((tid, p) # ps) =
     res_bind (bounded_text (PStr tid) ''tenant_id'' MAX_TENANT_ID_BYTES) (\<lambda>_. check_policies ps)"

definition make_limiter :: "(pystr, quota_policy) odict \<Rightarrow> py_exn + limiter" where
  "make_limiter policies =
     (if policies = [] then Inl (ValueError ''at least one quota policy must be configured'')
      else res_bind (check_policies policies)
        (\<lambda>_. Inr \<lparr>lim_policies = policies, lim_buckets = []\<rparr>))"

text \<open>Creating a tenant's bucket, or refilling it up to its capacity.\<close>

definition refill :: "quota_policy \<Rightarrow> rat \<Rightarrow> bucket option \<Rightarrow> bucket" where
  "refill p now b =
     (case b of
        None \<Rightarrow> \<lparr>bk_tokens = of_int (qp_capacity p), bk_last_refill = now\<rparr>
      | Some b \<Rightarrow>
          let elapsed = max 0 (now - bk_last_refill b) in
          \<lparr>bk_tokens = min (of_int (qp_capacity p)) (bk_tokens b + elapsed * qp_refill p),
           bk_last_refill = max (bk_last_refill b) now\<rparr>)"

text \<open>The charge against a refilled bucket.\<close>

definition charge ::
  "quota_policy \<Rightarrow> rat \<Rightarrow> bucket \<Rightarrow> (access_error + quota_receipt) \<times> bucket" where
  "charge p cost b =
     (if bk_tokens b + token_slack < cost then
        (Inl (QuotaExceededError (qp_capacity p) (max 0 \<lfloor>bk_tokens b\<rfloor>)
           ((cost - bk_tokens b) / qp_refill p)), b)
      else
        let t = max 0 (bk_tokens b - cost) in
        (Inr \<lparr>qr_limit = qp_capacity p, qr_remaining = max 0 \<lfloor>t + token_slack\<rfloor>,
           qr_reset_after = (of_int (qp_capacity p) - t) / qp_refill p\<rparr>,
         b\<lparr>bk_tokens := t\<rparr>))"

definition consume ::
  "pyval \<Rightarrow> pystr \<Rightarrow> pyval \<Rightarrow> (limiter, access_failure, quota_receipt) st" where
  "consume clk tenant_id cost l =
     (case map_of (lim_policies l) tenant_id of
        None \<Rightarrow> (Inl (Py (ValueError ''tenant has no configured quota policy'')), l)
      | Some p \<Rightarrow>
          (case positive_finite cost ''cost'' of
             Inl e \<Rightarrow> (Inl (Py e), l)
           | Inr c \<Rightarrow>
               if of_int (qp_capacity p) < c
               then (Inl (Py (ValueError ''cost may not exceed tenant quota capacity'')), l)
               else
                 (case now_of clk of
                    Inl e \<Rightarrow> (Inl (Py e), l)
                  | Inr now \<Rightarrow>
                      let (r, b) =
                        charge p c (refill p now (map_of (lim_buckets l) tenant_id))
                      in (case r of Inl e \<Rightarrow> Inl (Access e) | Inr q \<Rightarrow> Inr q,
                          l\<lparr>lim_buckets := AList.update tenant_id b (lim_buckets l)\<rparr>))))"

section \<open>Invariant\<close>

definition policy_ok :: "quota_policy \<Rightarrow> bool" where
  "policy_ok p \<longleftrightarrow> 1 \<le> qp_capacity p \<and> 0 < qp_refill p"

definition bucket_ok :: "quota_policy \<Rightarrow> bucket \<Rightarrow> bool" where
  "bucket_ok p b \<longleftrightarrow> 0 \<le> bk_tokens b \<and> bk_tokens b \<le> of_int (qp_capacity p)"

definition limiter_inv :: "limiter \<Rightarrow> bool" where
  "limiter_inv l \<longleftrightarrow>
     (\<forall>t p. map_of (lim_policies l) t = Some p \<longrightarrow> policy_ok p) \<and>
     (\<forall>t b. map_of (lim_buckets l) t = Some b \<longrightarrow>
        (\<exists>p. map_of (lim_policies l) t = Some p \<and> bucket_ok p b))"

lemma refill_ok: "policy_ok p \<Longrightarrow> (\<And>b. ob = Some b \<Longrightarrow> bucket_ok p b) \<Longrightarrow> bucket_ok p (refill p now ob)"
  by (cases ob) (auto simp: refill_def bucket_ok_def policy_ok_def Let_def)

lemma charge_ok: "bucket_ok p b \<Longrightarrow> 0 < c \<Longrightarrow> bucket_ok p (snd (charge p c b))"
  by (auto simp: charge_def bucket_ok_def Let_def)

lemma consume_policies [simp]: "lim_policies (snd (consume clk t c l)) = lim_policies l"
  by (auto simp: consume_def Let_def split: option.split sum.split prod.split)

text \<open>Every operation that changes the limiter stores a charged bucket of its tenant.\<close>

lemma consume_cases:
  obtains (unchanged) e where "consume clk t c l = (Inl (Py e), l)"
  | (charged) p q now r b where "map_of (lim_policies l) t = Some p" "0 < q" "q \<le> of_int (qp_capacity p)"
      "positive_finite c ''cost'' = Inr q" "now_of clk = Inr now"
      "charge p q (refill p now (map_of (lim_buckets l) t)) = (r, b)"
      "consume clk t c l = (case r of Inl e \<Rightarrow> Inl (Access e) | Inr x \<Rightarrow> Inr x,
         l\<lparr>lim_buckets := AList.update t b (lim_buckets l)\<rparr>)"
proof (cases "map_of (lim_policies l) t")
  case None
  then show ?thesis using unchanged by (simp add: consume_def)
next
  case p: (Some p)
  show ?thesis
  proof (cases "positive_finite c ''cost''")
    case (Inl e)
    then show ?thesis using p unchanged by (simp add: consume_def)
  next
    case q: (Inr q)
    show ?thesis
    proof (cases "q \<le> of_int (qp_capacity p)")
      case False
      then show ?thesis using p q unchanged by (simp add: consume_def)
    next
      case le: True
      show ?thesis
      proof (cases "now_of clk")
        case (Inl e)
        then show ?thesis using p q le unchanged by (simp add: consume_def)
      next
        case now: (Inr now)
        obtain r b where rb: "charge p q (refill p now (map_of (lim_buckets l) t)) = (r, b)"
          by (cases "charge p q (refill p now (map_of (lim_buckets l) t))")
        have "consume clk t c l = (case r of Inl e \<Rightarrow> Inl (Access e) | Inr x \<Rightarrow> Inr x,
            l\<lparr>lim_buckets := AList.update t b (lim_buckets l)\<rparr>)"
          using p q le now rb by (simp add: consume_def)
        then show ?thesis
          using charged [OF p _ le q now rb] positive_finite_pos [OF q] by blast
      qed
    qed
  qed
qed

lemma consume_inv: "limiter_inv l \<Longrightarrow> limiter_inv (snd (consume clk t c l))"
proof (cases rule: consume_cases [of clk t c l])
  case (unchanged e)
  assume "limiter_inv l"
  with unchanged show ?thesis by simp
next
  case (charged p q now r b)
  assume inv: "limiter_inv l"
  then have "policy_ok p" using charged(1) by (simp add: limiter_inv_def)
  moreover have "bucket_ok p b'" if "map_of (lim_buckets l) t = Some b'" for b'
    using inv charged(1) that by (fastforce simp: limiter_inv_def)
  ultimately have "bucket_ok p (refill p now (map_of (lim_buckets l) t))"
    by (rule refill_ok)
  from charge_ok [OF this charged(2)] have "bucket_ok p b" by (simp add: charged(6))
  with inv charged(1) show ?thesis by (auto simp: charged(7) limiter_inv_def)
qed

text \<open>A run of the limiter: one atomic \<open>consume\<close> after another, arbitrary arguments.\<close>

fun run_consumes :: "(pyval \<times> pystr \<times> pyval) list \<Rightarrow> limiter \<Rightarrow> limiter" where
  "run_consumes [] l = l"
| "run_consumes ((clk, t, c) # rqs) l = run_consumes rqs (snd (consume clk t c l))"

lemma run_consumes_inv: "limiter_inv l \<Longrightarrow> limiter_inv (run_consumes rqs l)"
  by (induction rqs l rule: run_consumes.induct) (auto intro: consume_inv)

lemma run_consumes_policies [simp]: "lim_policies (run_consumes rqs l) = lim_policies l"
  by (induction rqs l rule: run_consumes.induct) simp_all

lemma make_limiter_inv:
  "make_limiter ps = Inr l \<Longrightarrow> (\<And>t p. (t, p) \<in> set ps \<Longrightarrow> policy_ok p) \<Longrightarrow> limiter_inv l"
  by (auto simp: make_limiter_def limiter_inv_def res_bind_Inr_iff split: if_splits
      dest: map_of_SomeD)

lemma make_limiter_policies:
  "make_limiter ps = Inr l \<Longrightarrow> lim_policies l = ps \<and> lim_buckets l = []"
  by (auto simp: make_limiter_def res_bind_Inr_iff split: if_splits)

text \<open>
  Start a limiter from policies that \<open>QuotaPolicy\<close> accepted and run any sequence of
  \<open>consume\<close> calls, whatever the clock returns and whether they succeed or raise: every
  bucket then belongs to a configured tenant and holds between 0 tokens and that
  tenant's capacity, and the policies are unchanged.
\<close>

theorem limiter_invariant:
  assumes "make_limiter ps = Inr l"
    and "\<And>t p. (t, p) \<in> set ps \<Longrightarrow> \<exists>c r. make_quota_policy c r = Inr p"
    and "map_of (lim_buckets (run_consumes rqs l)) t = Some b"
  shows "\<exists>p. map_of ps t = Some p \<and> 0 \<le> bk_tokens b \<and> bk_tokens b \<le> of_int (qp_capacity p)"
proof -
  have "policy_ok p" if "(t, p) \<in> set ps" for t p
    using assms(2) [OF that] make_quota_policy_bounds by (fastforce simp: policy_ok_def)
  then have "limiter_inv (run_consumes rqs l)"
    by (intro run_consumes_inv make_limiter_inv [OF assms(1)])
  with assms(3) make_limiter_policies [OF assms(1)] show ?thesis
    by (fastforce simp: limiter_inv_def bucket_ok_def)
qed

lemma toy_policy: "make_quota_policy (PInt 2) (PInt 1) = Inr \<lparr>qp_capacity = 2, qp_refill = 1\<rparr>"
  by (simp add: make_quota_policy_def positive_int_def positive_finite_def float_overflow_def
      MAX_QUOTA_CAPACITY_def MAX_QUOTA_REFILL_TOKENS_PER_SECOND_def)

definition toy_policies :: "(pystr, quota_policy) odict" where
  "toy_policies = [(''t'', \<lparr>qp_capacity = 2, qp_refill = 1\<rparr>)]"

definition toy_limiter :: limiter where
  "toy_limiter = \<lparr>lim_policies = toy_policies, lim_buckets = []\<rparr>"

lemma toy_make_limiter: "make_limiter toy_policies = Inr toy_limiter"
proof -
  have "utf8 ''t'' = [116]" by (simp add: utf8_def utf8_char_def code_def)
  then show ?thesis
    by (simp add: make_limiter_def toy_policies_def toy_limiter_def bounded_text_def
        MAX_TENANT_ID_BYTES_def)
qed

definition toy_rqs :: "(pyval \<times> pystr \<times> pyval) list" where
  "toy_rqs = [(PInt 5, ''t'', PInt 1)]"

lemma toy_run: "map_of (lim_buckets (run_consumes toy_rqs toy_limiter)) ''t''
    = Some \<lparr>bk_tokens = 1, bk_last_refill = 5\<rparr>"
  by (simp add: toy_rqs_def toy_limiter_def toy_policies_def consume_def positive_finite_def
      float_overflow_def now_of_def refill_def charge_def token_slack_def)

theorem limiter_invariant_witness:
  "\<exists>p. map_of toy_policies ''t'' = Some p \<and> 0 \<le> (1::rat) \<and> 1 \<le> (of_int (qp_capacity p) :: rat)"
proof -
  have "\<exists>c r. make_quota_policy c r = Inr p" if "(t, p) \<in> set toy_policies" for t p
    using that toy_policy by (auto simp: toy_policies_def)
  from limiter_invariant [OF toy_make_limiter this toy_run] show ?thesis by simp
qed

section \<open>The rate bound\<close>

text \<open>What the bucket holds plus what it can still gain until \<open>stop\<close>.\<close>

definition potential :: "quota_policy \<Rightarrow> rat \<Rightarrow> bucket \<Rightarrow> rat" where
  "potential p stop b = bk_tokens b + qp_refill p * (stop - bk_last_refill b)"

lemma refill_potential:
  assumes "policy_ok p" "now \<le> stop"
  shows "potential p stop (refill p now (Some b)) \<le> potential p stop b"
proof -
  let ?d = "max 0 (now - bk_last_refill b)"
  have d: "max (bk_last_refill b) now = bk_last_refill b + ?d" by simp
  have "min (of_int (qp_capacity p)) (bk_tokens b + ?d * qp_refill p)
      \<le> bk_tokens b + ?d * qp_refill p" by (rule min.cobounded2)
  then show ?thesis
    by (simp only: potential_def refill_def Let_def d option.case bucket.simps)
      (simp add: algebra_simps)
qed

lemma charge_potential:
  assumes "charge p c b = (Inr q, b')"
  shows "potential p stop b' \<le> potential p stop b - (c - token_slack)"
  using assms
  by (auto simp: charge_def potential_def Let_def token_slack_def max_def split: if_splits)

lemma charge_rejected: "charge p c b = (Inl e, b') \<Longrightarrow> b' = b"
  by (auto simp: charge_def Let_def split: if_splits)

text \<open>A history: clock reading, tenant and cost of each request, in order.\<close>

type_synonym request = "rat \<times> pystr \<times> rat"

definition step_consume :: "request \<Rightarrow> (limiter, access_failure, quota_receipt) st" where
  "step_consume rq =
     (case rq of (clk, t, c) \<Rightarrow> consume (PFloat (Finite clk)) t (PFloat (Finite c)))"

fun charged :: "pystr \<Rightarrow> request list \<Rightarrow> limiter \<Rightarrow> rat" where
  "charged t [] l = 0"
| "charged t (rq # rqs) l =
     (case step_consume rq l of (r, l') \<Rightarrow>
        (if fst (snd rq) = t \<and> isl r = False then snd (snd rq) else 0) + charged t rqs l')"

text \<open>The potential of a tenant that may not have a bucket yet.\<close>

definition tenant_potential :: "quota_policy \<Rightarrow> rat \<Rightarrow> rat \<Rightarrow> bucket option \<Rightarrow> rat" where
  "tenant_potential p start stop ob =
     (case ob of None \<Rightarrow> of_int (qp_capacity p) + qp_refill p * (stop - start)
      | Some b \<Rightarrow> potential p stop b)"

lemma refill_tenant_potential:
  assumes "policy_ok p" "start \<le> now" "now \<le> stop"
  shows "potential p stop (refill p now ob) \<le> tenant_potential p start stop ob"
proof (cases ob)
  case None
  have "qp_refill p * (stop - now) \<le> qp_refill p * (stop - start)"
    using assms by (intro mult_left_mono) (auto simp: policy_ok_def)
  then show ?thesis using None by (simp add: refill_def potential_def tenant_potential_def)
next
  case (Some b)
  then show ?thesis using refill_potential assms by (simp add: tenant_potential_def)
qed

lemma step_potential:
  assumes "limiter_inv l" "map_of (lim_policies l) t = Some p" "start \<le> clk" "clk \<le> stop"
    and step: "step_consume (clk, u, c) l = (r, l')"
  shows "(if u = t \<and> isl r = False then c else 0)
           + tenant_potential p start stop (map_of (lim_buckets l') t)
         \<le> tenant_potential p start stop (map_of (lim_buckets l) t)
           + (if u = t \<and> isl r = False then token_slack else 0)"
proof (cases rule: consume_cases [of "PFloat (Finite clk)" u "PFloat (Finite c)" l])
  case (unchanged e)
  with step show ?thesis by (auto simp: step_consume_def)
next
  case (charged p' q now r' b)
  have q: "q = c" and now: "now = clk"
    using charged(4,5) by (auto simp: positive_finite_def now_of_def split: if_splits)
  have l': "l' = l\<lparr>lim_buckets := AList.update u b (lim_buckets l)\<rparr>"
    and r: "r = (case r' of Inl e \<Rightarrow> Inl (Access e) | Inr x \<Rightarrow> Inr x)"
    using step charged(7) by (auto simp: step_consume_def)
  show ?thesis
  proof (cases "u = t")
    case False
    then show ?thesis by (simp add: l')
  next
    case True
    with assms(2) charged(1) have p': "p' = p" by simp
    have ok: "policy_ok p" using assms(1,2) by (simp add: limiter_inv_def)
    have R: "potential p stop (refill p clk (map_of (lim_buckets l) t))
        \<le> tenant_potential p start stop (map_of (lim_buckets l) t)"
      using refill_tenant_potential [OF ok assms(3,4)] .
    show ?thesis
    proof (cases r')
      case (Inl e)
      with charged(6) have "b = refill p clk (map_of (lim_buckets l) t)"
        using charge_rejected by (simp add: p' q now True)
      with Inl R show ?thesis by (simp add: l' r True tenant_potential_def)
    next
      case (Inr x)
      from charged(6) have "potential p stop b
          \<le> potential p stop (refill p clk (map_of (lim_buckets l) t)) - (c - token_slack)"
        by (intro charge_potential [where q = x]) (simp add: p' q now True Inr)
      with Inr R show ?thesis by (simp add: l' r True tenant_potential_def)
    qed
  qed
qed

lemma tenant_potential_nonneg:
  assumes "limiter_inv l" "map_of (lim_policies l) t = Some p" "start \<le> stop"
    and "\<And>b. map_of (lim_buckets l) t = Some b \<Longrightarrow> bk_last_refill b \<le> stop"
  shows "0 \<le> tenant_potential p start stop (map_of (lim_buckets l) t)"
proof -
  from assms(1,2) have ok: "policy_ok p" by (simp add: limiter_inv_def)
  show ?thesis
  proof (cases "map_of (lim_buckets l) t")
    case None
    with ok assms(3) show ?thesis by (simp add: tenant_potential_def policy_ok_def)
  next
    case (Some b)
    with assms(1,2) have "bucket_ok p b" by (fastforce simp: limiter_inv_def)
    with ok assms(4) [OF Some] Some show ?thesis
      by (simp add: tenant_potential_def potential_def bucket_ok_def policy_ok_def)
  qed
qed

lemma step_last_refill:
  assumes "\<And>b. map_of (lim_buckets l) t = Some b \<Longrightarrow> bk_last_refill b \<le> stop" "clk \<le> stop"
    and "step_consume (clk, u, c) l = (r, l')" "map_of (lim_buckets l') t = Some b"
  shows "bk_last_refill b \<le> stop"
proof (cases rule: consume_cases [of "PFloat (Finite clk)" u "PFloat (Finite c)" l])
  case (unchanged e)
  with assms show ?thesis by (auto simp: step_consume_def)
next
  case (charged p q now r' b')
  have "bk_last_refill b' = bk_last_refill (refill p now (map_of (lim_buckets l) u))"
    using charged(6) by (auto simp: charge_def Let_def split: if_splits)
  moreover have "now = clk" using charged(5) by (simp add: now_of_def)
  ultimately show ?thesis
    using assms charged(7)
    by (auto simp: step_consume_def refill_def Let_def split: option.splits if_splits)
qed

lemma charged_bound:
  assumes "limiter_inv l" "map_of (lim_policies l) t = Some p" "start \<le> stop"
    and "\<And>b. map_of (lim_buckets l) t = Some b \<Longrightarrow> bk_last_refill b \<le> stop"
    and "list_all (\<lambda>rq. start \<le> fst rq \<and> fst rq \<le> stop) rqs"
  shows "charged t rqs l
    \<le> tenant_potential p start stop (map_of (lim_buckets l) t) + of_nat (length rqs) * token_slack"
  using assms
proof (induction rqs arbitrary: l)
  case Nil
  then show ?case using tenant_potential_nonneg [of l t p start stop] by simp
next
  case (Cons rq rqs)
  obtain clk u c where rq: "rq = (clk, u, c)" by (cases rq)
  obtain r l' where step: "step_consume rq l = (r, l')" by (cases "step_consume rq l")
  have l': "l' = snd (consume (PFloat (Finite clk)) u (PFloat (Finite c)) l)"
    using step by (simp add: step_consume_def rq)
  have "charged t rqs l' \<le> tenant_potential p start stop (map_of (lim_buckets l') t)
      + of_nat (length rqs) * token_slack"
  proof (rule Cons.IH)
    show "limiter_inv l'" by (simp add: l' consume_inv Cons.prems(1))
    show "map_of (lim_policies l') t = Some p" by (simp add: l' Cons.prems(2))
    show "bk_last_refill b \<le> stop" if "map_of (lim_buckets l') t = Some b" for b
      using step_last_refill [OF Cons.prems(4) _ step [unfolded rq] that] Cons.prems(5)
      by (simp add: rq)
  qed (use Cons.prems in simp_all)
  moreover have "(if u = t \<and> isl r = False then c else 0)
           + tenant_potential p start stop (map_of (lim_buckets l') t)
         \<le> tenant_potential p start stop (map_of (lim_buckets l) t)
           + (if u = t \<and> isl r = False then token_slack else 0)"
    using step_potential [OF Cons.prems(1,2) _ _ step [unfolded rq]] Cons.prems(5)
    by (simp add: rq)
  moreover have "0 \<le> token_slack" by (simp add: token_slack_def)
  moreover have "charged t (rq # rqs) l
      = (if u = t \<and> isl r = False then c else 0) + charged t rqs l'"
    by (simp add: step) (simp add: rq)
  ultimately show ?case
    by (cases "u = t"; cases "isl r") (simp_all add: algebra_simps del: charged.simps)
qed



section \<open>Rejections\<close>



end
