(* ===== verification/Access_Response.thy ===== *)
theory Access_Response
  imports Access_Errors
begin

text \<open>
  \<open>IdempotencyResponse\<close> of \<open>lucent/access.py\<close>: the immutable response a store retains
  for replay, its validation and its size in encoded bytes.
\<close>

record idem_response =
  ir_status :: int
  ir_body :: bytes
  ir_headers :: "(pystr \<times> pystr) list"

text \<open>\<open>_HEADER_NAME_RE\<close>: one or more HTTP token characters.\<close>

definition is_token_char :: "char \<Rightarrow> bool" where
  "is_token_char c \<longleftrightarrow> is_digit c \<or> is_letter c \<or>
     code c \<in> set [33, 35, 36, 37, 38, 39, 42, 43, 45, 46, 94, 95, 96, 124, 126]"

definition matches_HEADER_NAME_RE :: "pystr \<Rightarrow> bool" where
  "matches_HEADER_NAME_RE s \<longleftrightarrow> s \<noteq> [] \<and> list_all is_token_char s"

text \<open>One pass of the header loop: each check in the order the code makes it.\<close>

definition check_header :: "pyval \<Rightarrow> py_exn + pystr \<times> pystr" where
  "check_header h =
     (case (case h of PTuple xs \<Rightarrow> xs | PList xs \<Rightarrow> xs | _ \<Rightarrow> []) of
        [name, val] \<Rightarrow>
          (case name of
             PStr n \<Rightarrow>
               if \<not> matches_HEADER_NAME_RE n
               then Inl (ValueError ''header names must be valid HTTP tokens'')
               else
                 (case val of
                    PStr v \<Rightarrow>
                      if list_ex (\<lambda>c. code c = 13 \<or> code c = 10) v
                      then Inl (ValueError ''header values may not contain newlines'')
                      else if MAX_HEADER_LINE_BYTES < length n + length (utf8 v)
                      then Inl (ValueError ''cached header lines may not exceed 8192 bytes'')
                      else Inr (n, v)
                  | _ \<Rightarrow> Inl (TypeError ''header values must be text''))
           | _ \<Rightarrow> Inl (ValueError ''header names must be valid HTTP tokens''))
      | _ \<Rightarrow> Inl (TypeError ''headers must contain name/value pairs''))"

definition make_response :: "pyval \<Rightarrow> pyval \<Rightarrow> pyval \<Rightarrow> py_exn + idem_response" where
  "make_response status body headers =
     (case status of
        PInt st \<Rightarrow>
          if \<not> (100 \<le> st \<and> st \<le> 599)
          then Inl (ValueError ''status_code must be between 100 and 599'')
          else
            (case body of
               PBytes b \<Rightarrow>
                 (case (case headers of PTuple xs \<Rightarrow> Some xs | PList xs \<Rightarrow> Some xs | _ \<Rightarrow> None) of
                    None \<Rightarrow> Inl (TypeError ''headers must be a sequence of name/value pairs'')
                  | Some hs \<Rightarrow>
                      if MAX_CACHED_HEADERS < length hs
                      then Inl (ValueError ''headers may not exceed 64 entries'')
                      else res_bind (res_map check_header hs)
                        (\<lambda>nhs. Inr \<lparr>ir_status = st, ir_body = b, ir_headers = nhs\<rparr>))
             | _ \<Rightarrow> Inl (TypeError ''body must be bytes-like''))
      | _ \<Rightarrow> Inl (TypeError ''status_code must be an integer''))"

text \<open>
  \<open>from_parts\<close>: no headers, a mapping's items, or the sequence as a tuple. Its callers
  pass bytes and one of these three.
\<close>

definition from_parts :: "int \<Rightarrow> bytes \<Rightarrow> pyval \<Rightarrow> py_exn + idem_response" where
  "from_parts status body headers =
     make_response (PInt status) (PBytes body)
       (case headers of
          PNone \<Rightarrow> PTuple []
        | PDict kvs \<Rightarrow> PTuple (map (\<lambda>kv. PTuple [PStr (fst kv), snd kv]) kvs)
        | PList xs \<Rightarrow> PTuple xs
        | v \<Rightarrow> v)"

definition size_bytes :: "idem_response \<Rightarrow> int" where
  "size_bytes r =
     int (length (ir_body r))
     + sum_list (map (\<lambda>nv. int (length (fst nv)) + int (length (utf8 (snd nv)))) (ir_headers r))"

lemma size_bytes_nonneg [simp]: "0 \<le> size_bytes r"
  by (auto simp: size_bytes_def intro!: add_nonneg_nonneg sum_list_nonneg)

lemma check_header_line:
  "check_header h = Inr (n, v) \<Longrightarrow>
     matches_HEADER_NAME_RE n \<and> \<not> list_ex (\<lambda>c. code c = 13 \<or> code c = 10) v
     \<and> length n + length (utf8 v) \<le> MAX_HEADER_LINE_BYTES"
  by (auto simp: check_header_def split: list.splits pyval.splits if_splits)

lemma sum_list_bound:
  "(\<And>x. x \<in> set xs \<Longrightarrow> f x \<le> (m :: int)) \<Longrightarrow> sum_list (map f xs) \<le> int (length xs) * m"
proof (induction xs)
  case Nil
  then show ?case by simp
next
  case (Cons x xs)
  then have "f x \<le> m" and "sum_list (map f xs) \<le> int (length xs) * m" by auto
  then show ?case by (simp add: algebra_simps)
qed

lemma make_response_Inr:
  assumes "make_response s b h = Inr r"
  shows "100 \<le> ir_status r \<and> ir_status r \<le> 599 \<and> length (ir_headers r) \<le> MAX_CACHED_HEADERS
    \<and> (\<forall>nv\<in>set (ir_headers r). \<exists>x. check_header x = Inr nv) \<and> b = PBytes (ir_body r)"
  using assms
  by (auto simp: make_response_def res_bind_Inr_iff split: pyval.splits if_splits
      dest: res_map_Inr_length res_map_Inr_set)

text \<open>
  A response that passes validation has a status between 100 and 599, no header
  that can split a response (every name an HTTP token, no value with a carriage return
  or line feed), and its accounted size exceeds its body by at most 64 header lines of
  8192 bytes.
\<close>

theorem make_response_bounds:
  assumes "make_response s b h = Inr r"
  shows "100 \<le> ir_status r \<and> ir_status r \<le> 599
    \<and> list_all (\<lambda>nv. matches_HEADER_NAME_RE (fst nv)
         \<and> \<not> list_ex (\<lambda>c. code c = 13 \<or> code c = 10) (snd nv)) (ir_headers r)
    \<and> int (length (ir_body r)) \<le> size_bytes r
    \<and> size_bytes r \<le> int (length (ir_body r)) + 64 * 8192"
proof -
  note r = make_response_Inr [OF assms]
  let ?w = "\<lambda>nv :: pystr \<times> pystr. int (length (fst nv)) + int (length (utf8 (snd nv)))"
  have line: "matches_HEADER_NAME_RE (fst nv) \<and> \<not> list_ex (\<lambda>c. code c = 13 \<or> code c = 10) (snd nv)
      \<and> ?w nv \<le> 8192" if "nv \<in> set (ir_headers r)" for nv
    using r that check_header_line [of _ "fst nv" "snd nv"]
    by (fastforce simp: MAX_HEADER_LINE_BYTES_def)
  then have "sum_list (map ?w (ir_headers r)) \<le> int (length (ir_headers r)) * 8192"
    by (intro sum_list_bound) auto
  moreover have "int (length (ir_headers r)) \<le> 64" using r by (simp add: MAX_CACHED_HEADERS_def)
  moreover have "0 \<le> sum_list (map ?w (ir_headers r))" by (rule sum_list_nonneg) auto
  ultimately show ?thesis using r line by (auto simp: size_bytes_def list_all_iff)
qed

definition toy_response :: idem_response where
  "toy_response = \<lparr>ir_status = 200, ir_body = [123, 125], ir_headers = [(''A'', ''b'')]\<rparr>"

lemma toy_make_response:
  "make_response (PInt 200) (PBytes [123, 125]) (PList [PTuple [PStr ''A'', PStr ''b'']])
   = Inr toy_response"
  by (simp add: make_response_def check_header_def toy_response_def MAX_CACHED_HEADERS_def
      MAX_HEADER_LINE_BYTES_def matches_HEADER_NAME_RE_def is_token_char_def is_letter_def
      in_range_def code_def utf8_def utf8_char_def)

theorem make_response_bounds_witness:
  "size_bytes toy_response = 4 \<and> size_bytes toy_response \<le> 2 + 64 * 8192"
  using make_response_bounds [OF toy_make_response]
  by (simp add: toy_response_def size_bytes_def utf8_def utf8_char_def code_def)

end
