(* ===== verification/Access_Idempotency.thy ===== *)
theory Access_Idempotency
  imports Access_Response
begin

text \<open>
  \<open>IdempotencyStore\<close> of \<open>lucent/access.py\<close>: a TTL/LRU store of reservations and
  completed responses, bounded in entries and bytes. The re-entrant lock makes every
  public operation one atomic step; an operation that raises keeps the changes it had
  made (expired entries stay removed). The first part is the code: \<open>_remove\<close>,
  \<open>_expire\<close>, \<open>_make_room\<close>, \<open>_make_response_room\<close>, \<open>reserve\<close>, \<open>commit\<close>, \<open>abort\<close>.
\<close>

section \<open>State\<close>

datatype entry_state = RESERVED | COMPLETE

record idem_entry =
  ie_fingerprint :: pystr
  ie_token :: pystr
  ie_state :: entry_state
  ie_expires_at :: rat
  ie_response :: "idem_response option"
  ie_reserved_bytes :: int

type_synonym cache_key = "pystr \<times> bytes"

record idem_store =
  is_ttl :: rat
  is_reservation_ttl :: rat
  is_max_entries :: int
  is_max_response_bytes :: int
  is_max_total_response_bytes :: int
  is_evict_completed :: bool
  is_entries :: "(cache_key, idem_entry) odict"
  is_cached_bytes :: int
  is_reserved_bytes :: int

record idem_reservation =
  rv_tenant_id :: pystr
  rv_expires_at :: rat
  rv_key_digest :: bytes
  rv_fingerprint :: pystr
  rv_token :: pystr

datatype idem_decision = Reserved idem_reservation | Replay idem_response

text \<open>The checks of \<open>__init__\<close>; \<open>evict_completed_entries\<close> is a boolean.\<close>

definition make_store ::
  "pyval \<Rightarrow> pyval \<Rightarrow> pyval \<Rightarrow> pyval \<Rightarrow> pyval \<Rightarrow> pyval \<Rightarrow> py_exn + idem_store" where
  "make_store ttl reservation_ttl max_entries max_response_bytes max_total evict =
     res_bind (positive_finite ttl ''ttl_seconds'')
     (\<lambda>t. res_bind (positive_finite reservation_ttl ''reservation_ttl_seconds'')
     (\<lambda>rt. res_bind (positive_int max_entries ''max_entries'')
     (\<lambda>me. res_bind (positive_int max_response_bytes ''max_response_bytes'')
     (\<lambda>mr. res_bind (positive_int max_total ''max_total_response_bytes'')
     (\<lambda>mt. res_bind
       (guard (mr \<le> mt)
         (ValueError ''max_total_response_bytes may not be less than max_response_bytes''))
     (\<lambda>_. case evict of
        PBool ev \<Rightarrow>
          Inr \<lparr>is_ttl = t, is_reservation_ttl = rt, is_max_entries = me,
               is_max_response_bytes = mr, is_max_total_response_bytes = mt,
               is_evict_completed = ev, is_entries = [], is_cached_bytes = 0,
               is_reserved_bytes = 0\<rparr>
      | _ \<Rightarrow> Inl (TypeError ''evict_completed_entries must be a boolean'')))))))"

section \<open>Private operations\<close>

type_synonym 'a store_op = "(idem_store, access_failure, 'a) st"

text \<open>\<open>_remove\<close>, with its two accounting checks.\<close>

definition remove :: "cache_key \<Rightarrow> unit store_op" where
  "remove key s =
     (case map_of (is_entries s) key of
        None \<Rightarrow> (Inl (Py (KeyError ''key'')), s)
      | Some e \<Rightarrow>
          let s1 = s\<lparr>is_entries := AList.delete key (is_entries s),
                     is_reserved_bytes := is_reserved_bytes s - ie_reserved_bytes e\<rparr>
          in if is_reserved_bytes s1 < 0
             then (Inl (Py (RuntimeError
                    ''idempotency response reservation accounting underflow'')), s1)
             else
               (case ie_response e of
                  None \<Rightarrow> (Inr (), s1)
                | Some r \<Rightarrow>
                    let s2 = s1\<lparr>is_cached_bytes := is_cached_bytes s1 - size_bytes r\<rparr>
                    in if is_cached_bytes s2 < 0
                       then (Inl (Py (RuntimeError
                              ''idempotency response-byte accounting underflow'')), s2)
                       else (Inr (), s2)))"

definition expire :: "rat \<Rightarrow> unit store_op" where
  "expire now s =
     st_for (map fst (filter (\<lambda>ke. ie_expires_at (snd ke) \<le> now) (is_entries s))) remove s"

fun min_list_default :: "rat \<Rightarrow> rat list \<Rightarrow> rat" where
  "min_list_default x [] = x"
| "min_list_default x (y # ys) = foldl min y ys"

definition capacity_error :: "idem_store \<Rightarrow> rat \<Rightarrow> access_failure" where
  "capacity_error s now =
     Access (IdempotencyCapacityError
       (min_list_default (is_reservation_ttl s)
         (map (\<lambda>ke. max 0 (ie_expires_at (snd ke) - now)) (is_entries s))))"

definition oldest_completed_key :: "idem_store \<Rightarrow> cache_key option" where
  "oldest_completed_key s =
     map_option fst (find (\<lambda>ke. ie_state (snd ke) = COMPLETE) (is_entries s))"

definition make_room :: "rat \<Rightarrow> unit store_op" where
  "make_room now s =
     (if int (length (is_entries s)) < is_max_entries s then (Inr (), s)
      else if is_evict_completed s then
        (case oldest_completed_key s of
           Some k \<Rightarrow> remove k s
         | None \<Rightarrow> (Inl (capacity_error s now), s))
      else (Inl (capacity_error s now), s))"

text \<open>
  The loop of \<open>_make_response_room\<close>. Each turn removes an entry, so the number of
  entries bounds the turns: the fuel is that number plus one, and
  \<open>make_response_room_terminates\<close> shows it is enough.
\<close>

fun make_response_room_loop :: "nat \<Rightarrow> int \<Rightarrow> rat \<Rightarrow> idem_store \<Rightarrow> ((access_failure + unit) \<times> idem_store) option" where
  "make_response_room_loop 0 required now s = None"
| "make_response_room_loop (Suc n) required now s =
     (if is_cached_bytes s + required \<le> is_max_total_response_bytes s then Some (Inr (), s)
      else if \<not> is_evict_completed s then Some (Inl (capacity_error s now), s)
      else
        (case oldest_completed_key s of
           None \<Rightarrow> Some (Inl (capacity_error s now), s)
         | Some k \<Rightarrow>
             (case remove k s of
                (Inl e, s1) \<Rightarrow> Some (Inl e, s1)
              | (Inr _, s1) \<Rightarrow> make_response_room_loop n required now s1)))"

definition make_response_room :: "int \<Rightarrow> rat \<Rightarrow> unit store_op" where
  "make_response_room required now s =
     the (make_response_room_loop (Suc (length (is_entries s))) required now s)"

definition owns :: "idem_entry option \<Rightarrow> idem_reservation \<Rightarrow> bool" where
  "owns entry rv \<longleftrightarrow>
     (case entry of
        None \<Rightarrow> False
      | Some e \<Rightarrow> ie_state e = RESERVED \<and> ie_token e = rv_token rv
                 \<and> ie_fingerprint e = rv_fingerprint rv)"

section \<open>Public operations\<close>

text \<open>\<open>with self._lock: now = _now(self._clock); self._expire(now)\<close>, then the body.\<close>

definition locked :: "pyval \<Rightarrow> (rat \<Rightarrow> 'a store_op) \<Rightarrow> 'a store_op" where
  "locked clk body s =
     (case now_of clk of
        Inl e \<Rightarrow> (Inl (Py e), s)
      | Inr now \<Rightarrow> st_bind (expire now) (\<lambda>_. body now) s)"

text \<open>The body of \<open>reserve\<close> under the lock, with the token \<open>secrets\<close> returned.\<close>

definition reserve_body ::
  "pystr \<Rightarrow> pystr \<Rightarrow> bytes \<Rightarrow> pystr \<Rightarrow> rat \<Rightarrow> idem_decision store_op" where
  "reserve_body token tenant digest fingerprint now s =
     (case map_of (is_entries s) (tenant, digest) of
        Some e \<Rightarrow>
          if ie_fingerprint e \<noteq> fingerprint then (Inl (Access IdempotencyConflictError), s)
          else if ie_state e = RESERVED
          then (Inl (Access (IdempotencyInProgressError (max 0 (ie_expires_at e - now)))), s)
          else
            (case ie_response e of
               None \<Rightarrow> (Inl (Access InvalidReservationError), s)
             | Some r \<Rightarrow>
                 (Inr (Replay r),
                  s\<lparr>is_entries := od_move_to_end (tenant, digest) (is_entries s)\<rparr>))
      | None \<Rightarrow>
          st_bind (make_room now) (\<lambda>_ s1.
            let reserved = (if is_evict_completed s1 then 0 else is_max_response_bytes s1) in
            if \<not> is_evict_completed s1
               \<and> is_max_total_response_bytes s1
                 < is_cached_bytes s1 + is_reserved_bytes s1 + reserved
            then (Inl (capacity_error s1 now), s1)
            else
              let expires = now + is_reservation_ttl s1 in
              (Inr (Reserved
                 \<lparr>rv_tenant_id = tenant, rv_expires_at = expires, rv_key_digest = digest,
                  rv_fingerprint = fingerprint, rv_token = token\<rparr>),
               s1\<lparr>is_entries := AList.update (tenant, digest)
                    \<lparr>ie_fingerprint = fingerprint, ie_token = token, ie_state = RESERVED,
                     ie_expires_at = expires, ie_response = None,
                     ie_reserved_bytes = reserved\<rparr> (is_entries s1),
                  is_reserved_bytes := is_reserved_bytes s1 + reserved\<rparr>)) s)"

definition reserve ::
  "(bytes \<Rightarrow> bytes) \<Rightarrow> pyval \<Rightarrow> pystr \<Rightarrow> pyval \<Rightarrow> pyval \<Rightarrow> pyval \<Rightarrow> idem_decision store_op" where
  "reserve sha256 clk token tenant_id key fingerprint s =
     (case res_bind (bounded_text tenant_id ''tenant_id'' MAX_TENANT_ID_BYTES)
         (\<lambda>t. res_bind (bounded_text key ''idempotency key'' MAX_IDEMPOTENCY_KEY_BYTES)
         (\<lambda>k. res_bind (bounded_text fingerprint ''request fingerprint'' MAX_FINGERPRINT_BYTES)
         (\<lambda>f. Inr (t, k, f)))) of
        Inl e \<Rightarrow> (Inl (Access (InvalidIdempotencyInputError (py_exn_text e))), s)
      | Inr (t, k, f) \<Rightarrow> locked clk (reserve_body token t (sha256 (utf8 k)) f) s)"

definition rv_key :: "idem_reservation \<Rightarrow> cache_key" where
  "rv_key rv = (rv_tenant_id rv, rv_key_digest rv)"

text \<open>The body of \<open>commit\<close> under the lock.\<close>

definition commit_body :: "idem_reservation \<Rightarrow> idem_response \<Rightarrow> rat \<Rightarrow> unit store_op" where
  "commit_body rv response now s =
     (case map_of (is_entries s) (rv_key rv) of
        None \<Rightarrow> (Inl (Access InvalidReservationError), s)
      | Some e \<Rightarrow>
          if \<not> owns (Some e) rv then (Inl (Access InvalidReservationError), s)
          else st_bind
            (if is_evict_completed s then make_response_room (size_bytes response) now
             else (\<lambda>s. if is_max_total_response_bytes s
                         < is_cached_bytes s + is_reserved_bytes s - ie_reserved_bytes e
                           + size_bytes response
                       then (Inl (capacity_error s now), s)
                       else (Inr (), s\<lparr>is_reserved_bytes :=
                                        is_reserved_bytes s - ie_reserved_bytes e\<rparr>)))
            (\<lambda>_ s1.
              let e1 = e\<lparr>ie_reserved_bytes :=
                          (if is_evict_completed s1 then ie_reserved_bytes e else 0),
                         ie_state := COMPLETE, ie_response := Some response,
                         ie_expires_at := now + is_ttl s1\<rparr>
              in (Inr (),
                  s1\<lparr>is_entries := od_move_to_end (rv_key rv)
                       (AList.update (rv_key rv) e1 (is_entries s1)),
                     is_cached_bytes := is_cached_bytes s1 + size_bytes response\<rparr>)) s)"

definition commit :: "pyval \<Rightarrow> idem_reservation \<Rightarrow> idem_response \<Rightarrow> unit store_op" where
  "commit clk rv response s =
     (if is_max_response_bytes s < size_bytes response
      then (Inl (Access (IdempotencyResponseTooLargeError (is_max_response_bytes s))), s)
      else locked clk (commit_body rv response) s)"

definition abort_body :: "idem_reservation \<Rightarrow> rat \<Rightarrow> bool store_op" where
  "abort_body rv now s =
     (if \<not> owns (map_of (is_entries s) (rv_key rv)) rv then (Inr False, s)
      else st_bind (remove (rv_key rv)) (\<lambda>_. st_return True) s)"

definition abort :: "pyval \<Rightarrow> idem_reservation \<Rightarrow> bool store_op" where
  "abort clk rv = locked clk (abort_body rv)"

definition store_len :: "pyval \<Rightarrow> nat store_op" where
  "store_len clk = locked clk (\<lambda>now s. (Inr (length (is_entries s)), s))"

definition cached_response_bytes :: "pyval \<Rightarrow> int store_op" where
  "cached_response_bytes clk = locked clk (\<lambda>now s. (Inr (is_cached_bytes s), s))"

end
