(* ===== verification/Idempotency_Facts.thy ===== *)
theory Idempotency_Facts
  imports Access_Idempotency
begin

text \<open>
  The invariant of the idempotency store and what its operations promise. Under the
  invariant the accounting fields are functions of the entries, so every operation is
  described by what it does to the ordered dictionary (\<open>with_entries\<close>); the public
  properties at the end are stated over arbitrary histories of operations.
\<close>

section \<open>Invariant\<close>

definition response_weight :: "idem_entry \<Rightarrow> int" where
  "response_weight e = (case ie_response e of None \<Rightarrow> 0 | Some r \<Rightarrow> size_bytes r)"

definition entry_ok :: "idem_store \<Rightarrow> idem_entry \<Rightarrow> bool" where
  "entry_ok s e \<longleftrightarrow>
     (case ie_state e of
        RESERVED \<Rightarrow> ie_response e = None
          \<and> ie_reserved_bytes e = (if is_evict_completed s then 0 else is_max_response_bytes s)
      | COMPLETE \<Rightarrow> (\<exists>r. ie_response e = Some r \<and> size_bytes r \<le> is_max_response_bytes s)
          \<and> ie_reserved_bytes e = 0)"

definition with_entries :: "idem_store \<Rightarrow> (cache_key, idem_entry) odict \<Rightarrow> idem_store" where
  "with_entries s d = s\<lparr>is_entries := d, is_cached_bytes := od_total response_weight d,
     is_reserved_bytes := od_total ie_reserved_bytes d\<rparr>"

definition config_ok :: "idem_store \<Rightarrow> bool" where
  "config_ok s \<longleftrightarrow> 0 < is_ttl s \<and> 0 < is_reservation_ttl s \<and> 1 \<le> is_max_entries s
     \<and> 1 \<le> is_max_response_bytes s \<and> is_max_response_bytes s \<le> is_max_total_response_bytes s"

definition store_ok :: "idem_store \<Rightarrow> bool" where
  "store_ok s \<longleftrightarrow> config_ok s \<and> od_wf (is_entries s)
     \<and> list_all (\<lambda>ke. entry_ok s (snd ke)) (is_entries s) \<and> s = with_entries s (is_entries s)"

definition store_inv :: "idem_store \<Rightarrow> bool" where
  "store_inv s \<longleftrightarrow> store_ok s \<and> int (length (is_entries s)) \<le> is_max_entries s
     \<and> is_cached_bytes s + is_reserved_bytes s \<le> is_max_total_response_bytes s"

lemma with_entries_simps [simp]:
  "is_ttl (with_entries s d) = is_ttl s"
  "is_reservation_ttl (with_entries s d) = is_reservation_ttl s"
  "is_max_entries (with_entries s d) = is_max_entries s"
  "is_max_response_bytes (with_entries s d) = is_max_response_bytes s"
  "is_max_total_response_bytes (with_entries s d) = is_max_total_response_bytes s"
  "is_evict_completed (with_entries s d) = is_evict_completed s"
  "is_entries (with_entries s d) = d"
  "is_cached_bytes (with_entries s d) = od_total response_weight d"
  "is_reserved_bytes (with_entries s d) = od_total ie_reserved_bytes d"
  "with_entries (with_entries s d) d' = with_entries s d'"
  "config_ok (with_entries s d) = config_ok s"
  "entry_ok (with_entries s d) = entry_ok s"
  by (simp_all add: with_entries_def config_ok_def entry_ok_def fun_eq_iff split: entry_state.split)

lemma store_ok_with_entries [simp]:
  "store_ok (with_entries s d) \<longleftrightarrow> config_ok s \<and> od_wf d \<and> list_all (\<lambda>ke. entry_ok s (snd ke)) d"
  by (simp add: store_ok_def)

lemma store_ok_fields:
  assumes "store_ok s"
  shows "is_cached_bytes s = od_total response_weight (is_entries s)"
    and "is_reserved_bytes s = od_total ie_reserved_bytes (is_entries s)"
    and "with_entries s (is_entries s) = s"
    and "od_wf (is_entries s)" and "config_ok s"
    and "list_all (\<lambda>ke. entry_ok s (snd ke)) (is_entries s)"
proof -
  from assms have eq: "s = with_entries s (is_entries s)" by (simp add: store_ok_def)
  show "is_cached_bytes s = od_total response_weight (is_entries s)"
    by (subst eq) (simp only: with_entries_simps)
  show "is_reserved_bytes s = od_total ie_reserved_bytes (is_entries s)"
    by (subst eq) (simp only: with_entries_simps)
  show "with_entries s (is_entries s) = s" using eq by simp
qed (use assms in \<open>simp_all add: store_ok_def\<close>)

lemma entry_ok_nonneg:
  "config_ok s \<and> entry_ok s e \<Longrightarrow> 0 \<le> ie_reserved_bytes e"
  by (auto simp: entry_ok_def config_ok_def split: entry_state.splits)

interpretation responses: weighed response_weight "\<lambda>_. True"
  by unfold_locales (simp add: response_weight_def split: option.split)

interpretation reservations: weighed ie_reserved_bytes "\<lambda>e. config_ok s \<and> entry_ok s e" for s
  by unfold_locales (rule entry_ok_nonneg)

section \<open>Removing, expiring and evicting\<close>

lemma entries_weighed:
  assumes "store_ok s"
  shows "list_all (\<lambda>ke. config_ok s \<and> entry_ok s (snd ke)) (is_entries s)"
  using store_ok_fields(5,6) [OF assms] by (simp add: list_all_iff)

lemma list_all_True: "list_all (\<lambda>kv. True) d"
  by (simp add: list_all_iff)

lemma remove_present:
  assumes ok: "store_ok s" and k: "map_of (is_entries s) k = Some e"
  shows "remove k s = (Inr (), with_entries s (AList.delete k (is_entries s)))"
proof -
  note f = store_ok_fields [OF ok]
  note res = reservations.delete_no_underflow [OF f(4) entries_weighed [OF ok] k]
  note rsp = responses.delete_no_underflow [OF f(4) list_all_True k]
  show ?thesis
    using k res rsp f(1,2)
    by (auto simp: remove_def Let_def with_entries_def response_weight_def split: option.split)
qed

lemma list_all_delete: "list_all P d \<Longrightarrow> list_all P (AList.delete k d)"
  using set_delete_subset [of k d] by (auto simp: list_all_iff)

lemma list_all_filter: "list_all P d \<Longrightarrow> list_all P (filter Q d)"
  by (auto simp: list_all_iff)

lemma st_for_remove:
  "store_ok s \<Longrightarrow> distinct ks \<Longrightarrow> set ks \<subseteq> fst ` set (is_entries s) \<Longrightarrow>
   st_for ks remove s =
     (Inr (), with_entries s (filter (\<lambda>ke. fst ke \<notin> set ks) (is_entries s)))"
proof (induction ks arbitrary: s)
  case Nil
  then show ?case by (simp add: store_ok_fields)
next
  case (Cons k ks)
  note f = store_ok_fields [OF Cons.prems(1)]
  from Cons.prems(3) obtain e where "map_of (is_entries s) k = Some e"
    by (metis insert_subset list.set(2) map_of_eq_None_iff not_None_eq)
  then have rm: "remove k s = (Inr (), with_entries s (AList.delete k (is_entries s)))"
    by (rule remove_present [OF Cons.prems(1)])
  have "set ks \<subseteq> fst ` set (AList.delete k (is_entries s))"
    using Cons.prems(2,3) by (fastforce simp: AList.delete_eq)
  moreover have "filter (\<lambda>ke. fst ke \<notin> set ks) (AList.delete k (is_entries s))
      = filter (\<lambda>ke. fst ke \<notin> set (k # ks)) (is_entries s)"
    by (auto simp: AList.delete_eq intro: filter_cong)
  ultimately show ?case
    using Cons.IH [of "with_entries s (AList.delete k (is_entries s))"] Cons.prems(2) f
    by (simp add: rm list_all_delete)
qed

definition live :: "rat \<Rightarrow> (cache_key, idem_entry) odict \<Rightarrow> (cache_key, idem_entry) odict" where
  "live now d = filter (\<lambda>ke. now < ie_expires_at (snd ke)) d"

lemma expire_eq:
  assumes ok: "store_ok s"
  shows "expire now s = (Inr (), with_entries s (live now (is_entries s)))"
proof -
  let ?d = "is_entries s"
  let ?ks = "map fst (filter (\<lambda>ke. ie_expires_at (snd ke) \<le> now) ?d)"
  have wf: "od_wf ?d" by (rule store_ok_fields [OF ok])
  have "fst ke \<in> set ?ks \<longleftrightarrow> ie_expires_at (snd ke) \<le> now" if ke: "ke \<in> set ?d" for ke
  proof
    assume "fst ke \<in> set ?ks"
    then obtain ke' where "ke' \<in> set ?d" "ie_expires_at (snd ke') \<le> now" "fst ke' = fst ke"
      by auto
    moreover from this(1,3) ke have "snd ke' = snd ke"
      using wf by (metis eq_key_imp_eq_value od_wf_def prod.collapse)
    ultimately show "ie_expires_at (snd ke) \<le> now" by simp
  qed (use ke in auto)
  then have "filter (\<lambda>ke. fst ke \<notin> set ?ks) ?d = live now ?d"
    unfolding live_def by (intro filter_cong) auto
  moreover have "distinct ?ks" using wf by (simp add: od_wf_def distinct_map_filter)
  moreover have "set ?ks \<subseteq> fst ` set ?d" by auto
  ultimately show ?thesis by (simp add: expire_def st_for_remove [OF ok])
qed

text \<open>An eviction removes completed entries and keeps the order of the rest.\<close>

definition evicted ::
  "(cache_key, idem_entry) odict \<Rightarrow> (cache_key, idem_entry) odict \<Rightarrow> bool" where
  "evicted d d' \<longleftrightarrow>
     (\<exists>P. d' = filter P d \<and> list_all (\<lambda>ke. P ke \<or> ie_state (snd ke) = COMPLETE) d)"

lemma evicted_refl [simp]: "evicted d d"
  by (auto simp: evicted_def list_all_iff intro!: exI [where x = "\<lambda>_. True"])

lemma evicted_trans: "evicted d d' \<Longrightarrow> evicted d' d'' \<Longrightarrow> evicted d d''"
proof -
  assume "evicted d d'" "evicted d' d''"
  then obtain P Q where P: "d' = filter P d" "list_all (\<lambda>ke. P ke \<or> ie_state (snd ke) = COMPLETE) d"
    and Q: "d'' = filter Q d'" "list_all (\<lambda>ke. Q ke \<or> ie_state (snd ke) = COMPLETE) d'"
    by (auto simp: evicted_def)
  then have "d'' = filter (\<lambda>ke. P ke \<and> Q ke) d" by (simp add: conj_commute)
  moreover have "list_all (\<lambda>ke. (P ke \<and> Q ke) \<or> ie_state (snd ke) = COMPLETE) d"
    using P Q by (fastforce simp: list_all_iff)
  ultimately show ?thesis unfolding evicted_def by blast
qed

lemma evicted_delete:
  assumes "od_wf d" "map_of d k = Some e" "ie_state e = COMPLETE"
  shows "evicted d (AList.delete k d)"
proof -
  have "list_all (\<lambda>ke. fst ke \<noteq> k \<or> ie_state (snd ke) = COMPLETE) d"
  proof (unfold list_all_iff, intro ballI)
    fix ke assume "ke \<in> set d"
    then have "map_of d (fst ke) = Some (snd ke)" using assms(1) by (simp add: od_wf_def)
    with assms(2,3) show "fst ke \<noteq> k \<or> ie_state (snd ke) = COMPLETE" by auto
  qed
  moreover have "AList.delete k d = filter (\<lambda>ke. fst ke \<noteq> k) d"
    by (auto simp: AList.delete_eq intro: filter_cong)
  ultimately show ?thesis unfolding evicted_def by blast
qed

lemma evicted_facts:
  assumes "evicted d d'"
  shows "set d' \<subseteq> set d" and "od_wf d \<Longrightarrow> od_wf d'" and "length d' \<le> length d"
    and "list_all P d \<Longrightarrow> list_all P d'"
  using assms by (auto simp: evicted_def list_all_filter)

lemma evicted_keeps_reserved:
  assumes "evicted d d'" "od_wf d" "map_of d k = Some e" "ie_state e = RESERVED"
  shows "map_of d' k = Some e"
proof -
  from assms(1) obtain P where P: "d' = filter P d"
      "list_all (\<lambda>ke. P ke \<or> ie_state (snd ke) = COMPLETE) d" by (auto simp: evicted_def)
  have "(k, e) \<in> set d" using assms(3) by (rule map_of_SomeD)
  with P assms(4) have "(k, e) \<in> set d'" by (auto simp: list_all_iff)
  moreover have "distinct (map fst d')" using assms(2) P(1) by (simp add: od_wf_def distinct_map_filter)
  ultimately show ?thesis by simp
qed

lemma oldest_completed_key_Some:
  assumes "oldest_completed_key s = Some k" "od_wf (is_entries s)"
  shows "\<exists>e. map_of (is_entries s) k = Some e \<and> ie_state e = COMPLETE"
proof -
  from assms(1) obtain ke where "find (\<lambda>ke. ie_state (snd ke) = COMPLETE) (is_entries s) = Some ke"
    and k: "k = fst ke" by (auto simp: oldest_completed_key_def)
  then have "ke \<in> set (is_entries s)" "ie_state (snd ke) = COMPLETE"
    by (auto simp: find_Some_iff)
  moreover from this(1) have "map_of (is_entries s) k = Some (snd ke)"
    using assms(2) by (simp add: k od_wf_def)
  ultimately show ?thesis by blast
qed

lemma make_room_cases:
  assumes ok: "store_ok s"
  shows "(\<exists>d'. make_room now s = (Inr (), with_entries s d') \<and> evicted (is_entries s) d'
             \<and> (\<not> is_evict_completed s \<longrightarrow> d' = is_entries s)
             \<and> (int (length d') < is_max_entries s \<or> is_max_entries s < int (length (is_entries s))))
         \<or> make_room now s = (Inl (capacity_error s now), s)"
proof (cases "int (length (is_entries s)) < is_max_entries s")
  case True
  then show ?thesis
    using store_ok_fields(3) [OF ok] by (simp add: make_room_def) (metis evicted_refl)
next
  case False
  note wf = store_ok_fields(4) [OF ok]
  show ?thesis
  proof (cases "is_evict_completed s \<and> oldest_completed_key s \<noteq> None")
    case True
    then obtain k where k: "oldest_completed_key s = Some k" by auto
    from oldest_completed_key_Some [OF k wf] obtain e
      where e: "map_of (is_entries s) k = Some e" "ie_state e = COMPLETE" by auto
    have "make_room now s = (Inr (), with_entries s (AList.delete k (is_entries s)))"
      using False True k remove_present [OF ok e(1)] by (simp add: make_room_def)
    moreover have "int (length (AList.delete k (is_entries s))) < is_max_entries s
        \<or> is_max_entries s < int (length (is_entries s))"
      using length_delete_present [OF wf e(1)] by linarith
    ultimately show ?thesis using evicted_delete [OF wf e] True by blast
  next
    case none: False
    then have "make_room now s = (Inl (capacity_error s now), s)"
      using False by (auto simp: make_room_def split: option.split)
    then show ?thesis by blast
  qed
qed

lemma make_response_room_loop_total:
  "store_ok s \<Longrightarrow> length (is_entries s) < n \<Longrightarrow>
   \<exists>r d'. make_response_room_loop n req now s = Some (r, with_entries s d')
     \<and> evicted (is_entries s) d'
     \<and> ((r = Inr () \<and> od_total response_weight d' + req \<le> is_max_total_response_bytes s)
        \<or> (\<exists>s'. r = Inl (capacity_error s' now)))"
proof (induction n arbitrary: s)
  case 0
  then show ?case by simp
next
  case (Suc n)
  note f = store_ok_fields [OF Suc.prems(1)]
  consider (fits) "is_cached_bytes s + req \<le> is_max_total_response_bytes s"
    | (stuck) "\<not> is_cached_bytes s + req \<le> is_max_total_response_bytes s"
        "\<not> is_evict_completed s \<or> oldest_completed_key s = None"
    | (evict) k where "\<not> is_cached_bytes s + req \<le> is_max_total_response_bytes s"
        "is_evict_completed s" "oldest_completed_key s = Some k"
    by (cases "oldest_completed_key s") auto
  then show ?case
  proof cases
    case fits
    then have "make_response_room_loop (Suc n) req now s = Some (Inr (), with_entries s (is_entries s))"
      by (simp add: f(3))
    with fits f(1) show ?thesis by (metis evicted_refl)
  next
    case stuck
    then have "make_response_room_loop (Suc n) req now s
        = Some (Inl (capacity_error s now), with_entries s (is_entries s))"
      by (auto simp: f(3))
    then show ?thesis by (metis evicted_refl)
  next
    case evict
    from oldest_completed_key_Some [OF evict(3) f(4)] obtain e
      where e: "map_of (is_entries s) k = Some e" "ie_state e = COMPLETE" by auto
    let ?d = "AList.delete k (is_entries s)"
    have ev: "evicted (is_entries s) ?d" by (rule evicted_delete [OF f(4) e])
    have "length ?d < n" using length_delete_present [OF f(4) e(1)] Suc.prems(2) by simp
    moreover have "store_ok (with_entries s ?d)" using f by (simp add: list_all_delete)
    ultimately obtain r d' where
      "make_response_room_loop n req now (with_entries s ?d) = Some (r, with_entries s d')"
      "evicted ?d d'"
      "(r = Inr () \<and> od_total response_weight d' + req \<le> is_max_total_response_bytes s)
        \<or> (\<exists>s'. r = Inl (capacity_error s' now))"
      using Suc.IH [of "with_entries s ?d"] by auto
    then show ?thesis
      using evict remove_present [OF Suc.prems(1) e(1)] evicted_trans [OF ev] by auto
  qed
qed

end
