(* ===== verification/Idempotency_Safety.thy ===== *)
theory Idempotency_Safety
  imports Idempotency_Facts
begin

text \<open>
  Histories of the idempotency store and the properties of every history: bounded
  memory with exact accounting, unreachable internal errors, protection of live
  reservations, and the replay guarantee of the non-evicting mode that paid requests
  use.
\<close>

section \<open>Histories\<close>

text \<open>
  One public call, with the clock's return value and, for \<open>reserve\<close>, the token that
  \<open>secrets.token_urlsafe\<close> returned.
\<close>

datatype idem_op =
    OpReserve pyval pystr pyval pyval pyval  \<comment> \<open>clock, token, tenant, key, fingerprint\<close>
  | OpCommit pyval idem_reservation idem_response
  | OpAbort pyval idem_reservation
  | OpLen pyval
  | OpBytes pyval

definition result_of :: "('e + 'a) \<times> 's \<Rightarrow> 'e option \<times> 's" where
  "result_of rs = (case fst rs of Inl e \<Rightarrow> Some e | Inr _ \<Rightarrow> None, snd rs)"

text \<open>The failure a call raises, if any, and the store after it.\<close>

fun idem_step ::
  "(bytes \<Rightarrow> bytes) \<Rightarrow> idem_op \<Rightarrow> idem_store \<Rightarrow> access_failure option \<times> idem_store" where
  "idem_step sha256 (OpReserve clk token t k f) s = result_of (reserve sha256 clk token t k f s)"
| "idem_step sha256 (OpCommit clk rv r) s = result_of (commit clk rv r s)"
| "idem_step sha256 (OpAbort clk rv) s = result_of (abort clk rv s)"
| "idem_step sha256 (OpLen clk) s = result_of (store_len clk s)"
| "idem_step sha256 (OpBytes clk) s = result_of (cached_response_bytes clk s)"

fun idem_run :: "(bytes \<Rightarrow> bytes) \<Rightarrow> idem_op list \<Rightarrow> idem_store \<Rightarrow> idem_store" where
  "idem_run sha256 [] s = s"
| "idem_run sha256 (op # ops) s = idem_run sha256 ops (snd (idem_step sha256 op s))"

fun op_clock :: "idem_op \<Rightarrow> pyval" where
  "op_clock (OpReserve clk _ _ _ _) = clk"
| "op_clock (OpCommit clk _ _) = clk"
| "op_clock (OpAbort clk _) = clk"
| "op_clock (OpLen clk) = clk"
| "op_clock (OpBytes clk) = clk"

definition clock_before :: "rat \<Rightarrow> idem_op \<Rightarrow> bool" where
  "clock_before t op \<longleftrightarrow> (case now_of (op_clock op) of Inr now \<Rightarrow> now < t | Inl _ \<Rightarrow> True)"

text \<open>The call finalises the entry under this key with this token.\<close>

definition same_claim :: "cache_key \<Rightarrow> pystr \<Rightarrow> idem_reservation \<Rightarrow> bool" where
  "same_claim k token rv \<longleftrightarrow> rv_key rv = k \<and> rv_token rv = token"

fun presents :: "cache_key \<Rightarrow> pystr \<Rightarrow> idem_op \<Rightarrow> bool" where
  "presents k token (OpCommit _ rv _) = same_claim k token rv"
| "presents k token (OpAbort _ rv) = same_claim k token rv"
| "presents k token _ = False"

section \<open>One operation\<close>

lemma inv_filter:
  assumes "store_inv s"
  shows "store_inv (with_entries s (filter P (is_entries s)))"
proof -
  from assms have ok: "store_ok s" by (simp add: store_inv_def)
  note f = store_ok_fields [OF ok]
  have "int (length (filter P (is_entries s))) \<le> is_max_entries s"
    using assms by (intro order_trans [OF of_nat_mono [OF length_filter_le]]) (simp add: store_inv_def)
  then show ?thesis
    using assms f responses.total_filter_le [OF list_all_True, of P "is_entries s"]
      reservations.total_filter_le [OF entries_weighed [OF ok], of P]
    by (simp add: store_inv_def list_all_filter)
qed

lemma inv_evicted: "store_inv s \<Longrightarrow> evicted (is_entries s) d \<Longrightarrow> store_inv (with_entries s d)"
  by (auto simp: evicted_def inv_filter)

lemma expire_locked:
  assumes "store_inv s" "now_of clk = Inr now"
  shows "locked clk body s = body now (with_entries s (live now (is_entries s)))"
  using assms by (simp add: locked_def expire_eq store_inv_def)

text \<open>
  What a call may do to the entries other than the one under its key \<open>k\<close>: it keeps
  every reserved entry and, in the non-evicting mode, every entry.
\<close>

definition keeps :: "bool \<Rightarrow> cache_key \<Rightarrow> (cache_key, idem_entry) odict \<Rightarrow>
    (cache_key, idem_entry) odict \<Rightarrow> bool" where
  "keeps evict k d d' \<longleftrightarrow>
     (\<forall>k' e. k' \<noteq> k \<longrightarrow> map_of d k' = Some e \<longrightarrow> ie_state e = RESERVED \<or> \<not> evict \<longrightarrow>
        map_of d' k' = Some e)"

definition internal_error :: "access_failure \<Rightarrow> bool" where
  "internal_error e \<longleftrightarrow> (\<exists>m. e = Py (RuntimeError m) \<or> e = Py (KeyError m))"

lemma capacity_error_not_internal [simp]: "\<not> internal_error (capacity_error s now)"
  by (simp add: internal_error_def capacity_error_def)

text \<open>A call is sound when it keeps the invariant, frames the rest and raises no internal error.\<close>

definition sound ::
  "cache_key \<Rightarrow> idem_store \<Rightarrow> (access_failure + 'a) \<times> idem_store \<Rightarrow> bool" where
  "sound k s rs \<longleftrightarrow> store_inv (snd rs)
     \<and> (\<exists>d'. snd rs = with_entries s d' \<and> keeps (is_evict_completed s) k (is_entries s) d')
     \<and> (\<forall>e. fst rs = Inl e \<longrightarrow> \<not> internal_error e)"

lemma keeps_refl [simp]: "keeps ev k d d"
  by (simp add: keeps_def)

lemma keeps_evicted: "evicted d d' \<Longrightarrow> od_wf d \<Longrightarrow> ev \<or> d' = d \<Longrightarrow> keeps ev k d d'"
  by (auto simp: keeps_def dest: evicted_keeps_reserved)

lemma sound_error: "store_inv s \<Longrightarrow> \<not> internal_error e \<Longrightarrow> sound k s (Inl e, s)"
  using store_ok_fields(3) [of s] by (metis fst_conv keeps_refl snd_conv store_inv_def sound_def sum.inject(1))

lemma sound_value: "store_inv s \<Longrightarrow> sound k s (Inr x, s)"
  using store_ok_fields(3) [of s] by (metis fst_conv keeps_refl snd_conv store_inv_def sound_def sum.distinct(1))

lemma access_not_internal [simp]: "\<not> internal_error (Access e)"
  by (simp add: internal_error_def)

lemma reserve_body_new:
  assumes inv: "store_inv s" and new: "map_of (is_entries s) (t, dg) = None"
  shows "sound (t, dg) s (reserve_body token t dg f now s)"
proof -
  from inv have ok: "store_ok s" by (simp add: store_inv_def)
  note fs = store_ok_fields [OF ok]
  from make_room_cases [OF ok, of now] show ?thesis
  proof
    assume "make_room now s = (Inl (capacity_error s now), s)"
    then have "reserve_body token t dg f now s = (Inl (capacity_error s now), s)"
      using new by (simp add: reserve_body_def)
    then show ?thesis by (simp add: sound_error inv)
  next
    assume "\<exists>d'. make_room now s = (Inr (), with_entries s d') \<and> evicted (is_entries s) d'
             \<and> (\<not> is_evict_completed s \<longrightarrow> d' = is_entries s)
             \<and> (int (length d') < is_max_entries s \<or> is_max_entries s < int (length (is_entries s)))"
    then obtain d' where room: "make_room now s = (Inr (), with_entries s d')"
      and ev: "evicted (is_entries s) d'" and keep: "\<not> is_evict_completed s \<Longrightarrow> d' = is_entries s"
      and len: "int (length d') < is_max_entries s"
      using inv by (auto simp: store_inv_def)
    have inv': "store_inv (with_entries s d')" by (rule inv_evicted [OF inv ev])
    have kp: "keeps (is_evict_completed s) (t, dg) (is_entries s) d'"
      using keep by (intro keeps_evicted [OF ev fs(4)]) auto
    have new': "map_of d' (t, dg) = None"
    proof (rule ccontr)
      assume "map_of d' (t, dg) \<noteq> None"
      then have "(t, dg) \<in> fst ` set (is_entries s)"
        using evicted_facts(1) [OF ev] by (metis image_mono map_of_eq_None_iff subsetD)
      with new show False by (simp add: map_of_eq_None_iff)
    qed
    let ?n = "if is_evict_completed s then 0 else is_max_response_bytes s"
    let ?e = "\<lparr>ie_fingerprint = f, ie_token = token, ie_state = RESERVED,
        ie_expires_at = now + is_reservation_ttl s, ie_response = None, ie_reserved_bytes = ?n\<rparr>"
    show ?thesis
    proof (cases "\<not> is_evict_completed s \<and> is_max_total_response_bytes s
        < od_total response_weight d' + od_total ie_reserved_bytes d' + ?n")
      case True
      then have "reserve_body token t dg f now s
          = (Inl (capacity_error (with_entries s d') now), with_entries s d')"
        using new room by (auto simp: reserve_body_def Let_def)
      then show ?thesis using inv' kp by (auto simp: sound_def)
    next
      case False
      let ?d = "AList.update (t, dg) ?e d'"
      have tot: "od_total response_weight ?d = od_total response_weight d'"
          "od_total ie_reserved_bytes ?d = od_total ie_reserved_bytes d' + ?n"
        using inv' new' by (simp_all add: store_inv_def od_total_update response_weight_def)
      have "(with_entries s d')\<lparr>is_entries := ?d, is_reserved_bytes :=
          od_total ie_reserved_bytes d' + ?n\<rparr> = with_entries s ?d"
        using tot by (simp add: with_entries_def)
      then have body: "snd (reserve_body token t dg f now s) = with_entries s ?d"
          "\<exists>x. fst (reserve_body token t dg f now s) = Inr x"
        using new room False by (auto simp: reserve_body_def Let_def)
      have "entry_ok s ?e" by (simp add: entry_ok_def)
      moreover have "?d = d' @ [((t, dg), ?e)]" by (rule update_absent [OF new'])
      moreover have "od_wf ?d" using inv' by (simp add: store_inv_def)
      ultimately have "store_inv (with_entries s ?d)"
        using inv' tot len False by (auto simp: store_inv_def)
      moreover have "keeps (is_evict_completed s) (t, dg) (is_entries s) ?d"
        using kp by (auto simp: keeps_def)
      ultimately show ?thesis using body by (auto simp: sound_def)
    qed
  qed
qed

lemma od_total_moved: "od_wf d \<Longrightarrow> with_entries s (od_move_to_end k d) =
    (with_entries s d)\<lparr>is_entries := od_move_to_end k d\<rparr>"
  by (simp add: with_entries_def)

lemma inv_move_to_end:
  assumes "store_inv s"
  shows "store_inv (s\<lparr>is_entries := od_move_to_end k (is_entries s)\<rparr>)"
    and "s\<lparr>is_entries := od_move_to_end k (is_entries s)\<rparr>
         = with_entries s (od_move_to_end k (is_entries s))"
proof -
  from assms have ok: "store_ok s" by (simp add: store_inv_def)
  note f = store_ok_fields [OF ok]
  show eq: "s\<lparr>is_entries := od_move_to_end k (is_entries s)\<rparr>
         = with_entries s (od_move_to_end k (is_entries s))"
    using od_total_moved [OF f(4), of s k] f(3) by simp
  show "store_inv (s\<lparr>is_entries := od_move_to_end k (is_entries s)\<rparr>)"
    unfolding eq using assms f by (simp add: store_inv_def list_all_iff)
qed

lemma reserve_body_old:
  assumes inv: "store_inv s" and e: "map_of (is_entries s) (t, dg) = Some e"
  shows "sound (t, dg) s (reserve_body token t dg f now s)
    \<and> map_of (is_entries (snd (reserve_body token t dg f now s))) (t, dg) = Some e"
proof (cases "ie_fingerprint e = f \<and> ie_state e = COMPLETE \<and> ie_response e \<noteq> None")
  case True
  then obtain r where "ie_response e = Some r" by auto
  with True have eq: "reserve_body token t dg f now s =
      (Inr (Replay r), s\<lparr>is_entries := od_move_to_end (t, dg) (is_entries s)\<rparr>)"
    using e by (simp add: reserve_body_def)
  show ?thesis
    unfolding eq using inv_move_to_end [OF inv, of "(t, dg)"] e
    by (simp add: sound_def) (auto simp: keeps_def)
next
  case False
  then obtain x where "reserve_body token t dg f now s = (Inl (Access x), s)"
    using e by (cases "ie_state e"; cases "ie_fingerprint e = f") (simp_all add: reserve_body_def)
  then show ?thesis using e by (simp add: sound_error inv)
qed

lemma reserve_body_sound: "store_inv s \<Longrightarrow> sound (t, dg) s (reserve_body token t dg f now s)"
  using reserve_body_new reserve_body_old by (cases "map_of (is_entries s) (t, dg)") blast+

lemma complete_entry_inv:
  assumes inv: "store_inv s" and e: "map_of (is_entries s) k = Some e" "ie_state e = RESERVED"
    and size: "size_bytes r \<le> is_max_response_bytes s"
    and fits: "is_cached_bytes s + is_reserved_bytes s - ie_reserved_bytes e + size_bytes r
        \<le> is_max_total_response_bytes s"
    and e1: "ie_state e1 = COMPLETE" "ie_response e1 = Some r" "ie_reserved_bytes e1 = 0"
  shows "store_inv (with_entries s (od_move_to_end k (AList.update k e1 (is_entries s))))"
proof -
  from inv have ok: "store_ok s" by (simp add: store_inv_def)
  note f = store_ok_fields [OF ok]
  let ?d = "AList.update k e1 (is_entries s)"
  have "(k, e) \<in> set (is_entries s)" using e(1) by (rule map_of_SomeD)
  then have "entry_ok s e" using f(6) by (auto simp: list_all_iff)
  then have none: "ie_response e = None" using e(2) by (simp add: entry_ok_def)
  have wf: "od_wf ?d" using f(4) by simp
  have "list_all (\<lambda>ke. entry_ok s (snd ke)) ?d"
  proof -
    have "entry_ok s e1" using e1 size by (simp add: entry_ok_def)
    then show ?thesis using f(6) by (auto simp: list_all_iff dest!: set_update_cases)
  qed
  moreover have "length ?d = length (is_entries s)"
    using e(1) f(4) by (metis AList.update_keys length_map map_of_eq_None_iff option.distinct(1)
        image_set)
  moreover have "od_total response_weight ?d = is_cached_bytes s + size_bytes r"
      "od_total ie_reserved_bytes ?d = is_reserved_bytes s - ie_reserved_bytes e"
    using e(1) e1 none f by (simp_all add: od_total_update response_weight_def)
  ultimately show ?thesis
    using inv f wf fits by (simp add: store_inv_def list_all_iff)
qed

lemma commit_body_not_owner:
  "\<not> owns (map_of (is_entries s) (rv_key rv)) rv \<Longrightarrow>
     commit_body rv r now s = (Inl (Access InvalidReservationError), s)"
  by (cases "map_of (is_entries s) (rv_key rv)") (simp_all add: commit_body_def)

lemma ownsD: "owns (map_of d k) rv \<Longrightarrow>
    \<exists>e. map_of d k = Some e \<and> ie_state e = RESERVED \<and> ie_token e = rv_token rv
      \<and> ie_fingerprint e = rv_fingerprint rv"
  by (auto simp: owns_def split: option.splits)

definition completed :: "idem_entry \<Rightarrow> idem_response \<Rightarrow> rat \<Rightarrow> idem_entry" where
  "completed e r t = e\<lparr>ie_reserved_bytes := 0, ie_state := COMPLETE, ie_response := Some r,
     ie_expires_at := t\<rparr>"

lemma entry_ok_evict: "entry_ok s e \<Longrightarrow> is_evict_completed s \<Longrightarrow> ie_reserved_bytes e = 0"
  by (cases "ie_state e") (simp_all add: entry_ok_def)

lemma commit_body_evict:
  assumes inv: "store_inv s" and ev: "is_evict_completed s"
    and e: "map_of (is_entries s) (rv_key rv) = Some e" "owns (Some e) rv"
    and size: "size_bytes r \<le> is_max_response_bytes s"
  shows "sound (rv_key rv) s (commit_body rv r now s)"
proof -
  from inv have ok: "store_ok s" by (simp add: store_inv_def)
  note f = store_ok_fields [OF ok]
  have st: "ie_state e = RESERVED" using e(2) by (simp add: owns_def)
  have "(rv_key rv, e) \<in> set (is_entries s)" using e(1) by (rule map_of_SomeD)
  then have eok: "entry_ok s e" using f(6) by (auto simp: list_all_iff)
  obtain res d' where room: "make_response_room (size_bytes r) now s = (res, with_entries s d')"
    and evd: "evicted (is_entries s) d'"
    and res: "(res = Inr () \<and> od_total response_weight d' + size_bytes r
          \<le> is_max_total_response_bytes s) \<or> (\<exists>s'. res = Inl (capacity_error s' now))"
    using make_response_room_loop_total [OF ok lessI, of "size_bytes r" now]
    by (fastforce simp: make_response_room_def simp del: make_response_room_loop.simps)
  have inv': "store_inv (with_entries s d')" by (rule inv_evicted [OF inv evd])
  have kp: "keeps (is_evict_completed s) (rv_key rv) (is_entries s) d'"
    using ev by (intro keeps_evicted [OF evd f(4)]) auto
  have e': "map_of d' (rv_key rv) = Some e"
    by (rule evicted_keeps_reserved [OF evd f(4) e(1) st])
  from res show ?thesis
  proof
    assume "\<exists>s'. res = Inl (capacity_error s' now)"
    then obtain s' where "commit_body rv r now s = (Inl (capacity_error s' now), with_entries s d')"
      using e ev room by (auto simp: commit_body_def)
    then show ?thesis using inv' kp by (auto simp: sound_def)
  next
    assume fits: "res = Inr () \<and> od_total response_weight d' + size_bytes r
          \<le> is_max_total_response_bytes s"
    let ?e1 = "completed e r (now + is_ttl s)"
    let ?d = "od_move_to_end (rv_key rv) (AList.update (rv_key rv) ?e1 d')"
    have wf: "od_wf d'" using inv' by (simp add: store_inv_def)
    have zero: "ie_reserved_bytes e = 0" "ie_response e = None"
      using eok st ev by (simp_all add: entry_ok_def)
    have "od_total ie_reserved_bytes d' = 0"
    proof -
      have "list_all (\<lambda>ke. ie_reserved_bytes (snd ke) = 0) d'"
        using inv' entry_ok_evict [OF _ ev] by (fastforce simp: store_inv_def list_all_iff)
      then show ?thesis by (induction d') auto
    qed
    then have "store_inv (with_entries s ?d)"
      using complete_entry_inv [OF inv', of "rv_key rv" e r ?e1] e' st size fits zero
      by (simp add: completed_def)
    moreover have "commit_body rv r now s = (Inr (), with_entries s ?d)"
    proof -
      have "od_total response_weight ?d = od_total response_weight d' + size_bytes r"
          "od_total ie_reserved_bytes ?d = od_total ie_reserved_bytes d'"
        using wf e' zero by (simp_all add: od_total_update response_weight_def completed_def)
      then show ?thesis
        using e ev room fits zero by (simp add: commit_body_def Let_def completed_def with_entries_def)
    qed
    moreover have "keeps (is_evict_completed s) (rv_key rv) (is_entries s) ?d"
      using kp by (auto simp: keeps_def)
    ultimately show ?thesis by (auto simp: sound_def)
  qed
qed

lemma commit_body_hold:
  assumes inv: "store_inv s" and ev: "\<not> is_evict_completed s"
    and e: "map_of (is_entries s) (rv_key rv) = Some e" "owns (Some e) rv"
    and size: "size_bytes r \<le> is_max_response_bytes s"
  shows "commit_body rv r now s = (Inr (), with_entries s (od_move_to_end (rv_key rv)
           (AList.update (rv_key rv) (completed e r (now + is_ttl s)) (is_entries s))))
         \<and> sound (rv_key rv) s (commit_body rv r now s)"
proof -
  from inv have ok: "store_ok s" by (simp add: store_inv_def)
  note f = store_ok_fields [OF ok]
  have st: "ie_state e = RESERVED" using e(2) by (simp add: owns_def)
  have "(rv_key rv, e) \<in> set (is_entries s)" using e(1) by (rule map_of_SomeD)
  then have eok: "entry_ok s e" using f(6) by (auto simp: list_all_iff)
  then have held: "ie_reserved_bytes e = is_max_response_bytes s" "ie_response e = None"
    using st ev by (simp_all add: entry_ok_def)
  have fits: "is_cached_bytes s + is_reserved_bytes s - ie_reserved_bytes e + size_bytes r
      \<le> is_max_total_response_bytes s"
    using inv held(1) size by (simp add: store_inv_def)
  let ?e1 = "completed e r (now + is_ttl s)"
  let ?d = "od_move_to_end (rv_key rv) (AList.update (rv_key rv) ?e1 (is_entries s))"
  have "od_total response_weight ?d = is_cached_bytes s + size_bytes r"
      "od_total ie_reserved_bytes ?d = is_reserved_bytes s - ie_reserved_bytes e"
    using f e(1) held(2) by (simp_all add: od_total_update response_weight_def completed_def)
  then have body: "commit_body rv r now s = (Inr (), with_entries s ?d)"
    using e ev fits by (simp add: commit_body_def Let_def completed_def with_entries_def)
  moreover have "store_inv (with_entries s ?d)"
    by (rule complete_entry_inv [OF inv e(1) st size fits]) (simp_all add: completed_def)
  moreover have "keeps (is_evict_completed s) (rv_key rv) (is_entries s) ?d"
    by (auto simp: keeps_def)
  ultimately show ?thesis by (auto simp: sound_def)
qed

lemma commit_body_sound:
  assumes "store_inv s" "size_bytes r \<le> is_max_response_bytes s"
  shows "sound (rv_key rv) s (commit_body rv r now s)"
proof (cases "owns (map_of (is_entries s) (rv_key rv)) rv")
  case False
  then show ?thesis
    by (simp add: commit_body_not_owner sound_error assms(1))
next
  case True
  then obtain e where "map_of (is_entries s) (rv_key rv) = Some e" "owns (Some e) rv"
    by (cases "map_of (is_entries s) (rv_key rv)") (auto simp: owns_def)
  then show ?thesis
    using commit_body_evict [OF assms(1)] commit_body_hold [OF assms(1)] assms(2) by blast
qed

lemma abort_body_sound:
  assumes inv: "store_inv s"
  shows "sound (rv_key rv) s (abort_body rv now s)"
proof (cases "owns (map_of (is_entries s) (rv_key rv)) rv")
  case False
  then show ?thesis by (simp add: abort_body_def sound_value inv)
next
  case True
  then obtain e where e: "map_of (is_entries s) (rv_key rv) = Some e"
    by (auto dest: ownsD)
  let ?d = "AList.delete (rv_key rv) (is_entries s)"
  have rm: "remove (rv_key rv) s = (Inr (), with_entries s ?d)"
    by (rule remove_present [OF _ e]) (use inv in \<open>simp add: store_inv_def\<close>)
  have inv': "store_inv (with_entries s ?d)"
    unfolding AList.delete_eq by (rule inv_filter [OF inv])
  have kp: "keeps (is_evict_completed s) (rv_key rv) (is_entries s) ?d"
    by (simp add: keeps_def)
  have "abort_body rv now s = (Inr True, with_entries s ?d)"
    using True rm by (simp add: abort_body_def)
  with inv' kp show ?thesis unfolding sound_def by (metis fst_conv snd_conv sum.distinct(1))
qed

section \<open>One public call\<close>

lemma now_of_not_internal: "now_of clk = Inl e \<Longrightarrow> \<not> internal_error (Py e)"
  by (auto simp: now_of_def internal_error_def split: pyval.splits if_splits pyfloat.splits)

lemma live_keeps:
  "od_wf d \<Longrightarrow> map_of d k = Some e \<Longrightarrow> now < ie_expires_at e \<Longrightarrow> map_of (live now d) k = Some e"
  by (auto simp: live_def od_wf_def distinct_map_filter dest: map_of_SomeD)

text \<open>
  Under the lock: if the body is sound at every store satisfying the invariant, so is the
  call, and an entry the body keeps is kept unless it has expired.
\<close>

definition call_ok :: "idem_store \<Rightarrow> (access_failure + 'a) \<times> idem_store \<Rightarrow> bool" where
  "call_ok s rs \<longleftrightarrow> store_inv (snd rs) \<and> (\<exists>d'. snd rs = with_entries s d')
     \<and> (\<forall>e. fst rs = Inl e \<longrightarrow> \<not> internal_error e)"

lemma sound_call_ok: "sound k s rs \<Longrightarrow> call_ok s rs"
  by (auto simp: sound_def call_ok_def)

lemma call_ok_error: "store_inv s \<Longrightarrow> \<not> internal_error e \<Longrightarrow> call_ok s (Inl e, s)"
  by (rule sound_call_ok [OF sound_error])

lemma call_ok_value: "store_inv s \<Longrightarrow> call_ok s (Inr x, s)"
  by (rule sound_call_ok [OF sound_value])

lemma call_ok_expired:
  "call_ok (with_entries s d) rs \<Longrightarrow> call_ok s rs"
  by (simp add: call_ok_def)

lemma live_inv: "store_inv s \<Longrightarrow> store_inv (with_entries s (live now (is_entries s)))"
  unfolding live_def by (rule inv_filter)

lemma locked_ok:
  assumes inv: "store_inv s" and body: "\<And>now s. store_inv s \<Longrightarrow> call_ok s (body now s)"
  shows "call_ok s (locked clk body s)"
proof (cases "now_of clk")
  case (Inl e)
  then show ?thesis
    using now_of_not_internal [OF Inl] inv by (simp add: locked_def call_ok_error)
next
  case (Inr now)
  then show ?thesis
    by (simp add: expire_locked [OF inv] call_ok_expired [OF body [OF live_inv [OF inv]]])
qed

lemma locked_keeps:
  assumes inv: "store_inv s" and e: "map_of (is_entries s) k = Some e"
    and time: "\<And>now. now_of clk = Inr now \<Longrightarrow> now < ie_expires_at e"
    and body: "\<And>now s'. store_inv s' \<Longrightarrow> is_evict_completed s' = is_evict_completed s \<Longrightarrow>
        map_of (is_entries s') k = Some e \<Longrightarrow> map_of (is_entries (snd (body now s'))) k = Some e"
  shows "map_of (is_entries (snd (locked clk body s))) k = Some e"
proof (cases "now_of clk")
  case (Inl x)
  then show ?thesis using e by (simp add: locked_def)
next
  case (Inr now)
  have "od_wf (is_entries s)" using inv by (simp add: store_inv_def store_ok_def)
  then have "map_of (live now (is_entries s)) k = Some e"
    using e time [OF Inr] by (rule live_keeps)
  then show ?thesis
    using body [OF live_inv [OF inv], of now now] Inr by (simp add: expire_locked [OF inv])
qed

lemma reserve_ok:
  assumes "store_inv s"
  shows "call_ok s (reserve sha256 clk token t k f s)"
  using assms sound_call_ok [OF reserve_body_sound]
  by (auto simp: reserve_def call_ok_error locked_ok split: sum.split prod.split)

lemma commit_ok:
  assumes "store_inv s"
  shows "call_ok s (commit clk rv r s)"
proof (cases "is_max_response_bytes s < size_bytes r")
  case True
  then show ?thesis using assms by (simp add: commit_def call_ok_error)
next
  case False
  then have size: "size_bytes r \<le> is_max_response_bytes s" by simp
  show ?thesis
  proof (cases "now_of clk")
    case (Inl e)
    then show ?thesis
      using False now_of_not_internal [OF Inl] assms by (simp add: commit_def locked_def call_ok_error)
  next
    case (Inr now)
    have "sound (rv_key rv) (with_entries s (live now (is_entries s)))
        (commit_body rv r now (with_entries s (live now (is_entries s))))"
      using size by (intro commit_body_sound live_inv [OF assms]) simp
    then show ?thesis
      using False Inr by (simp add: commit_def expire_locked [OF assms] call_ok_expired [OF sound_call_ok])
  qed
qed

lemma abort_ok: "store_inv s \<Longrightarrow> call_ok s (abort clk rv s)"
  unfolding abort_def by (rule locked_ok) (auto intro: sound_call_ok abort_body_sound)

lemma step_ok:
  assumes "store_inv s"
  shows "store_inv (snd (idem_step sha256 op s))
    \<and> (\<exists>d'. snd (idem_step sha256 op s) = with_entries s d')
    \<and> (\<forall>e. fst (idem_step sha256 op s) = Some e \<longrightarrow> \<not> internal_error e)"
proof -
  have len: "call_ok s (store_len clk s)" "call_ok s (cached_response_bytes clk s)" for clk
    unfolding store_len_def cached_response_bytes_def
    by (rule locked_ok [OF assms], simp add: call_ok_value)+
  show ?thesis
    using reserve_ok [OF assms] commit_ok [OF assms] abort_ok [OF assms] len
    by (cases op) (auto simp: call_ok_def result_of_def split: sum.splits)
qed

section \<open>Entries that survive a call\<close>

text \<open>
  Calls do not touch a reservation whose token they do not present, nor, in the
  non-evicting mode, a completed response.
\<close>

definition shielded :: "idem_store \<Rightarrow> cache_key \<Rightarrow> idem_entry \<Rightarrow> idem_op \<Rightarrow> bool" where
  "shielded s k e op \<longleftrightarrow> clock_before (ie_expires_at e) op
     \<and> (case ie_state e of RESERVED \<Rightarrow> \<not> presents k (ie_token e) op
        | COMPLETE \<Rightarrow> \<not> is_evict_completed s)"

lemma sound_keeps:
  "sound k s rs \<Longrightarrow> k' \<noteq> k \<Longrightarrow> map_of (is_entries s) k' = Some e \<Longrightarrow>
   ie_state e = RESERVED \<or> \<not> is_evict_completed s \<Longrightarrow> map_of (is_entries (snd rs)) k' = Some e"
  by (cases k') (auto simp: sound_def keeps_def)

lemma reserve_keeps:
  assumes inv: "store_inv s" and e: "map_of (is_entries s) k = Some e"
    and sh: "shielded s k e (OpReserve clk token t key f)"
  shows "map_of (is_entries (snd (reserve sha256 clk token t key f s))) k = Some e"
proof -
  have st: "ie_state e = RESERVED \<or> \<not> is_evict_completed s"
    using sh by (cases "ie_state e") (simp_all add: shielded_def)
  have "map_of (is_entries (snd (locked clk (reserve_body token t' dg f') s))) k = Some e" for t' dg f'
  proof (rule locked_keeps [OF inv e])
    fix now s' assume s': "store_inv s'" "is_evict_completed s' = is_evict_completed s"
      "map_of (is_entries s') k = Some e"
    show "map_of (is_entries (snd (reserve_body token t' dg f' now s'))) k = Some e"
    proof (cases "k = (t', dg)")
      case True
      then show ?thesis using reserve_body_old [OF s'(1), of t' dg e] s'(3) by blast
    next
      case False
      then show ?thesis using sound_keeps [OF reserve_body_sound [OF s'(1)] _ s'(3)] st s'(2) by simp
    qed
  qed (use sh in \<open>simp add: shielded_def clock_before_def\<close>)
  then show ?thesis using e by (simp add: reserve_def split: sum.split prod.split)
qed

lemma shielded_not_owned:
  "shielded s k e op \<Longrightarrow> presents k (rv_token rv) op \<Longrightarrow> \<not> owns (Some e) rv"
  by (cases "ie_state e") (auto simp: shielded_def owns_def)

lemma commit_keeps:
  assumes inv: "store_inv s" and e: "map_of (is_entries s) k = Some e"
    and sh: "shielded s k e (OpCommit clk rv r)"
  shows "map_of (is_entries (snd (commit clk rv r s))) k = Some e"
proof (cases "is_max_response_bytes s < size_bytes r \<or> (\<exists>x. now_of clk = Inl x)")
  case True
  then show ?thesis using e by (auto simp: commit_def locked_def)
next
  case False
  then obtain now where now: "now_of clk = Inr now" by (cases "now_of clk") auto
  have st: "ie_state e = RESERVED \<or> \<not> is_evict_completed s"
    using sh by (cases "ie_state e") (simp_all add: shielded_def)
  let ?s = "with_entries s (live now (is_entries s))"
  have inv': "store_inv ?s" by (rule live_inv [OF inv])
  have e': "map_of (is_entries ?s) k = Some e"
    using inv e sh now live_keeps [of "is_entries s" k e now]
    by (simp add: store_inv_def store_ok_def shielded_def clock_before_def)
  have "map_of (is_entries (snd (commit_body rv r now ?s))) k = Some e"
  proof (cases "k = rv_key rv")
    case True
    then have "\<not> owns (map_of (is_entries ?s) (rv_key rv)) rv"
      using shielded_not_owned [OF sh, of rv] e' by (simp add: same_claim_def)
    then show ?thesis using e' by (simp add: commit_body_not_owner)
  next
    case other: False
    have "sound (rv_key rv) ?s (commit_body rv r now ?s)"
      using False by (intro commit_body_sound inv') simp
    from sound_keeps [OF this other e'] show ?thesis using st by simp
  qed
  then show ?thesis using False now by (simp add: commit_def expire_locked [OF inv])
qed

lemma abort_keeps:
  assumes inv: "store_inv s" and e: "map_of (is_entries s) k = Some e"
    and sh: "shielded s k e (OpAbort clk rv)"
  shows "map_of (is_entries (snd (abort clk rv s))) k = Some e"
  unfolding abort_def
proof (rule locked_keeps [OF inv e])
  have st: "ie_state e = RESERVED \<or> \<not> is_evict_completed s"
    using sh by (cases "ie_state e") (simp_all add: shielded_def)
  fix now s' assume s': "store_inv s'" "is_evict_completed s' = is_evict_completed s"
    "map_of (is_entries s') k = Some e"
  show "map_of (is_entries (snd (abort_body rv now s'))) k = Some e"
  proof (cases "k = rv_key rv")
    case True
    then have "\<not> owns (map_of (is_entries s') (rv_key rv)) rv"
      using shielded_not_owned [OF sh, of rv] s'(3) by (simp add: same_claim_def)
    then show ?thesis using s'(3) by (simp add: abort_body_def)
  next
    case False
    from sound_keeps [OF abort_body_sound [OF s'(1)] False s'(3)] show ?thesis using st s'(2) by simp
  qed
qed (use sh in \<open>simp add: shielded_def clock_before_def\<close>)

lemma step_keeps:
  assumes "store_inv s" "map_of (is_entries s) k = Some e" "shielded s k e op"
  shows "map_of (is_entries (snd (idem_step sha256 op s))) k = Some e"
proof (cases op)
  case (OpReserve clk token t key f)
  then show ?thesis using reserve_keeps assms by (simp add: result_of_def)
next
  case (OpCommit clk rv r)
  then show ?thesis using commit_keeps assms by (simp add: result_of_def)
next
  case (OpAbort clk rv)
  then show ?thesis using abort_keeps assms by (simp add: result_of_def)
next
  case (OpLen clk)
  have "map_of (is_entries (snd (store_len clk s))) k = Some e"
    unfolding store_len_def using assms
    by (intro locked_keeps) (auto simp: OpLen shielded_def clock_before_def)
  then show ?thesis by (simp add: OpLen result_of_def)
next
  case (OpBytes clk)
  have "map_of (is_entries (snd (cached_response_bytes clk s))) k = Some e"
    unfolding cached_response_bytes_def using assms
    by (intro locked_keeps) (auto simp: OpBytes shielded_def clock_before_def)
  then show ?thesis by (simp add: OpBytes result_of_def)
qed

section \<open>Histories of calls\<close>

definition same_config :: "idem_store \<Rightarrow> idem_store \<Rightarrow> bool" where
  "same_config s s' \<longleftrightarrow> (\<exists>d. s' = with_entries s d)"

lemma same_config_fields:
  "same_config s s' \<Longrightarrow> is_ttl s' = is_ttl s \<and> is_reservation_ttl s' = is_reservation_ttl s
     \<and> is_max_entries s' = is_max_entries s \<and> is_max_response_bytes s' = is_max_response_bytes s
     \<and> is_max_total_response_bytes s' = is_max_total_response_bytes s
     \<and> is_evict_completed s' = is_evict_completed s"
  by (auto simp: same_config_def)

lemma same_config_trans: "same_config s s' \<Longrightarrow> same_config s' s'' \<Longrightarrow> same_config s s''"
  by (auto simp: same_config_def)

lemma run_inv:
  "store_inv s \<Longrightarrow> store_inv (idem_run sha256 ops s) \<and> same_config s (idem_run sha256 ops s)"
proof (induction ops arbitrary: s)
  case Nil
  then show ?case
    by (auto simp: same_config_def store_inv_def intro: exI [where x = "is_entries s"]
        store_ok_fields(3) [symmetric])
next
  case (Cons op ops)
  note st = step_ok [OF Cons.prems, of sha256 op]
  then have "same_config s (snd (idem_step sha256 op s))" by (simp add: same_config_def)
  with Cons.IH [of "snd (idem_step sha256 op s)"] st show ?case
    by (auto intro: same_config_trans)
qed

lemma run_keeps:
  "store_inv s \<Longrightarrow> map_of (is_entries s) k = Some e \<Longrightarrow> list_all (shielded s k e) ops \<Longrightarrow>
   map_of (is_entries (idem_run sha256 ops s)) k = Some e"
proof (induction ops arbitrary: s)
  case Nil
  then show ?case by simp
next
  case (Cons op ops)
  let ?s = "snd (idem_step sha256 op s)"
  note st = step_ok [OF Cons.prems(1), of sha256 op]
  then have "is_evict_completed ?s = is_evict_completed s" by auto
  then have "shielded ?s = shielded s"
    unfolding shielded_def by (simp add: fun_eq_iff split: entry_state.split)
  with Cons.IH [of ?s] st Cons.prems show ?case by (simp add: step_keeps)
qed

lemma make_store_inv:
  assumes "make_store ttl rttl me mr mt ev = Inr s"
  shows "store_inv s \<and> is_entries s = []"
proof -
  from assms have "0 < is_ttl s \<and> 0 < is_reservation_ttl s \<and> 1 \<le> is_max_entries s
      \<and> 1 \<le> is_max_response_bytes s \<and> is_max_response_bytes s \<le> is_max_total_response_bytes s
      \<and> is_entries s = [] \<and> is_cached_bytes s = 0 \<and> is_reserved_bytes s = 0"
    by (cases ev) (auto simp: make_store_def res_bind_Inr_iff guard_def split: if_splits
        dest!: positive_finite_pos positive_int_pos)
  moreover from this have "s = with_entries s []" by (simp add: with_entries_def)
  ultimately show ?thesis by (simp add: store_inv_def store_ok_def config_ok_def od_wf_def)
qed

end
