(* ===== verification/Idempotency_Properties.thy ===== *)
theory Idempotency_Properties
  imports Idempotency_Safety
begin

text \<open>
  What the idempotency store promises its callers, over every history of public calls:
  bounded memory and exact accounting, single flight for a reserved key, the replay
  guarantee that lets a paid request reserve before it settles, and who may finalise
  an entry.
\<close>

section \<open>Bounded memory\<close>

text \<open>
  C12: After any history of calls on a store that \<open>IdempotencyStore\<close> constructed, whatever
  the clock, the arguments and the tokens: the keys are distinct, there are at most
  \<open>max_entries\<close> of them, the two byte counters are exactly the sizes of the stored
  responses and of the held reservations and together stay within
  \<open>max_total_response_bytes\<close>, and the next call never raises the internal
  \<open>RuntimeError\<close> or \<open>KeyError\<close> of \<open>_remove\<close>.
\<close>

theorem idempotency_store_invariant:
  assumes "make_store ttl reservation_ttl me mr mt ev = Inr s0" and "s = idem_run sha256 ops s0"
  shows "distinct (map fst (is_entries s))
    \<and> int (length (is_entries s)) \<le> is_max_entries s0
    \<and> is_cached_bytes s = sum_list (map (\<lambda>ke. response_weight (snd ke)) (is_entries s))
    \<and> is_reserved_bytes s = sum_list (map (\<lambda>ke. ie_reserved_bytes (snd ke)) (is_entries s))
    \<and> is_cached_bytes s + is_reserved_bytes s \<le> is_max_total_response_bytes s0
    \<and> (\<forall>m. fst (idem_step sha256 op s) \<noteq> Some (Py (RuntimeError m))
         \<and> fst (idem_step sha256 op s) \<noteq> Some (Py (KeyError m)))"
proof -
  from make_store_inv [OF assms(1)] have inv0: "store_inv s0" by simp
  from run_inv [OF inv0, of sha256 ops] assms(2)
  have inv: "store_inv s" and cfg: "same_config s0 s" by simp_all
  then have ok: "store_ok s" by (simp add: store_inv_def)
  from step_ok [OF inv, of sha256 op] show ?thesis
    using inv store_ok_fields [OF ok] same_config_fields [OF cfg]
    by (auto simp: store_inv_def od_total_def od_wf_def internal_error_def)
qed

definition toy_store :: idem_store where
  "toy_store = \<lparr>is_ttl = 60, is_reservation_ttl = 10, is_max_entries = 2,
     is_max_response_bytes = 8, is_max_total_response_bytes = 16, is_evict_completed = False,
     is_entries = [], is_cached_bytes = 0, is_reserved_bytes = 0\<rparr>"

lemma toy_make_store:
  "make_store (PInt 60) (PInt 10) (PInt 2) (PInt 8) (PInt 16) (PBool False) = Inr toy_store"
  by (simp add: make_store_def toy_store_def positive_finite_def positive_int_def
      float_overflow_def guard_def)

theorem idempotency_store_invariant_witness:
  "int (length (is_entries (idem_run (\<lambda>b. b)
     [OpReserve (PInt 1) ''x'' (PStr ''t'') (PStr ''k'') (PStr ''f'')] toy_store))) \<le> 2"
  using idempotency_store_invariant [OF toy_make_store refl,
      of "\<lambda>b. b" "[OpReserve (PInt 1) ''x'' (PStr ''t'') (PStr ''k'') (PStr ''f'')]" "OpLen PNone"]
  by (simp add: toy_store_def)

section \<open>Single flight\<close>

lemma reserve_body_Reserved:
  assumes inv: "store_inv s" and res: "reserve_body token t dg f now s = (Inr (Reserved rv), s1)"
  shows "rv = \<lparr>rv_tenant_id = t, rv_expires_at = now + is_reservation_ttl s, rv_key_digest = dg,
            rv_fingerprint = f, rv_token = token\<rparr>
    \<and> (\<exists>n. map_of (is_entries s1) (t, dg) = Some \<lparr>ie_fingerprint = f, ie_token = token,
            ie_state = RESERVED, ie_expires_at = now + is_reservation_ttl s, ie_response = None,
            ie_reserved_bytes = n\<rparr>)"
proof (cases "map_of (is_entries s) (t, dg)")
  case (Some e)
  then show ?thesis using res
    by (auto simp: reserve_body_def split: if_splits option.splits)
next
  case None
  from inv have ok: "store_ok s" by (simp add: store_inv_def)
  show ?thesis
    using make_room_cases [OF ok, of now] res None
    by (auto simp: reserve_body_def Let_def split: if_splits)
qed

text \<open>A successful \<open>reserve\<close> puts its own entry into the store.\<close>

lemma reserve_Reserved:
  assumes inv: "store_inv s"
    and res: "reserve sha256 clk token (PStr t) (PStr k) (PStr f) s = (Inr (Reserved rv), s1)"
  shows "rv_key rv = (t, sha256 (utf8 k)) \<and> rv_token rv = token \<and> rv_fingerprint rv = f
    \<and> store_inv s1 \<and> same_config s s1
    \<and> bounded_text (PStr t) ''tenant_id'' MAX_TENANT_ID_BYTES = Inr t
    \<and> bounded_text (PStr k) ''idempotency key'' MAX_IDEMPOTENCY_KEY_BYTES = Inr k
    \<and> bounded_text (PStr f) ''request fingerprint'' MAX_FINGERPRINT_BYTES = Inr f
    \<and> (\<exists>e. map_of (is_entries s1) (rv_key rv) = Some e \<and> ie_state e = RESERVED
         \<and> ie_token e = token \<and> ie_fingerprint e = f \<and> ie_expires_at e = rv_expires_at rv)"
proof -
  have inv1: "store_inv s1 \<and> same_config s s1"
    using reserve_ok [OF inv, of sha256 clk token "PStr t" "PStr k" "PStr f"] res
    by (auto simp: call_ok_def same_config_def)
  obtain bt: "bounded_text (PStr t) ''tenant_id'' MAX_TENANT_ID_BYTES = Inr t"
      "bounded_text (PStr k) ''idempotency key'' MAX_IDEMPOTENCY_KEY_BYTES = Inr k"
      "bounded_text (PStr f) ''request fingerprint'' MAX_FINGERPRINT_BYTES = Inr f"
    and body: "locked clk (reserve_body token t (sha256 (utf8 k)) f) s = (Inr (Reserved rv), s1)"
    using res by (auto simp: reserve_def bounded_text_def res_bind_Inr_iff split: if_splits sum.splits)
  then obtain now where now: "now_of clk = Inr now" by (cases "now_of clk") (auto simp: locked_def)
  have "reserve_body token t (sha256 (utf8 k)) f now (with_entries s (live now (is_entries s)))
      = (Inr (Reserved rv), s1)"
    using body by (simp add: expire_locked [OF inv now])
  from reserve_body_Reserved [OF live_inv [OF inv] this] show ?thesis
    using inv1 bt by (auto simp: rv_key_def)
qed

text \<open>What \<open>reserve\<close> answers while the entry under its key is live.\<close>

lemma reserve_on_live:
  assumes inv: "store_inv s" and e: "map_of (is_entries s) (t, sha256 (utf8 k)) = Some e"
    and bt: "bounded_text (PStr t) ''tenant_id'' MAX_TENANT_ID_BYTES = Inr t"
      "bounded_text (PStr k) ''idempotency key'' MAX_IDEMPOTENCY_KEY_BYTES = Inr k"
      "bounded_text (PStr f) ''request fingerprint'' MAX_FINGERPRINT_BYTES = Inr f"
    and now: "now_of clk = Inr now" "now < ie_expires_at e"
  shows "fst (reserve sha256 clk token (PStr t) (PStr k) (PStr f) s) =
    (if ie_fingerprint e \<noteq> f then Inl (Access IdempotencyConflictError)
     else if ie_state e = RESERVED
     then Inl (Access (IdempotencyInProgressError (ie_expires_at e - now)))
     else (case ie_response e of None \<Rightarrow> Inl (Access InvalidReservationError)
           | Some r \<Rightarrow> Inr (Replay r)))"
proof -
  have "map_of (live now (is_entries s)) (t, sha256 (utf8 k)) = Some e"
    using inv e now(2) by (intro live_keeps) (simp_all add: store_inv_def store_ok_def)
  then show ?thesis
    using bt now(2) by (auto simp: reserve_def expire_locked [OF inv now(1)] reserve_body_def
        split: option.split)
qed

text \<open>The entry of a reservation while nobody presents its token and its time is not over.\<close>

definition undisturbed :: "idem_reservation \<Rightarrow> idem_op list \<Rightarrow> bool" where
  "undisturbed rv ops \<longleftrightarrow>
     list_all (\<lambda>op. clock_before (rv_expires_at rv) op \<and> \<not> presents (rv_key rv) (rv_token rv) op) ops"

lemma reserved_persists:
  assumes "store_inv s"
    and res: "reserve sha256 clk token (PStr t) (PStr k) (PStr f) s = (Inr (Reserved rv), s1)"
    and ops: "undisturbed rv ops"
  shows "store_inv (idem_run sha256 ops s1) \<and> same_config s (idem_run sha256 ops s1)
    \<and> (\<exists>e. map_of (is_entries (idem_run sha256 ops s1)) (rv_key rv) = Some e
         \<and> ie_state e = RESERVED \<and> ie_token e = rv_token rv \<and> ie_fingerprint e = f
         \<and> ie_expires_at e = rv_expires_at rv)"
proof -
  note r = reserve_Reserved [OF assms(1) res]
  then obtain e where e: "map_of (is_entries s1) (rv_key rv) = Some e" "ie_state e = RESERVED"
      "ie_token e = rv_token rv" "ie_fingerprint e = f" "ie_expires_at e = rv_expires_at rv"
    by auto
  have "list_all (shielded s1 (rv_key rv) e) ops"
    using ops e by (auto simp: undisturbed_def list_all_iff shielded_def)
  then have "map_of (is_entries (idem_run sha256 ops s1)) (rv_key rv) = Some e"
    using r e(1) by (intro run_keeps) auto
  with e r run_inv [of s1 sha256 ops] show ?thesis by (auto intro: same_config_trans)
qed

text \<open>
  C10: Single flight. Once \<open>reserve\<close> has granted a reservation, then through any further
  calls made before it expires that do not present its token (reservations of other
  keys and tenants, expiries, evictions, commits and aborts of other tokens), a second
  \<open>reserve\<close> of the same tenant and key is refused: with the exact remaining time when
  the request is the same, with a conflict when it is another one. The work is never
  handed out twice.
\<close>

theorem idempotency_single_flight:
  assumes "make_store ttl reservation_ttl me mr mt ev = Inr s0"
    and "reserve sha256 clk token (PStr t) (PStr k) (PStr f) (idem_run sha256 ops0 s0)
         = (Inr (Reserved rv), s1)"
    and "undisturbed rv ops"
    and "bounded_text (PStr f2) ''request fingerprint'' MAX_FINGERPRINT_BYTES = Inr f2"
    and "now_of clk2 = Inr now" and "now < rv_expires_at rv"
  shows "fst (reserve sha256 clk2 token2 (PStr t) (PStr k) (PStr f2) (idem_run sha256 ops s1))
    = Inl (Access (if f2 = f then IdempotencyInProgressError (rv_expires_at rv - now)
                   else IdempotencyConflictError))"
proof -
  have inv: "store_inv (idem_run sha256 ops0 s0)"
    using run_inv make_store_inv [OF assms(1)] by blast
  note r = reserve_Reserved [OF inv assms(2)]
  note p = reserved_persists [OF inv assms(2,3)]
  with r obtain e where e: "map_of (is_entries (idem_run sha256 ops s1)) (t, sha256 (utf8 k)) = Some e"
      "ie_state e = RESERVED" "ie_fingerprint e = f" "ie_expires_at e = rv_expires_at rv"
    by auto
  show ?thesis
    using reserve_on_live [of _ t sha256 k e f2 clk2 now token2] p r e assms(4-6) by auto
qed

definition toy_reserved :: "idem_decision \<times> idem_store" where
  "toy_reserved =
     (Reserved \<lparr>rv_tenant_id = ''t'', rv_expires_at = 11, rv_key_digest = [107],
        rv_fingerprint = ''f'', rv_token = ''x''\<rparr>,
      toy_store\<lparr>is_entries := [((''t'', [107]), \<lparr>ie_fingerprint = ''f'', ie_token = ''x'',
           ie_state = RESERVED, ie_expires_at = 11, ie_response = None, ie_reserved_bytes = 8\<rparr>)],
        is_reserved_bytes := 8\<rparr>)"

definition toy_rv :: idem_reservation where
  "toy_rv = \<lparr>rv_tenant_id = ''t'', rv_expires_at = 11, rv_key_digest = [107],
     rv_fingerprint = ''f'', rv_token = ''x''\<rparr>"

lemma toy_reserve:
  "reserve (\<lambda>b. b) (PInt 1) ''x'' (PStr ''t'') (PStr ''k'') (PStr ''f'')
     (idem_run (\<lambda>b. b) [] toy_store) = (Inr (Reserved toy_rv), snd toy_reserved)"
  by (simp add: reserve_def toy_store_def toy_reserved_def toy_rv_def bounded_text_def
      MAX_TENANT_ID_BYTES_def MAX_IDEMPOTENCY_KEY_BYTES_def MAX_FINGERPRINT_BYTES_def utf8_def
      utf8_char_def code_def locked_def now_of_def float_overflow_def expire_def reserve_body_def
      make_room_def Let_def)

definition toy_other_ops :: "idem_op list" where
  "toy_other_ops = [OpReserve (PInt 2) ''y'' (PStr ''u'') (PStr ''k'') (PStr ''f''),
     OpCommit (PInt 3) (toy_rv\<lparr>rv_token := ''z''\<rparr>) toy_response]"

lemma toy_undisturbed: "undisturbed toy_rv toy_other_ops"
  by (simp add: undisturbed_def toy_other_ops_def clock_before_def now_of_def float_overflow_def
      toy_rv_def same_claim_def rv_key_def)

theorem idempotency_single_flight_witness:
  "fst (reserve (\<lambda>b. b) (PInt 4) ''w'' (PStr ''t'') (PStr ''k'') (PStr ''f'')
     (idem_run (\<lambda>b. b) toy_other_ops (snd toy_reserved)))
   = Inl (Access (IdempotencyInProgressError 7))"
proof -
  have "bounded_text (PStr ''f'') ''request fingerprint'' MAX_FINGERPRINT_BYTES = Inr ''f''"
    by (simp add: bounded_text_def MAX_FINGERPRINT_BYTES_def utf8_def utf8_char_def code_def)
  from idempotency_single_flight [OF toy_make_store toy_reserve toy_undisturbed this, of "PInt 4" 4 "''w''"]
  show ?thesis by (simp add: toy_rv_def now_of_def float_overflow_def)
qed

section \<open>The replay guarantee\<close>

lemma commit_held:
  assumes inv: "store_inv s" and ev: "\<not> is_evict_completed s"
    and e: "map_of (is_entries s) (rv_key rv) = Some e" "owns (Some e) rv"
    and now: "now_of clk = Inr now" "now < ie_expires_at e"
    and size: "size_bytes r \<le> is_max_response_bytes s"
  shows "\<exists>s1. commit clk rv r s = (Inr (), s1) \<and> store_inv s1 \<and> same_config s s1
    \<and> map_of (is_entries s1) (rv_key rv) = Some (completed e r (now + is_ttl s))"
proof -
  let ?s = "with_entries s (live now (is_entries s))"
  have inv': "store_inv ?s" by (rule live_inv [OF inv])
  have e': "map_of (is_entries ?s) (rv_key rv) = Some e"
    using inv e(1) now(2) by (simp add: live_keeps store_inv_def store_ok_def)
  have "\<not> is_evict_completed ?s" "size_bytes r \<le> is_max_response_bytes ?s" using ev size by simp_all
  from commit_body_hold [OF inv' this(1) e' e(2) this(2), of now]
  have body: "commit_body rv r now ?s = (Inr (), with_entries ?s (od_move_to_end (rv_key rv)
           (AList.update (rv_key rv) (completed e r (now + is_ttl ?s)) (is_entries ?s))))"
    and sound: "sound (rv_key rv) ?s (commit_body rv r now ?s)" by blast+
  from sound body have "store_inv (with_entries ?s (od_move_to_end (rv_key rv)
           (AList.update (rv_key rv) (completed e r (now + is_ttl ?s)) (is_entries ?s))))"
    by (simp add: sound_def)
  then show ?thesis
    using body size by (simp add: commit_def expire_locked [OF inv now(1)] same_config_def) blast
qed

text \<open>
  C11: The guarantee paid requests rely on (\<open>evict_completed_entries=False\<close>). Once
  \<open>reserve\<close> has granted a reservation, then after any other calls made before it
  expires, committing any response of at most \<open>max_response_bytes\<close> succeeds: a full
  store can only refuse the reservation, before the paid work, and never the result.
  From then on, through any calls whatever before the response expires, the same
  request is answered with exactly that response.
\<close>

theorem idempotency_replay_guarantee:
  assumes "make_store ttl reservation_ttl me mr mt (PBool False) = Inr s0"
    and "reserve sha256 clk token (PStr t) (PStr k) (PStr f) (idem_run sha256 ops0 s0)
         = (Inr (Reserved rv), s1)"
    and "undisturbed rv ops" and "s2 = idem_run sha256 ops s1"
    and "now_of clk2 = Inr now2" and "now2 < rv_expires_at rv"
    and "size_bytes r \<le> is_max_response_bytes s0"
    and "list_all (clock_before (now2 + is_ttl s0)) ops3"
    and "now_of clk3 = Inr now3" and "now3 < now2 + is_ttl s0"
  shows "\<exists>s3. commit clk2 rv r s2 = (Inr (), s3)
    \<and> fst (reserve sha256 clk3 token3 (PStr t) (PStr k) (PStr f) (idem_run sha256 ops3 s3))
      = Inr (Replay r)"
proof -
  let ?sA = "idem_run sha256 ops0 s0"
  have invA: "store_inv ?sA \<and> same_config s0 ?sA"
    using run_inv make_store_inv [OF assms(1)] by blast
  note r = reserve_Reserved [OF conjunct1 [OF invA] assms(2)]
  from reserved_persists [OF conjunct1 [OF invA] assms(2,3)] assms(4)
  obtain e where inv2: "store_inv s2" and cfg2: "same_config ?sA s2"
    and e: "map_of (is_entries s2) (rv_key rv) = Some e" "ie_state e = RESERVED"
      "ie_token e = rv_token rv" "ie_fingerprint e = f" "ie_expires_at e = rv_expires_at rv"
    by auto
  have fields: "is_ttl s2 = is_ttl s0 \<and> is_max_response_bytes s2 = is_max_response_bytes s0
      \<and> is_evict_completed s2 = is_evict_completed s0"
    using same_config_fields [OF same_config_trans [OF conjunct2 [OF invA] cfg2]] by simp
  have ev: "\<not> is_evict_completed s0"
    using assms(1) by (auto simp: make_store_def res_bind_Inr_iff)
  have "owns (Some e) rv" using e r by (simp add: owns_def)
  from commit_held [OF inv2 _ e(1) this assms(5), of r]
  obtain s3 where c: "commit clk2 rv r s2 = (Inr (), s3)" and inv3: "store_inv s3"
    and cfg3: "same_config s2 s3"
    and e3: "map_of (is_entries s3) (rv_key rv) = Some (completed e r (now2 + is_ttl s0))"
    using ev e(5) assms(6,7) fields by auto
  have "\<not> is_evict_completed s3" using same_config_fields [OF cfg3] ev fields by simp
  then have "list_all (shielded s3 (rv_key rv) (completed e r (now2 + is_ttl s0))) ops3"
    using assms(8) by (auto simp: shielded_def completed_def list_all_iff)
  from run_keeps [OF inv3 e3 this, of sha256]
  have e4: "map_of (is_entries (idem_run sha256 ops3 s3)) (t, sha256 (utf8 k))
      = Some (completed e r (now2 + is_ttl s0))" using r by simp
  have "fst (reserve sha256 clk3 token3 (PStr t) (PStr k) (PStr f) (idem_run sha256 ops3 s3))
      = Inr (Replay r)"
    using reserve_on_live [of "idem_run sha256 ops3 s3" t sha256 k _ f clk3 now3 token3] e4 r e(4)
      assms(9,10) run_inv [OF inv3]
    by (simp add: completed_def)
  with c show ?thesis by blast
qed

theorem idempotency_replay_guarantee_witness:
  "\<exists>s3. commit (PInt 5) toy_rv toy_response (idem_run (\<lambda>b. b) toy_other_ops (snd toy_reserved))
       = (Inr (), s3)
    \<and> fst (reserve (\<lambda>b. b) (PInt 60) ''w'' (PStr ''t'') (PStr ''k'') (PStr ''f'')
         (idem_run (\<lambda>b. b) [OpAbort (PInt 6) toy_rv] s3)) = Inr (Replay toy_response)"
  by (rule idempotency_replay_guarantee [OF toy_make_store toy_reserve toy_undisturbed refl,
        of "PInt 5" 5 toy_response "[OpAbort (PInt 6) toy_rv]" "PInt 60" 60 "''w''"])
    (simp_all add: toy_rv_def toy_store_def toy_response_def now_of_def float_overflow_def
      size_bytes_def clock_before_def utf8_def utf8_char_def code_def)

section \<open>Stale finalisation\<close>

text \<open>
  Only the holder of a live reservation can finalise it. In every reachable store,
  when no entry that is unexpired at the call is reserved under the presented key with
  the presented token and fingerprint (it expired, was finalised or taken over),
  \<open>commit\<close> raises \<open>InvalidReservationError\<close> and \<open>abort\<close> returns false, and both change
  nothing but removing the expired entries.
\<close>

theorem idempotency_stale_finalisation:
  assumes "make_store ttl reservation_ttl me mr mt ev = Inr s0" and "s = idem_run sha256 ops s0"
    and "now_of clk = Inr now" and "size_bytes r \<le> is_max_response_bytes s"
    and "\<And>e. map_of (is_entries s) (rv_key rv) = Some e \<Longrightarrow> now < ie_expires_at e \<Longrightarrow>
         \<not> owns (Some e) rv"
  shows "fst (commit clk rv r s) = Inl (Access InvalidReservationError)
    \<and> fst (abort clk rv s) = Inr False
    \<and> snd (commit clk rv r s) = snd (abort clk rv s)
    \<and> is_entries (snd (commit clk rv r s))
      = filter (\<lambda>ke. now < ie_expires_at (snd ke)) (is_entries s)"
proof -
  have inv: "store_inv s" using run_inv make_store_inv [OF assms(1)] assms(2) by blast
  have "\<not> owns (map_of (live now (is_entries s)) (rv_key rv)) rv"
  proof (cases "map_of (live now (is_entries s)) (rv_key rv)")
    case (Some e)
    then have "(rv_key rv, e) \<in> set (is_entries s)" and live: "now < ie_expires_at e"
      by (auto simp: live_def dest!: map_of_SomeD)
    then have "map_of (is_entries s) (rv_key rv) = Some e"
      using inv by (simp add: store_inv_def store_ok_def od_wf_def)
    from assms(5) [OF this live] show ?thesis by (simp add: Some)
  qed (simp add: owns_def)
  then show ?thesis
    using assms(4) by (simp add: commit_def abort_def expire_locked [OF inv assms(3)]
        commit_body_not_owner abort_body_def live_def)
qed

theorem idempotency_stale_finalisation_witness:
  "fst (commit (PInt 11) toy_rv toy_response (idem_run (\<lambda>b. b)
     [OpReserve (PInt 1) ''x'' (PStr ''t'') (PStr ''k'') (PStr ''f'')] toy_store))
   = Inl (Access InvalidReservationError)"
proof -
  let ?ops = "[OpReserve (PInt 1) ''x'' (PStr ''t'') (PStr ''k'') (PStr ''f'')]"
  have run: "idem_run (\<lambda>b. b) ?ops toy_store = snd toy_reserved"
    using toy_reserve by (simp add: result_of_def)
  have size: "size_bytes toy_response \<le> is_max_response_bytes (idem_run (\<lambda>b. b) ?ops toy_store)"
    unfolding run by (simp add: toy_reserved_def toy_store_def toy_response_def size_bytes_def
        utf8_def utf8_char_def code_def)
  have "\<not> owns (Some e) toy_rv"
    if "map_of (is_entries (idem_run (\<lambda>b. b) ?ops toy_store)) (rv_key toy_rv) = Some e"
      "11 < ie_expires_at e" for e
    using that unfolding run by (auto simp: toy_reserved_def toy_rv_def rv_key_def)
  moreover have "now_of (PInt 11) = Inr 11" by (simp add: now_of_def float_overflow_def)
  ultimately show ?thesis
    using idempotency_stale_finalisation [OF toy_make_store refl _ size] by blast
qed

end
