(* ===== verification/Access_Controller.thy ===== *)
theory Access_Controller
  imports Access_Quota Idempotency_Properties
begin

text \<open>
  \<open>AccessController\<close> of \<open>lucent/access.py\<close>: authentication, quota and idempotency joined.
  \<open>authorize\<close> charges the bucket of the tenant it authenticated and no other.
\<close>

section \<open>The controller\<close>

record controller =
  ac_authenticator :: "auth_record list"
  ac_quotas :: limiter
  ac_idempotency :: idem_store
  ac_tenant_ids :: "pystr list"

record access_grant =
  ag_tenant :: pystr
  ag_quota :: quota_receipt

record idem_settings =
  cs_idempotency_ttl :: pyval
  cs_reservation_ttl :: pyval
  cs_max_entries :: pyval
  cs_max_response_bytes :: pyval
  cs_max_total_response_bytes :: pyval
  cs_evict_completed :: pyval

text \<open>The keyword defaults of \<open>__init__\<close>.\<close>

definition default_idem_settings :: idem_settings where
  "default_idem_settings = \<lparr>cs_idempotency_ttl = PInt (24 * 60 * 60),
     cs_reservation_ttl = PInt 60, cs_max_entries = PInt 10000,
     cs_max_response_bytes = PInt (1024 * 1024),
     cs_max_total_response_bytes = PInt (64 * 1024 * 1024), cs_evict_completed = PBool True\<rparr>"

text \<open>\<open>{config.tenant_id: config.quota for config in configs}\<close>.\<close>

definition tenant_policies :: "tenant_config list \<Rightarrow> (pystr, quota_policy) odict" where
  "tenant_policies configs =
     foldl (\<lambda>d c. AList.update (tc_tenant_id c) (tc_quota c) d) [] configs"

definition make_controller :: "idem_settings \<Rightarrow> tenant_config list \<Rightarrow> py_exn + controller" where
  "make_controller st configs =
     res_bind (make_authenticator configs)
     (\<lambda>records. let policies = tenant_policies configs in
       res_bind (make_limiter policies)
     (\<lambda>quotas. res_bind (make_store (cs_idempotency_ttl st) (cs_reservation_ttl st)
         (cs_max_entries st) (cs_max_response_bytes st) (cs_max_total_response_bytes st)
         (cs_evict_completed st))
     (\<lambda>store. Inr \<lparr>ac_authenticator = records, ac_quotas = quotas, ac_idempotency = store,
        ac_tenant_ids = map fst policies\<rparr>)))"

definition authorize ::
  "(bytes \<Rightarrow> bytes) \<Rightarrow> pyval \<Rightarrow> pyval \<Rightarrow> pyval \<Rightarrow> (controller, access_failure, access_grant) st" where
  "authorize sha256 clk api_key cost c =
     (case authenticate sha256 (ac_authenticator c) api_key of
        Inl e \<Rightarrow> (Inl (Access e), c)
      | Inr tenant \<Rightarrow>
          (case consume clk tenant cost (ac_quotas c) of
             (r, quotas) \<Rightarrow>
               (case r of Inl e \<Rightarrow> Inl e
                | Inr quota \<Rightarrow> Inr \<lparr>ag_tenant = tenant, ag_quota = quota\<rparr>,
                c\<lparr>ac_quotas := quotas\<rparr>)))"

definition reserve_idempotency ::
  "(bytes \<Rightarrow> bytes) \<Rightarrow> pyval \<Rightarrow> pystr \<Rightarrow> pystr \<Rightarrow> pyval \<Rightarrow> pyval \<Rightarrow>
   (controller, access_failure, idem_decision) st" where
  "reserve_idempotency sha256 clk token tenant_id key fingerprint c =
     (if tenant_id \<notin> set (ac_tenant_ids c)
      then (Inl (Py (ValueError ''tenant is not configured'')), c)
      else (case reserve sha256 clk token (PStr tenant_id) key fingerprint (ac_idempotency c) of
              (r, store) \<Rightarrow> (r, c\<lparr>ac_idempotency := store\<rparr>)))"

section \<open>Facts\<close>

lemma tenant_policies_domain:
  "fst ` set (foldl (\<lambda>d c. AList.update (tc_tenant_id c) (tc_quota c) d) d cs)
   = fst ` set d \<union> tc_tenant_id ` set cs"
  by (induction cs arbitrary: d) (auto simp: dom_update)

lemma consume_other_bucket:
  "t' \<noteq> t \<Longrightarrow> map_of (lim_buckets (snd (consume clk t c l))) t' = map_of (lim_buckets l) t'"
  by (cases rule: consume_cases [of clk t c l]) (simp_all add: update_conv')

text \<open>The calls of a controller's life, for \<open>authorize\<close>: clock, credential and cost.\<close>

fun run_authorize :: "(bytes \<Rightarrow> bytes) \<Rightarrow> (pyval \<times> pyval \<times> pyval) list \<Rightarrow> controller \<Rightarrow> controller" where
  "run_authorize sha256 [] c = c"
| "run_authorize sha256 ((clk, key, cost) # rqs) c =
     run_authorize sha256 rqs (snd (authorize sha256 clk key cost c))"

lemma authorize_cases:
  obtains (refused) "authorize sha256 clk key cost c = (Inl (Access AuthenticationError), c)"
      "\<And>t. authenticate sha256 (ac_authenticator c) key \<noteq> Inr t"
  | (consumed) t where "authenticate sha256 (ac_authenticator c) key = Inr t"
      "authorize sha256 clk key cost c =
         (case fst (consume clk t cost (ac_quotas c)) of Inl e \<Rightarrow> Inl e
          | Inr q \<Rightarrow> Inr \<lparr>ag_tenant = t, ag_quota = q\<rparr>,
          c\<lparr>ac_quotas := snd (consume clk t cost (ac_quotas c))\<rparr>)"
proof (cases "authenticate sha256 (ac_authenticator c) key")
  case (Inl e)
  then show ?thesis
    using authenticate_result [of sha256 "ac_authenticator c" key] refused
    by (simp add: authorize_def)
next
  case (Inr t)
  then show ?thesis using consumed by (simp add: authorize_def case_prod_beta)
qed

lemma authorize_frame [simp]:
  "ac_authenticator (snd (authorize sha256 clk key cost c)) = ac_authenticator c"
  "lim_policies (ac_quotas (snd (authorize sha256 clk key cost c))) = lim_policies (ac_quotas c)"
  by (cases rule: authorize_cases [of sha256 clk key cost c]; simp)+

lemma run_authorize_frame [simp]:
  "ac_authenticator (run_authorize sha256 rqs c) = ac_authenticator c"
  "lim_policies (ac_quotas (run_authorize sha256 rqs c)) = lim_policies (ac_quotas c)"
  by (induction sha256 rqs c rule: run_authorize.induct) simp_all

text \<open>Every tenant the authenticator accepts has a quota policy.\<close>

lemma authenticated_has_policy:
  assumes "make_controller st configs = Inr c0"
    and "authenticate sha256 (ac_authenticator c0) key = Inr t"
  shows "\<exists>b cf. secret_bytes key = Inr b \<and> cf \<in> set configs \<and> tc_enabled cf
    \<and> tc_tenant_id cf = t \<and> parse_api_key_hash (PStr (tc_api_key_hash cf)) = Inr (sha256 b)
    \<and> map_of (lim_policies (ac_quotas c0)) t \<noteq> None"
proof -
  from assms(1) have au: "authenticator_records [] [] configs = Inr (ac_authenticator c0)"
    and pol: "lim_policies (ac_quotas c0) = tenant_policies configs"
    by (auto simp: make_controller_def make_authenticator_def res_bind_Inr_iff Let_def
        dest: make_limiter_policies)
  have dist: "distinct (map fst (ac_authenticator c0))"
    using authenticator_records_distinct [OF au] by blast
  from assms(2) obtain b cf where "secret_bytes key = Inr b" "cf \<in> set configs" "tc_enabled cf"
      "tc_tenant_id cf = t" "parse_api_key_hash (PStr (tc_api_key_hash cf)) = Inr (sha256 b)"
    by (auto simp: authenticate_iff [OF dist] authenticator_records_iff [OF au])
  moreover from this have "t \<in> fst ` set (tenant_policies configs)"
    by (auto simp: tenant_policies_def tenant_policies_domain)
  ultimately show ?thesis by (auto simp: pol map_of_eq_None_iff)
qed

text \<open>
  On any controller built from tenant configurations and after any calls,
  \<open>authorize\<close> either refuses the credential and changes nothing, or acts for exactly
  one tenant: an enabled configuration whose key hash the credential matches. It then
  leaves every other tenant's bucket and the idempotency store as they were, the grant
  names that tenant, and the tenant always has a quota policy.
\<close>

theorem authorize_isolation:
  assumes "make_controller st configs = Inr c0" and "c = run_authorize sha256 rqs c0"
    and "authorize sha256 clk key cost c = (r, c')"
  shows "(r = Inl (Access AuthenticationError) \<and> c' = c) \<or>
    (\<exists>b cf. secret_bytes key = Inr b \<and> cf \<in> set configs \<and> tc_enabled cf
       \<and> parse_api_key_hash (PStr (tc_api_key_hash cf)) = Inr (sha256 b)
       \<and> (\<forall>t. t \<noteq> tc_tenant_id cf \<longrightarrow>
            map_of (lim_buckets (ac_quotas c')) t = map_of (lim_buckets (ac_quotas c)) t)
       \<and> ac_idempotency c' = ac_idempotency c
       \<and> (\<forall>g. r = Inr g \<longrightarrow> ag_tenant g = tc_tenant_id cf)
       \<and> r \<noteq> Inl (Py (ValueError ''tenant has no configured quota policy'')))"
proof (cases rule: authorize_cases [of sha256 clk key cost c])
  case refused
  then show ?thesis using assms(3) by simp
next
  case (consumed t)
  have "authenticate sha256 (ac_authenticator c0) key = Inr t" using consumed(1) assms(2) by simp
  from authenticated_has_policy [OF assms(1) this] obtain b cf p where
    cf: "secret_bytes key = Inr b" "cf \<in> set configs" "tc_enabled cf" "tc_tenant_id cf = t"
      "parse_api_key_hash (PStr (tc_api_key_hash cf)) = Inr (sha256 b)"
    and p: "map_of (lim_policies (ac_quotas c)) t = Some p"
    using assms(2) by auto
  have "fst (consume clk t cost (ac_quotas c))
      \<noteq> Inl (Py (ValueError ''tenant has no configured quota policy''))"
    using p by (auto simp: consume_def positive_finite_def now_of_def Let_def
        split: sum.split prod.split pyval.split pyfloat.split)
  then show ?thesis
    using consumed assms(3) cf
    by (auto simp: consume_other_bucket split: sum.splits intro!: exI [where x = cf])
qed

definition toy_controller :: controller where
  "toy_controller = \<lparr>ac_authenticator = [(toy_digest (utf8 ''k1''), ''acme'', True)],
     ac_quotas = \<lparr>lim_policies = [(''acme'', default_quota_policy)], lim_buckets = []\<rparr>,
     ac_idempotency = \<lparr>is_ttl = 86400, is_reservation_ttl = 60, is_max_entries = 10000,
       is_max_response_bytes = 1048576, is_max_total_response_bytes = 67108864,
       is_evict_completed = True, is_entries = [], is_cached_bytes = 0, is_reserved_bytes = 0\<rparr>,
     ac_tenant_ids = [''acme'']\<rparr>"

lemma toy_make_controller: "make_controller default_idem_settings [toy_tenant] = Inr toy_controller"
proof -
  have "tenant_policies [toy_tenant] = [(''acme'', default_quota_policy)]"
    by (simp add: tenant_policies_def toy_tenant_def)
  then show ?thesis
    by (simp add: make_controller_def toy_authenticator make_limiter_def bounded_text_def
        MAX_TENANT_ID_BYTES_def make_store_def default_idem_settings_def positive_finite_def
        positive_int_def float_overflow_def guard_def toy_controller_def utf8_def utf8_char_def code_def)
qed

theorem authorize_isolation_witness:
  "\<exists>r c'. authorize toy_digest (PInt 5) (PStr ''k1'') (PInt 1) toy_controller = (r, c')
     \<and> r \<noteq> Inl (Py (ValueError ''tenant has no configured quota policy''))"
proof -
  obtain r c' where rc: "authorize toy_digest (PInt 5) (PStr ''k1'') (PInt 1) toy_controller = (r, c')"
    by fastforce
  from authorize_isolation [OF toy_make_controller, of toy_controller toy_digest "[]", OF _ rc]
  show ?thesis using rc by auto
qed

end
