(* ===== verification/Hosted_Cache.thy ===== *)
theory Hosted_Cache
  imports Access_Controller
begin

text \<open>
  \<open>VerifiedSourceCache\<close> of \<open>lucent/hosted.py\<close>: a byte-bounded, single-flight cache of
  verified contract sources with a short failure backoff. The critical sections of
  \<open>resolve\<close> are functions on the cache record; the interleaving of threads between them
  (the resolver runs outside the lock, waiters sleep on the condition variable) is the
  step relation \<open>cache_step\<close>. The result type and its \<open>cache_size_bytes\<close> (the length of
  an encoding) are parameters.
\<close>

section \<open>State\<close>

record 'r source_entry =
  se_result :: 'r
  se_expires_at :: rat
  se_size_bytes :: int

record source_failure =
  sf_code :: pystr
  sf_message :: pystr
  sf_expires_at :: rat

type_synonym source_key = "int \<times> pystr"

record 'r source_cache =
  sc_ttl :: rat
  sc_max_entries :: int
  sc_max_bytes :: int
  sc_negative_ttl :: rat
  sc_entries :: "(source_key, 'r source_entry) odict"
  sc_failures :: "(source_key, source_failure) odict"
  sc_inflight :: "source_key set"
  sc_cached_bytes :: int

text \<open>A number in an ordering comparison or \<open>float()\<close>: booleans count as integers.\<close>

fun num_of :: "pyval \<Rightarrow> pyfloat option" where
  "num_of (PBool b) = Some (Finite (if b then 1 else 0))"
| "num_of (PInt i) = Some (Finite (of_int i))"
| "num_of (PFloat f) = Some f"
| "num_of _ = None"

fun num_between :: "rat \<Rightarrow> pyfloat \<Rightarrow> rat \<Rightarrow> bool" where
  "num_between lo (Finite q) hi \<longleftrightarrow> lo \<le> q \<and> q \<le> hi"
| "num_between lo _ hi \<longleftrightarrow> False"

definition bounded_number :: "rat \<Rightarrow> pyval \<Rightarrow> rat \<Rightarrow> pystr \<Rightarrow> py_exn + rat" where
  "bounded_number lo v hi msg =
     (case num_of v of
        None \<Rightarrow> Inl (TypeError ''not supported between these operands'')
      | Some (Finite q) \<Rightarrow> if num_between lo (Finite q) hi then Inr q else Inl (ValueError msg)
      | Some _ \<Rightarrow> Inl (ValueError msg))"

definition positive_limit :: "pyval \<Rightarrow> pystr \<Rightarrow> py_exn + int" where
  "positive_limit v msg =
     (case v of PInt i \<Rightarrow> if i < 1 then Inl (ValueError msg) else Inr i
      | _ \<Rightarrow> Inl (ValueError msg))"

text \<open>\<open>__init__\<close>, for a callable resolver and clock.\<close>

definition make_cache :: "pyval \<Rightarrow> pyval \<Rightarrow> pyval \<Rightarrow> pyval \<Rightarrow> py_exn + 'r source_cache" where
  "make_cache ttl max_entries max_bytes negative_ttl =
     res_bind (bounded_number 1 ttl 60 ''source cache TTL is outside its safe range'')
     (\<lambda>t. res_bind (positive_limit max_entries ''source cache entry limit must be positive'')
     (\<lambda>me. res_bind (positive_limit max_bytes ''source cache byte limit must be positive'')
     (\<lambda>mb. res_bind (bounded_number 0 negative_ttl 2
                      ''source failure cache TTL is outside its safe range'')
     (\<lambda>nt. Inr \<lparr>sc_ttl = t, sc_max_entries = me, sc_max_bytes = mb, sc_negative_ttl = nt,
        sc_entries = [], sc_failures = [], sc_inflight = {}, sc_cached_bytes = 0\<rparr>))))"

section \<open>Critical sections\<close>

text \<open>\<open>_expire_locked\<close>: both loops, over copies of the items.\<close>

definition expire_entry ::
  "rat \<Rightarrow> 'r source_cache \<Rightarrow> source_key \<times> 'r source_entry \<Rightarrow> 'r source_cache" where
  "expire_entry now c ke =
     (if se_expires_at (snd ke) \<le> now
      then c\<lparr>sc_cached_bytes := sc_cached_bytes c - se_size_bytes (snd ke),
             sc_entries := AList.delete (fst ke) (sc_entries c)\<rparr>
      else c)"

definition expire_failure ::
  "rat \<Rightarrow> 'r source_cache \<Rightarrow> source_key \<times> source_failure \<Rightarrow> 'r source_cache" where
  "expire_failure now c kf =
     (if sf_expires_at (snd kf) \<le> now
      then c\<lparr>sc_failures := AList.delete (fst kf) (sc_failures c)\<rparr> else c)"

definition expire_locked :: "rat \<Rightarrow> 'r source_cache \<Rightarrow> 'r source_cache" where
  "expire_locked now c =
     (let c1 = foldl (expire_entry now) c (sc_entries c)
      in foldl (expire_failure now) c1 (sc_failures c1))"

text \<open>The eviction loop of \<open>_store_success_locked\<close>: pop the oldest entry while needed.\<close>

fun evict_sources ::
  "int \<Rightarrow> int \<Rightarrow> int \<Rightarrow> (source_key, 'r source_entry) odict \<Rightarrow> int \<Rightarrow>
   (source_key, 'r source_entry) odict \<times> int" where
  "evict_sources max_entries max_bytes sz [] cached = ([], cached)"
| "evict_sources max_entries max_bytes sz (ke # d) cached =
     (if max_entries \<le> int (length (ke # d)) \<or> max_bytes < cached + sz
      then evict_sources max_entries max_bytes sz d (cached - se_size_bytes (snd ke))
      else (ke # d, cached))"

definition store_success ::
  "('r \<Rightarrow> nat) \<Rightarrow> source_key \<Rightarrow> 'r \<Rightarrow> rat \<Rightarrow> 'r source_cache \<Rightarrow> 'r source_cache" where
  "store_success size_of key result now c =
     (let size = int (size_of result) in
      if sc_max_bytes c < size then c
      else
        let cached = (case map_of (sc_entries c) key of
                        None \<Rightarrow> sc_cached_bytes c
                      | Some e \<Rightarrow> sc_cached_bytes c - se_size_bytes e);
            (d, cached1) = evict_sources (sc_max_entries c) (sc_max_bytes c) size
                             (AList.delete key (sc_entries c)) cached
        in c\<lparr>sc_entries := AList.update key
               \<lparr>se_result = result, se_expires_at = now + sc_ttl c, se_size_bytes = size\<rparr> d,
             sc_cached_bytes := cached1 + size\<rparr>)"

text \<open>One turn of the first \<open>with self._condition\<close> block of \<open>resolve\<close>.\<close>

datatype 'r entry_result =
    Hit 'r
  | Backoff pystr pystr
  | Capacity
  | Lead
  | Wait

definition resolve_enter ::
  "source_key \<Rightarrow> rat \<Rightarrow> 'r source_cache \<Rightarrow> 'r entry_result \<times> 'r source_cache" where
  "resolve_enter key now c =
     (let c1 = expire_locked now c in
      case map_of (sc_entries c1) key of
        Some e \<Rightarrow> (Hit (se_result e), c1\<lparr>sc_entries := od_move_to_end key (sc_entries c1)\<rparr>)
      | None \<Rightarrow>
          (case map_of (sc_failures c1) key of
             Some f \<Rightarrow> (Backoff (sf_code f) (sf_message f),
                        c1\<lparr>sc_failures := od_move_to_end key (sc_failures c1)\<rparr>)
           | None \<Rightarrow>
               if key \<notin> sc_inflight c1 then
                 (if sc_max_entries c1 \<le> int (card (sc_inflight c1)) then (Capacity, c1)
                  else (Lead, c1\<lparr>sc_inflight := insert key (sc_inflight c1)\<rparr>))
               else (Wait, c1)))"

text \<open>The loop that trims the failures to \<open>max_entries\<close>, oldest first.\<close>

fun trim_failures :: "int \<Rightarrow> (source_key, source_failure) odict \<Rightarrow> (source_key, source_failure) odict" where
  "trim_failures m [] = []"
| "trim_failures m (kf # d) = (if m < int (length (kf # d)) then trim_failures m d else kf # d)"

text \<open>The three ways a resolver call ends: a \<open>VerifiedSourceError\<close>, another error, a result.\<close>

definition resolve_failed ::
  "source_key \<Rightarrow> pystr \<Rightarrow> pystr \<Rightarrow> rat \<Rightarrow> 'r source_cache \<Rightarrow> 'r source_cache" where
  "resolve_failed key cd msg now c =
     (let c1 = (if sc_negative_ttl c \<noteq> 0
                then c\<lparr>sc_failures := trim_failures (sc_max_entries c)
                       (od_move_to_end key (AList.update key
                          \<lparr>sf_code = cd, sf_message = msg,
                           sf_expires_at = now + sc_negative_ttl c\<rparr> (sc_failures c)))\<rparr>
                else c)
      in c1\<lparr>sc_inflight := sc_inflight c1 - {key}\<rparr>)"

definition resolve_raised :: "source_key \<Rightarrow> 'r source_cache \<Rightarrow> 'r source_cache" where
  "resolve_raised key c = c\<lparr>sc_inflight := sc_inflight c - {key}\<rparr>"

definition resolve_stored ::
  "('r \<Rightarrow> nat) \<Rightarrow> source_key \<Rightarrow> 'r \<Rightarrow> rat \<Rightarrow> 'r source_cache \<Rightarrow> 'r source_cache" where
  "resolve_stored size_of key result now c =
     (let c1 = store_success size_of key result now c
      in c1\<lparr>sc_inflight := sc_inflight c1 - {key}\<rparr>)"

section \<open>Threads\<close>

text \<open>
  Where a thread is in \<open>resolve\<close>: about to take the lock, asleep in
  \<open>self._condition.wait()\<close>, running the resolver, or done.
\<close>

datatype 'r thread =
    Idle
  | Entering source_key
  | Waiting source_key
  | Resolving source_key
  | Returned source_key 'r
  | Raised source_key

text \<open>\<open>notify_all\<close>: every sleeping thread goes back to take the lock.\<close>

definition notify_all :: "(nat \<Rightarrow> 'r thread) \<Rightarrow> nat \<Rightarrow> 'r thread" where
  "notify_all ts = (\<lambda>t. case ts t of Waiting key \<Rightarrow> Entering key | x \<Rightarrow> x)"

fun after_enter :: "source_key \<Rightarrow> 'r entry_result \<Rightarrow> 'r thread" where
  "after_enter key (Hit r) = Returned key r"
| "after_enter key (Backoff cd msg) = Raised key"
| "after_enter key Capacity = Raised key"
| "after_enter key Lead = Resolving key"
| "after_enter key Wait = Waiting key"

text \<open>The log records every successful resolver call with the time it was stored at.\<close>

record 'r cache_system =
  cs_cache :: "'r source_cache"
  cs_threads :: "nat \<Rightarrow> 'r thread"
  cs_log :: "(source_key \<times> 'r \<times> rat) list"

inductive cache_step :: "('r \<Rightarrow> nat) \<Rightarrow> 'r cache_system \<Rightarrow> 'r cache_system \<Rightarrow> bool"
  for size_of :: "'r \<Rightarrow> nat" where
  call: "cs_threads y t = Idle \<or> (\<exists>k r. cs_threads y t = Returned k r) \<or> (\<exists>k. cs_threads y t = Raised k) \<Longrightarrow>
    cache_step size_of y (y\<lparr>cs_threads := (cs_threads y)(t := Entering (chain_id, py_lower address))\<rparr>)"
| enter: "cs_threads y t = Entering key \<Longrightarrow> resolve_enter key now (cs_cache y) = (res, c) \<Longrightarrow>
    cache_step size_of y (y\<lparr>cs_cache := c, cs_threads := (cs_threads y)(t := after_enter key res)\<rparr>)"
| succeed: "cs_threads y t = Resolving key \<Longrightarrow>
    cache_step size_of y \<lparr>cs_cache = resolve_stored size_of key r now (cs_cache y),
      cs_threads = notify_all ((cs_threads y)(t := Returned key r)), cs_log = (key, r, now) # cs_log y\<rparr>"
| source_error: "cs_threads y t = Resolving key \<Longrightarrow>
    cache_step size_of y (y\<lparr>cs_cache := resolve_failed key cd msg now (cs_cache y),
      cs_threads := notify_all ((cs_threads y)(t := Raised key))\<rparr>)"
| other_error: "cs_threads y t = Resolving key \<Longrightarrow>
    cache_step size_of y (y\<lparr>cs_cache := resolve_raised key (cs_cache y),
      cs_threads := notify_all ((cs_threads y)(t := Raised key))\<rparr>)"

inductive_cases cache_stepE: "cache_step size_of y y'"

definition initial_system :: "'r source_cache \<Rightarrow> 'r cache_system" where
  "initial_system c = \<lparr>cs_cache = c, cs_threads = (\<lambda>_. Idle), cs_log = []\<rparr>"

definition cache_reachable :: "('r \<Rightarrow> nat) \<Rightarrow> 'r source_cache \<Rightarrow> 'r cache_system \<Rightarrow> bool" where
  "cache_reachable size_of c y \<longleftrightarrow> (cache_step size_of)\<^sup>*\<^sup>* (initial_system c) y"

section \<open>Facts\<close>

interpretation sources: weighed se_size_bytes "\<lambda>e. 0 \<le> se_size_bytes e"
  by unfold_locales simp

lemma delete_as_filter: "od_wf d \<Longrightarrow> (k, v) \<in> set d \<Longrightarrow> AList.delete k d = filter (\<lambda>ke. ke \<noteq> (k, v)) d"
  unfolding AList.delete_eq
  by (rule filter_cong) (auto simp: od_wf_def dest: eq_key_imp_eq_value)

lemma expire_entries_fold:
  "od_wf (sc_entries c) \<Longrightarrow> set kes \<subseteq> set (sc_entries c) \<Longrightarrow> distinct kes \<Longrightarrow>
   sc_cached_bytes c = od_total se_size_bytes (sc_entries c) \<Longrightarrow>
   foldl (expire_entry now) c kes =
     (let d = filter (\<lambda>ke. \<not> (ke \<in> set kes \<and> se_expires_at (snd ke) \<le> now)) (sc_entries c)
      in c\<lparr>sc_entries := d, sc_cached_bytes := od_total se_size_bytes d\<rparr>)"
proof (induction kes arbitrary: c)
  case Nil
  then show ?case by simp
next
  case (Cons ke kes)
  show ?case
  proof (cases "se_expires_at (snd ke) \<le> now")
    case True
    let ?d = "AList.delete (fst ke) (sc_entries c)"
    let ?c = "c\<lparr>sc_cached_bytes := sc_cached_bytes c - se_size_bytes (snd ke), sc_entries := ?d\<rparr>"
    have mem: "map_of (sc_entries c) (fst ke) = Some (snd ke)"
      using Cons.prems(1,2) by (simp add: od_wf_def)
    have d: "?d = filter (\<lambda>x. x \<noteq> ke) (sc_entries c)"
      using delete_as_filter [OF Cons.prems(1), of "fst ke" "snd ke"] Cons.prems(2) by simp
    have "foldl (expire_entry now) ?c kes =
     (let d = filter (\<lambda>ke. \<not> (ke \<in> set kes \<and> se_expires_at (snd ke) \<le> now)) (sc_entries ?c)
      in ?c\<lparr>sc_entries := d, sc_cached_bytes := od_total se_size_bytes d\<rparr>)"
    proof (rule Cons.IH)
      show "sc_cached_bytes ?c = od_total se_size_bytes (sc_entries ?c)"
        using Cons.prems(1,4) mem by (simp add: od_total_delete)
      show "set kes \<subseteq> set (sc_entries ?c)" using Cons.prems(2,3) by (auto simp: d)
    qed (use Cons.prems(1,3) in simp_all)
    moreover have "filter (\<lambda>ke. \<not> (ke \<in> set kes \<and> se_expires_at (snd ke) \<le> now)) (sc_entries ?c)
        = filter (\<lambda>x. \<not> (x \<in> set (ke # kes) \<and> se_expires_at (snd x) \<le> now)) (sc_entries c)"
      using True by (auto simp: d intro: filter_cong)
    moreover have "expire_entry now c ke = ?c" using True by (simp add: expire_entry_def)
    ultimately show ?thesis by (simp only: foldl.simps) (simp add: Let_def)
  next
    case False
    then have "filter (\<lambda>x. \<not> (x \<in> set kes \<and> se_expires_at (snd x) \<le> now)) (sc_entries c)
        = filter (\<lambda>x. \<not> (x \<in> set (ke # kes) \<and> se_expires_at (snd x) \<le> now)) (sc_entries c)"
      by (auto intro: filter_cong)
    then show ?thesis using False Cons by (simp add: expire_entry_def)
  qed
qed

lemma expire_failures_fold:
  "od_wf (sc_failures c) \<Longrightarrow> set kfs \<subseteq> set (sc_failures c) \<Longrightarrow> distinct kfs \<Longrightarrow>
   foldl (expire_failure now) c kfs =
     c\<lparr>sc_failures := filter (\<lambda>kf. \<not> (kf \<in> set kfs \<and> sf_expires_at (snd kf) \<le> now)) (sc_failures c)\<rparr>"
proof (induction kfs arbitrary: c)
  case Nil
  then show ?case by simp
next
  case (Cons kf kfs)
  show ?case
  proof (cases "sf_expires_at (snd kf) \<le> now")
    case True
    let ?c = "c\<lparr>sc_failures := AList.delete (fst kf) (sc_failures c)\<rparr>"
    have d: "AList.delete (fst kf) (sc_failures c) = filter (\<lambda>x. x \<noteq> kf) (sc_failures c)"
      using delete_as_filter [OF Cons.prems(1), of "fst kf" "snd kf"] Cons.prems(2) by simp
    have "foldl (expire_failure now) ?c kfs = ?c\<lparr>sc_failures :=
        filter (\<lambda>kf. \<not> (kf \<in> set kfs \<and> sf_expires_at (snd kf) \<le> now)) (sc_failures ?c)\<rparr>"
      using Cons.prems by (intro Cons.IH) (auto simp: d)
    moreover have "filter (\<lambda>kf. \<not> (kf \<in> set kfs \<and> sf_expires_at (snd kf) \<le> now)) (sc_failures ?c)
        = filter (\<lambda>x. \<not> (x \<in> set (kf # kfs) \<and> sf_expires_at (snd x) \<le> now)) (sc_failures c)"
      using True by (auto simp: d intro: filter_cong)
    moreover have "expire_failure now c kf = ?c" using True by (simp add: expire_failure_def)
    ultimately show ?thesis by (simp only: foldl.simps) simp
  next
    case False
    then have "filter (\<lambda>x. \<not> (x \<in> set kfs \<and> sf_expires_at (snd x) \<le> now)) (sc_failures c)
        = filter (\<lambda>x. \<not> (x \<in> set (kf # kfs) \<and> sf_expires_at (snd x) \<le> now)) (sc_failures c)"
      by (auto intro: filter_cong)
    then show ?thesis using False Cons by (simp add: expire_failure_def)
  qed
qed

section \<open>Invariant of the cache\<close>

definition cache_config :: "'r source_cache \<Rightarrow> bool" where
  "cache_config c \<longleftrightarrow> 1 \<le> sc_max_entries c \<and> 1 \<le> sc_max_bytes c \<and> 1 \<le> sc_ttl c
     \<and> 0 \<le> sc_negative_ttl c"

definition cache_ok :: "'r source_cache \<Rightarrow> bool" where
  "cache_ok c \<longleftrightarrow> cache_config c \<and> od_wf (sc_entries c) \<and> od_wf (sc_failures c)
     \<and> sc_cached_bytes c = od_total se_size_bytes (sc_entries c)
     \<and> list_all (\<lambda>ke. 0 \<le> se_size_bytes (snd ke)) (sc_entries c)
     \<and> sc_cached_bytes c \<le> sc_max_bytes c
     \<and> int (length (sc_entries c)) \<le> sc_max_entries c
     \<and> int (length (sc_failures c)) \<le> sc_max_entries c
     \<and> finite (sc_inflight c) \<and> int (card (sc_inflight c)) \<le> sc_max_entries c"

lemma expire_locked_eq:
  assumes ok: "cache_ok c"
  shows "expire_locked now c =
    (let d = filter (\<lambda>ke. now < se_expires_at (snd ke)) (sc_entries c)
     in c\<lparr>sc_entries := d, sc_cached_bytes := od_total se_size_bytes d,
          sc_failures := filter (\<lambda>kf. now < sf_expires_at (snd kf)) (sc_failures c)\<rparr>)"
proof -
  have dist: "distinct (sc_entries c)" "distinct (sc_failures c)"
    using ok by (simp_all add: cache_ok_def od_wf_def distinct_map)
  have e: "filter (\<lambda>ke. \<not> (ke \<in> set (sc_entries c) \<and> se_expires_at (snd ke) \<le> now)) (sc_entries c)
      = filter (\<lambda>ke. now < se_expires_at (snd ke)) (sc_entries c)"
    by (rule filter_cong) auto
  have f: "filter (\<lambda>ke. \<not> (ke \<in> set (sc_failures c) \<and> sf_expires_at (snd ke) \<le> now)) (sc_failures c)
      = filter (\<lambda>ke. now < sf_expires_at (snd ke)) (sc_failures c)"
    by (rule filter_cong) auto
  have "foldl (expire_entry now) c (sc_entries c) =
    (let d = filter (\<lambda>ke. now < se_expires_at (snd ke)) (sc_entries c)
     in c\<lparr>sc_entries := d, sc_cached_bytes := od_total se_size_bytes d\<rparr>)"
    using expire_entries_fold [of c "sc_entries c" now] ok dist e by (simp add: cache_ok_def)
  moreover have "foldl (expire_failure now) c1 (sc_failures c1) =
      c1\<lparr>sc_failures := filter (\<lambda>kf. now < sf_expires_at (snd kf)) (sc_failures c1)\<rparr>"
    if "sc_failures c1 = sc_failures c" for c1 :: "'a source_cache"
    using expire_failures_fold [of c1 "sc_failures c" now] that dist(2) ok f
    by (simp add: cache_ok_def)
  ultimately show ?thesis by (simp add: expire_locked_def Let_def)
qed

lemma length_filter_int: "int (length d) \<le> m \<Longrightarrow> int (length (filter P d)) \<le> m"
  by (rule order_trans [OF of_nat_mono [OF length_filter_le]])

lemma list_all_filterI: "list_all P d \<Longrightarrow> list_all P (filter Q d)"
  by (auto simp: list_all_iff)

lemma expire_locked_ok: "cache_ok c \<Longrightarrow> cache_ok (expire_locked now c)"
  by (auto simp: expire_locked_eq Let_def cache_ok_def cache_config_def length_filter_int
      list_all_filterI intro: order_trans [OF sources.total_filter_le])

lemma evict_sources_eq:
  "od_wf d \<Longrightarrow> list_all (\<lambda>ke. 0 \<le> se_size_bytes (snd ke)) d \<Longrightarrow> cached = od_total se_size_bytes d \<Longrightarrow>
   1 \<le> me \<Longrightarrow> sz \<le> mb \<Longrightarrow>
   \<exists>n. evict_sources me mb sz d cached = (drop n d, od_total se_size_bytes (drop n d))
     \<and> int (length (drop n d)) < me \<and> od_total se_size_bytes (drop n d) + sz \<le> mb"
proof (induction me mb sz d cached rule: evict_sources.induct)
  case (1 me mb sz cached)
  then show ?case by simp
next
  case (2 me mb sz ke d cached)
  show ?case
  proof (cases "me \<le> int (length (ke # d)) \<or> mb < cached + sz")
    case True
    have "od_wf d" using 2(2) by (simp add: od_wf_def)
    from "2.IH" [OF True this] "2.prems" obtain n where
      "evict_sources me mb sz d (cached - se_size_bytes (snd ke)) = (drop n d, od_total se_size_bytes (drop n d))"
      "int (length (drop n d)) < me" "od_total se_size_bytes (drop n d) + sz \<le> mb" by auto
    then show ?thesis using True by (intro exI [of _ "Suc n"]) simp
  next
    case False
    then show ?thesis using 2(4) by (intro exI [of _ 0]) auto
  qed
qed

lemma drop_wf: "od_wf d \<Longrightarrow> od_wf (drop n d)"
  by (simp add: od_wf_def drop_map [symmetric])

lemma list_all_drop: "list_all P d \<Longrightarrow> list_all P (drop n d)"
  by (auto simp: list_all_iff dest: in_set_dropD)

text \<open>
  Storing a result that fits replaces the key's entry and drops oldest entries; one that
  does not fit changes nothing.
\<close>

lemma store_success_eq:
  assumes ok: "cache_ok c"
  shows "(sc_max_bytes c < int (size_of r) \<and> store_success size_of k r now c = c) \<or>
    (\<exists>n. int (size_of r) \<le> sc_max_bytes c
       \<and> store_success size_of k r now c =
        (let d = drop n (AList.delete k (sc_entries c)) @
             [(k, \<lparr>se_result = r, se_expires_at = now + sc_ttl c, se_size_bytes = int (size_of r)\<rparr>)]
         in c\<lparr>sc_entries := d, sc_cached_bytes := od_total se_size_bytes d\<rparr>)
       \<and> int (length (drop n (AList.delete k (sc_entries c)))) < sc_max_entries c
       \<and> od_total se_size_bytes (drop n (AList.delete k (sc_entries c))) + int (size_of r) \<le> sc_max_bytes c)"
proof (cases "sc_max_bytes c < int (size_of r)")
  case True
  then show ?thesis by (simp add: store_success_def)
next
  case False
  let ?d = "AList.delete k (sc_entries c)"
  have cached: "(case map_of (sc_entries c) k of None \<Rightarrow> sc_cached_bytes c
      | Some e \<Rightarrow> sc_cached_bytes c - se_size_bytes e) = od_total se_size_bytes ?d"
    using ok by (auto simp: cache_ok_def od_total_delete split: option.split)
  have "list_all (\<lambda>ke. 0 \<le> se_size_bytes (snd ke)) ?d"
    using ok by (simp add: cache_ok_def list_all_delete)
  from evict_sources_eq [OF _ this refl, of "sc_max_entries c" "int (size_of r)" "sc_max_bytes c"]
  obtain n where ev: "evict_sources (sc_max_entries c) (sc_max_bytes c) (int (size_of r)) ?d
        (od_total se_size_bytes ?d) = (drop n ?d, od_total se_size_bytes (drop n ?d))"
    and bounds: "int (length (drop n ?d)) < sc_max_entries c"
      "od_total se_size_bytes (drop n ?d) + int (size_of r) \<le> sc_max_bytes c"
    using ok False by (auto simp: cache_ok_def cache_config_def)
  have "map_of (drop n ?d) k = None"
    by (auto simp: map_of_eq_None_iff AList.delete_eq dest: in_set_dropD)
  then show ?thesis
    using False cached ev bounds
    by (intro disjI2 exI [of _ n]) (simp add: store_success_def Let_def update_absent)
qed

lemma store_success_ok:
  assumes ok: "cache_ok c"
  shows "cache_ok (store_success size_of k r now c)"
  using store_success_eq [OF ok, of size_of r k now]
proof
  assume "sc_max_bytes c < int (size_of r) \<and> store_success size_of k r now c = c"
  then show ?thesis using ok by simp
next
  assume "\<exists>n. int (size_of r) \<le> sc_max_bytes c
       \<and> store_success size_of k r now c =
        (let d = drop n (AList.delete k (sc_entries c)) @
             [(k, \<lparr>se_result = r, se_expires_at = now + sc_ttl c, se_size_bytes = int (size_of r)\<rparr>)]
         in c\<lparr>sc_entries := d, sc_cached_bytes := od_total se_size_bytes d\<rparr>)
       \<and> int (length (drop n (AList.delete k (sc_entries c)))) < sc_max_entries c
       \<and> od_total se_size_bytes (drop n (AList.delete k (sc_entries c))) + int (size_of r) \<le> sc_max_bytes c"
  then obtain n where eq: "store_success size_of k r now c =
        (let d = drop n (AList.delete k (sc_entries c)) @
             [(k, \<lparr>se_result = r, se_expires_at = now + sc_ttl c, se_size_bytes = int (size_of r)\<rparr>)]
         in c\<lparr>sc_entries := d, sc_cached_bytes := od_total se_size_bytes d\<rparr>)"
    and b: "int (length (drop n (AList.delete k (sc_entries c)))) < sc_max_entries c"
       "od_total se_size_bytes (drop n (AList.delete k (sc_entries c))) + int (size_of r) \<le> sc_max_bytes c"
    by blast
  have "od_wf (drop n (AList.delete k (sc_entries c)))"
    "list_all (\<lambda>ke. 0 \<le> se_size_bytes (snd ke)) (drop n (AList.delete k (sc_entries c)))"
    using ok by (simp_all add: cache_ok_def drop_wf list_all_drop list_all_delete)
  moreover have "k \<notin> fst ` set (drop n (AList.delete k (sc_entries c)))"
    by (auto simp: AList.delete_eq dest: in_set_dropD)
  ultimately show ?thesis
    using ok b by (simp add: eq Let_def cache_ok_def cache_config_def od_wf_def)
qed

lemma trim_failures_drop: "\<exists>n. trim_failures m d = drop n d"
proof (induction m d rule: trim_failures.induct)
  case (1 m)
  then show ?case by simp
next
  case (2 m kf d)
  then show ?case by (metis drop0 drop_Suc_Cons trim_failures.simps(2))
qed

lemma trim_failures_length: "0 \<le> m \<Longrightarrow> int (length (trim_failures m d)) \<le> m"
  by (induction m d rule: trim_failures.induct) auto

lemma trim_failures_ok:
  "1 \<le> m \<Longrightarrow> od_wf d \<Longrightarrow> od_wf (trim_failures m d) \<and> int (length (trim_failures m d)) \<le> m"
  using trim_failures_drop [of m d] trim_failures_length [of m d] by (auto simp: drop_wf)

lemma card_less_minus: "finite S \<Longrightarrow> int (card S) \<le> m \<Longrightarrow> int (card (S - {k})) \<le> m"
  by (rule order_trans [OF of_nat_mono [OF card_Diff1_le]])

lemma resolve_failed_ok: "cache_ok c \<Longrightarrow> cache_ok (resolve_failed k cd msg now c)"
  by (simp add: resolve_failed_def Let_def cache_ok_def cache_config_def card_less_minus trim_failures_ok)

lemma resolve_raised_ok: "cache_ok c \<Longrightarrow> cache_ok (resolve_raised k c)"
  by (simp add: resolve_raised_def cache_ok_def cache_config_def card_less_minus)

lemma resolve_stored_ok: "cache_ok c \<Longrightarrow> cache_ok (resolve_stored size_of k r now c)"
  using store_success_ok [of c size_of k r now]
  by (simp add: resolve_stored_def Let_def cache_ok_def cache_config_def card_less_minus)

lemma resolve_enter_ok:
  assumes "cache_ok c"
  shows "cache_ok (snd (resolve_enter k now c))"
proof -
  have ok: "cache_ok (expire_locked now c)" by (rule expire_locked_ok [OF assms])
  then show ?thesis
    by (auto simp: resolve_enter_def Let_def cache_ok_def cache_config_def list_all_iff
        split: option.split)
qed

lemma positive_limit_pos: "positive_limit v m = Inr i \<Longrightarrow> 1 \<le> i"
  by (auto simp: positive_limit_def split: pyval.splits if_splits)

lemma bounded_number_Inr: "bounded_number lo v hi m = Inr q \<Longrightarrow> lo \<le> q \<and> q \<le> hi"
  by (auto simp: bounded_number_def split: option.splits pyfloat.splits if_splits)

lemma make_cache_ok:
  "make_cache ttl me mb nt = Inr c \<Longrightarrow> cache_ok c \<and> sc_entries c = [] \<and> sc_failures c = []
     \<and> sc_inflight c = {} \<and> sc_ttl c \<le> 60"
  by (auto simp: make_cache_def res_bind_Inr_iff cache_ok_def cache_config_def
      dest!: positive_limit_pos bounded_number_Inr)

section \<open>Invariant of the threads\<close>

definition logged :: "'r cache_system \<Rightarrow> bool" where
  "logged y \<longleftrightarrow>
     (\<forall>k e. (k, e) \<in> set (sc_entries (cs_cache y)) \<longrightarrow>
        (k, se_result e, se_expires_at e - sc_ttl (cs_cache y)) \<in> set (cs_log y))
     \<and> (\<forall>t k r. cs_threads y t = Returned k r \<longrightarrow> (\<exists>time. (k, r, time) \<in> set (cs_log y)))"

definition flights :: "'r cache_system \<Rightarrow> bool" where
  "flights y \<longleftrightarrow>
     (\<forall>k. k \<in> sc_inflight (cs_cache y) \<longleftrightarrow> (\<exists>t. cs_threads y t = Resolving k))
     \<and> (\<forall>t t' k. cs_threads y t = Resolving k \<longrightarrow> cs_threads y t' = Resolving k \<longrightarrow> t = t')
     \<and> (\<forall>t k. cs_threads y t = Waiting k \<longrightarrow> k \<in> sc_inflight (cs_cache y))"

definition system_ok :: "'r cache_system \<Rightarrow> bool" where
  "system_ok y \<longleftrightarrow> cache_ok (cs_cache y) \<and> flights y \<and> logged y"

lemma notify_all_simps [simp]:
  "notify_all ts t \<noteq> Waiting k"
  "notify_all ts t = Resolving k \<longleftrightarrow> ts t = Resolving k"
  "notify_all ts t = Returned k r \<longleftrightarrow> ts t = Returned k r"
  by (simp_all add: notify_all_def split: thread.split)

lemma expire_locked_fields [simp]:
  "cache_ok c \<Longrightarrow> sc_inflight (expire_locked now c) = sc_inflight c"
  "cache_ok c \<Longrightarrow> sc_ttl (expire_locked now c) = sc_ttl c"
  by (simp_all add: expire_locked_eq Let_def)

text \<open>What one turn at the lock does to the flights and the entries.\<close>

lemma resolve_enter_cases:
  assumes ok: "cache_ok c" and step: "resolve_enter k now c = (res, c')"
  shows "sc_ttl c' = sc_ttl c \<and> set (sc_entries c') \<subseteq> set (sc_entries c)
    \<and> sc_inflight c' = (if res = Lead then insert k (sc_inflight c) else sc_inflight c)
    \<and> (res = Lead \<longrightarrow> k \<notin> sc_inflight c) \<and> (res = Wait \<longrightarrow> k \<in> sc_inflight c)
    \<and> (\<forall>r. res = Hit r \<longrightarrow> (\<exists>e. (k, e) \<in> set (sc_entries c) \<and> se_result e = r \<and> now < se_expires_at e))"
proof -
  have ok1: "cache_ok (expire_locked now c)" by (rule expire_locked_ok [OF ok])
  then have wf: "od_wf (sc_entries (expire_locked now c))" by (simp add: cache_ok_def)
  have sub: "set (sc_entries (expire_locked now c)) =
      {ke \<in> set (sc_entries c). now < se_expires_at (snd ke)}"
    by (auto simp: expire_locked_eq [OF ok] Let_def)
  let ?c = "expire_locked now c"
  show ?thesis
  proof (cases "map_of (sc_entries ?c) k")
    case (Some e)
    then have "(k, e) \<in> set (sc_entries ?c)" by (rule map_of_SomeD)
    moreover have "res = Hit (se_result e)" "c' = ?c\<lparr>sc_entries := od_move_to_end k (sc_entries ?c)\<rparr>"
      using step Some by (simp_all add: resolve_enter_def Let_def)
    ultimately show ?thesis using ok wf by (auto simp: sub)
  next
    case none: None
    show ?thesis
    proof (cases "map_of (sc_failures ?c) k")
      case (Some f)
      then have "res = Backoff (sf_code f) (sf_message f)"
          "c' = ?c\<lparr>sc_failures := od_move_to_end k (sc_failures ?c)\<rparr>"
        using step none by (simp_all add: resolve_enter_def Let_def)
      then show ?thesis using ok by (auto simp: sub)
    next
      case None
      then have "res = (if k \<notin> sc_inflight c then
            if sc_max_entries ?c \<le> int (card (sc_inflight c)) then Capacity else Lead else Wait)
        \<and> c' = (if res = Lead then ?c\<lparr>sc_inflight := insert k (sc_inflight c)\<rparr> else ?c)"
        using step none ok by (auto simp: resolve_enter_def Let_def split: if_splits)
      then show ?thesis using ok by (auto simp: sub split: if_splits)
    qed
  qed
qed

section \<open>Every step keeps the invariant\<close>

lemma flights_iff:
  "flights y \<Longrightarrow> k \<in> sc_inflight (cs_cache y) \<longleftrightarrow> (\<exists>t. cs_threads y t = Resolving k)"
  unfolding flights_def by blast

lemma flights_unique:
  "flights y \<Longrightarrow> cs_threads y t = Resolving k \<Longrightarrow> cs_threads y t' = Resolving k \<Longrightarrow> t = t'"
  unfolding flights_def by blast

lemma flights_waiting: "flights y \<Longrightarrow> cs_threads y t = Waiting k \<Longrightarrow> k \<in> sc_inflight (cs_cache y)"
  unfolding flights_def by blast

lemma resolving_update:
  "\<not> (\<exists>k. ts t = Resolving k) \<Longrightarrow> (\<exists>t'. (ts(t := x)) t' = Resolving k) \<longleftrightarrow> x = Resolving k \<or> (\<exists>t'. ts t' = Resolving k)"
  by (metis fun_upd_apply)

text \<open>A thread outside the resolver changes place, taking a flight or not.\<close>

lemma flights_move:
  assumes "flights y" and "\<not> (\<exists>k. cs_threads y t = Resolving k)"
    and "\<And>k. x = Waiting k \<Longrightarrow> k \<in> sc_inflight c"
    and "sc_inflight c = sc_inflight (cs_cache y) \<union> {k. x = Resolving k}"
    and "\<And>k. x = Resolving k \<Longrightarrow> k \<notin> sc_inflight (cs_cache y)"
  shows "flights (y\<lparr>cs_cache := c, cs_threads := (cs_threads y)(t := x)\<rparr>)"
  unfolding flights_def
proof (intro conjI allI impI)
  let ?ts = "(cs_threads y)(t := x)"
  fix k
  show "k \<in> sc_inflight (cs_cache (y\<lparr>cs_cache := c, cs_threads := ?ts\<rparr>))
      \<longleftrightarrow> (\<exists>t'. cs_threads (y\<lparr>cs_cache := c, cs_threads := ?ts\<rparr>) t' = Resolving k)"
    using assms(4) resolving_update [of "cs_threads y" t x k, OF assms(2)]
      flights_iff [OF assms(1), of k] by auto
  fix t1 t2
  assume "cs_threads (y\<lparr>cs_cache := c, cs_threads := ?ts\<rparr>) t1 = Resolving k"
    "cs_threads (y\<lparr>cs_cache := c, cs_threads := ?ts\<rparr>) t2 = Resolving k"
  then show "t1 = t2"
    using flights_unique [OF assms(1), of t1 k t2] flights_iff [OF assms(1), of k] assms(5) [of k]
    by (auto split: if_splits)
next
  fix t' k
  assume "cs_threads (y\<lparr>cs_cache := c, cs_threads := (cs_threads y)(t := x)\<rparr>) t' = Waiting k"
  then show "k \<in> sc_inflight (cs_cache (y\<lparr>cs_cache := c, cs_threads := (cs_threads y)(t := x)\<rparr>))"
    using flights_waiting [OF assms(1), of t' k] assms(3) [of k] assms(4) by (auto split: if_splits)
qed

lemma logged_entry: "logged y \<Longrightarrow> (k, e) \<in> set (sc_entries (cs_cache y)) \<Longrightarrow>
    (k, se_result e, se_expires_at e - sc_ttl (cs_cache y)) \<in> set (cs_log y)"
  by (cases k) (auto simp: logged_def)

lemma logged_returned:
  "logged y \<Longrightarrow> cs_threads y t = Returned k r \<Longrightarrow> \<exists>time. (k, r, time) \<in> set (cs_log y)"
  unfolding logged_def by blast

text \<open>The log covers a new state whose entries and results it covers.\<close>

lemma loggedI:
  assumes "logged y" and "set (cs_log y) \<subseteq> set l" and "sc_ttl c = sc_ttl (cs_cache y)"
    and "\<And>k e. (k, e) \<in> set (sc_entries c) \<Longrightarrow> (k, e) \<in> set (sc_entries (cs_cache y))
        \<or> (k, se_result e, se_expires_at e - sc_ttl c) \<in> set l"
    and "\<And>t k r. ts t = Returned k r \<Longrightarrow> cs_threads y t = Returned k r \<or> (\<exists>time. (k, r, time) \<in> set l)"
  shows "logged \<lparr>cs_cache = c, cs_threads = ts, cs_log = l\<rparr>"
  unfolding logged_def
proof (intro conjI allI impI)
  fix k e
  assume "(k, e) \<in> set (sc_entries (cs_cache \<lparr>cs_cache = c, cs_threads = ts, cs_log = l\<rparr>))"
  then show "(k, se_result e, se_expires_at e - sc_ttl (cs_cache \<lparr>cs_cache = c, cs_threads = ts, cs_log = l\<rparr>))
      \<in> set (cs_log \<lparr>cs_cache = c, cs_threads = ts, cs_log = l\<rparr>)"
    using logged_entry [OF assms(1), of k e] assms(2,3) assms(4) [of k e] by auto
next
  fix t k r
  assume "cs_threads \<lparr>cs_cache = c, cs_threads = ts, cs_log = l\<rparr> t = Returned k r"
  then show "\<exists>time. (k, r, time) \<in> set (cs_log \<lparr>cs_cache = c, cs_threads = ts, cs_log = l\<rparr>)"
    using logged_returned [OF assms(1), of t k r] assms(2) assms(5) [of t k r] by auto
qed

lemma system_record: "y\<lparr>cs_cache := c, cs_threads := ts\<rparr> = \<lparr>cs_cache = c, cs_threads = ts, cs_log = cs_log y\<rparr>"
  by simp

lemma system_call:
  assumes "system_ok y" and "\<And>k. cs_threads y t \<noteq> Resolving k"
  shows "system_ok (y\<lparr>cs_threads := (cs_threads y)(t := Entering k)\<rparr>)"
proof -
  have "flights (y\<lparr>cs_cache := cs_cache y, cs_threads := (cs_threads y)(t := Entering k)\<rparr>)"
    using assms by (intro flights_move) (auto simp: system_ok_def)
  then show ?thesis using assms by (auto simp: system_ok_def logged_def)
qed

lemma after_enter_simps [simp]:
  "after_enter k res = Resolving k' \<longleftrightarrow> res = Lead \<and> k' = k"
  "after_enter k res = Waiting k' \<longleftrightarrow> res = Wait \<and> k' = k"
  "after_enter k res = Returned k' r \<longleftrightarrow> res = Hit r \<and> k' = k"
  by (cases res; auto)+

lemma system_enter:
  assumes y: "system_ok y" and t: "cs_threads y t = Entering k"
    and step: "resolve_enter k now (cs_cache y) = (res, c)"
  shows "system_ok (y\<lparr>cs_cache := c, cs_threads := (cs_threads y)(t := after_enter k res)\<rparr>)"
proof -
  from y have ok: "cache_ok (cs_cache y)" and fl: "flights y" and lg: "logged y"
    by (simp_all add: system_ok_def)
  note c = resolve_enter_cases [OF ok step]
  let ?y = "y\<lparr>cs_cache := c, cs_threads := (cs_threads y)(t := after_enter k res)\<rparr>"
  have "cache_ok c" using resolve_enter_ok [OF ok, of k now] step by simp
  moreover have "flights ?y"
    using c t by (intro flights_move [OF fl]) (auto split: if_splits)
  moreover have "logged ?y"
  proof (unfold system_record, rule loggedI [OF lg])
    fix t' k' r
    assume "((cs_threads y)(t := after_enter k res)) t' = Returned k' r"
    then show "cs_threads y t' = Returned k' r \<or> (\<exists>time. (k', r, time) \<in> set (cs_log y))"
      using c logged_entry [OF lg, of k] by (fastforce split: if_splits)
  qed (use c in auto)
  ultimately show ?thesis by (simp add: system_ok_def)
qed

lemma flights_finish:
  assumes "flights y" and "cs_threads y t = Resolving k"
    and "sc_inflight c = sc_inflight (cs_cache y) - {k}" and "\<And>k'. x \<noteq> Resolving k'"
  shows "flights \<lparr>cs_cache = c, cs_threads = notify_all ((cs_threads y)(t := x)), cs_log = l\<rparr>"
  unfolding flights_def
proof (intro conjI allI impI)
  fix k'
  have "(\<exists>t'. ((cs_threads y)(t := x)) t' = Resolving k') \<longleftrightarrow> k' \<noteq> k \<and> (\<exists>t'. cs_threads y t' = Resolving k')"
  proof
    assume "\<exists>t'. ((cs_threads y)(t := x)) t' = Resolving k'"
    then obtain t' where "t' \<noteq> t" "cs_threads y t' = Resolving k'"
      using assms(4) by (auto split: if_splits)
    with assms(1,2) show "k' \<noteq> k \<and> (\<exists>t'. cs_threads y t' = Resolving k')"
      unfolding flights_def by blast
  next
    assume "k' \<noteq> k \<and> (\<exists>t'. cs_threads y t' = Resolving k')"
    then show "\<exists>t'. ((cs_threads y)(t := x)) t' = Resolving k'" using assms(2) by (metis fun_upd_apply thread.inject(3))
  qed
  then show "k' \<in> sc_inflight (cs_cache \<lparr>cs_cache = c, cs_threads = notify_all ((cs_threads y)(t := x)), cs_log = l\<rparr>)
      \<longleftrightarrow> (\<exists>t'. cs_threads \<lparr>cs_cache = c, cs_threads = notify_all ((cs_threads y)(t := x)), cs_log = l\<rparr> t' = Resolving k')"
    using assms(3) flights_iff [OF assms(1), of k'] by auto
  fix t1 t2
  assume "cs_threads \<lparr>cs_cache = c, cs_threads = notify_all ((cs_threads y)(t := x)), cs_log = l\<rparr> t1 = Resolving k'"
    "cs_threads \<lparr>cs_cache = c, cs_threads = notify_all ((cs_threads y)(t := x)), cs_log = l\<rparr> t2 = Resolving k'"
  then show "t1 = t2"
    using flights_unique [OF assms(1), of t1 k' t2] assms(4) [of k'] by (simp split: if_splits)
qed simp

lemma store_success_entries:
  assumes "cache_ok c"
  shows "set (sc_entries (store_success size_of k r now c)) \<subseteq> insert
      (k, \<lparr>se_result = r, se_expires_at = now + sc_ttl c, se_size_bytes = int (size_of r)\<rparr>) (set (sc_entries c))
    \<and> sc_ttl (store_success size_of k r now c) = sc_ttl c
    \<and> sc_inflight (store_success size_of k r now c) = sc_inflight c"
  using store_success_eq [OF assms, of size_of r k now]
  by (auto simp: Let_def AList.delete_eq dest!: in_set_dropD)

lemma system_succeed:
  assumes y: "system_ok y" and t: "cs_threads y t = Resolving k"
  shows "system_ok \<lparr>cs_cache = resolve_stored size_of k r now (cs_cache y),
      cs_threads = notify_all ((cs_threads y)(t := Returned k r)), cs_log = (k, r, now) # cs_log y\<rparr>"
proof -
  from y have ok: "cache_ok (cs_cache y)" and fl: "flights y" and lg: "logged y"
    by (simp_all add: system_ok_def)
  note st = store_success_entries [OF ok, of size_of k r now]
  have "logged \<lparr>cs_cache = resolve_stored size_of k r now (cs_cache y),
      cs_threads = notify_all ((cs_threads y)(t := Returned k r)), cs_log = (k, r, now) # cs_log y\<rparr>"
  proof (rule loggedI [OF lg])
    fix k' e
    assume "(k', e) \<in> set (sc_entries (resolve_stored size_of k r now (cs_cache y)))"
    then show "(k', e) \<in> set (sc_entries (cs_cache y)) \<or> (k', se_result e, se_expires_at e
        - sc_ttl (resolve_stored size_of k r now (cs_cache y))) \<in> set ((k, r, now) # cs_log y)"
      using st by (auto simp: resolve_stored_def Let_def)
  qed (use st in \<open>auto simp: resolve_stored_def Let_def split: if_splits\<close>)
  moreover have "flights \<lparr>cs_cache = resolve_stored size_of k r now (cs_cache y),
      cs_threads = notify_all ((cs_threads y)(t := Returned k r)), cs_log = (k, r, now) # cs_log y\<rparr>"
    by (rule flights_finish [OF fl t]) (simp_all add: resolve_stored_def Let_def st)
  ultimately show ?thesis by (simp add: system_ok_def resolve_stored_ok [OF ok])
qed

lemma system_error:
  assumes y: "system_ok y" and t: "cs_threads y t = Resolving k"
    and c: "cache_ok c" "sc_inflight c = sc_inflight (cs_cache y) - {k}"
      "sc_entries c = sc_entries (cs_cache y)" "sc_ttl c = sc_ttl (cs_cache y)"
  shows "system_ok (y\<lparr>cs_cache := c, cs_threads := notify_all ((cs_threads y)(t := Raised k))\<rparr>)"
proof -
  have "flights \<lparr>cs_cache = c, cs_threads = notify_all ((cs_threads y)(t := Raised k)), cs_log = cs_log y\<rparr>"
    using y c(2) by (intro flights_finish [OF _ t]) (simp_all add: system_ok_def)
  moreover have "logged \<lparr>cs_cache = c, cs_threads = notify_all ((cs_threads y)(t := Raised k)), cs_log = cs_log y\<rparr>"
    using y c(3,4) by (intro loggedI [of y]) (auto simp: system_ok_def split: if_splits)
  ultimately show ?thesis unfolding system_record system_ok_def using c(1) by simp
qed

lemma cache_step_ok:
  assumes "cache_step size_of y y'" "system_ok y"
  shows "system_ok y'"
  using assms(1)
proof cases
  case (call t chain_id address)
  then show ?thesis using system_call [OF assms(2), of t] by auto
next
  case (enter t key now res c)
  then show ?thesis using system_enter [OF assms(2)] by simp
next
  case (succeed t key r now)
  then show ?thesis using system_succeed [OF assms(2)] by simp
next
  case (source_error t key cd msg now)
  have ok: "cache_ok (cs_cache y)" using assms(2) by (simp add: system_ok_def)
  show ?thesis unfolding source_error(1)
    by (rule system_error [OF assms(2) source_error(2) resolve_failed_ok [OF ok]])
      (simp_all add: resolve_failed_def Let_def)
next
  case (other_error t key)
  have ok: "cache_ok (cs_cache y)" using assms(2) by (simp add: system_ok_def)
  show ?thesis unfolding other_error(1)
    by (rule system_error [OF assms(2) other_error(2) resolve_raised_ok [OF ok]])
      (simp_all add: resolve_raised_def)
qed

lemma cache_step_config:
  assumes "cache_step size_of y y'" "system_ok y"
  shows "sc_ttl (cs_cache y') = sc_ttl (cs_cache y)
    \<and> sc_max_entries (cs_cache y') = sc_max_entries (cs_cache y)
    \<and> sc_max_bytes (cs_cache y') = sc_max_bytes (cs_cache y)"
proof -
  have ok: "cache_ok (cs_cache y)" using assms(2) by (simp add: system_ok_def)
  have ex: "sc_ttl (expire_locked now (cs_cache y)) = sc_ttl (cs_cache y)
      \<and> sc_max_entries (expire_locked now (cs_cache y)) = sc_max_entries (cs_cache y)
      \<and> sc_max_bytes (expire_locked now (cs_cache y)) = sc_max_bytes (cs_cache y)" for now
    by (simp add: expire_locked_eq [OF ok] Let_def)
  show ?thesis
    using assms(1)
  proof cases
    case (enter t key now res c)
    then show ?thesis
      using ex [of now] by (auto simp: resolve_enter_def Let_def split: option.splits if_splits)
  next
    case (succeed t key r now)
    then show ?thesis
      using store_success_eq [OF ok, of size_of r key now]
      by (auto simp: resolve_stored_def Let_def)
  qed (auto simp: resolve_failed_def resolve_raised_def Let_def)
qed

lemma reachable_ok:
  assumes "make_cache ttl me mb nt = Inr c" "cache_reachable size_of c y"
  shows "system_ok y \<and> sc_ttl (cs_cache y) = sc_ttl c \<and> sc_max_entries (cs_cache y) = sc_max_entries c
    \<and> sc_max_bytes (cs_cache y) = sc_max_bytes c"
  using assms(2) unfolding cache_reachable_def
proof (induction rule: rtranclp_induct)
  case base
  show ?case
    using make_cache_ok [OF assms(1)]
    by (auto simp: system_ok_def initial_system_def flights_def logged_def)
next
  case (step y y')
  then show ?case using cache_step_ok cache_step_config by metis
qed

section \<open>Properties\<close>

text \<open>
  C15: Whatever threads call \<open>resolve\<close> in whatever interleaving, and whatever the
  resolver and the clock return: the byte counter is the sum of the stored sizes and at
  most \<open>max_bytes\<close>, and there are at most \<open>max_entries\<close> results, at most \<open>max_entries\<close>
  remembered failures and at most \<open>max_entries\<close> resolver calls in flight.
\<close>

theorem source_cache_bounded:
  assumes "make_cache ttl me mb nt = Inr c0" and "cache_reachable size_of c0 y"
    and "c = cs_cache y"
  shows "sc_cached_bytes c = sum_list (map (\<lambda>ke. se_size_bytes (snd ke)) (sc_entries c))
    \<and> sc_cached_bytes c \<le> sc_max_bytes c0
    \<and> int (length (sc_entries c)) \<le> sc_max_entries c0
    \<and> int (length (sc_failures c)) \<le> sc_max_entries c0
    \<and> finite (sc_inflight c) \<and> int (card (sc_inflight c)) \<le> sc_max_entries c0"
  using reachable_ok [OF assms(1,2)] assms(3) by (simp add: system_ok_def cache_ok_def od_total_def)

text \<open>
  C13: Single flight without lost wake-ups. In every reachable state at most one thread
  runs the resolver for a key, and every thread asleep on the condition variable waits
  for a key whose resolver is running; whichever way that call ends, the sleeper is
  woken. So no thread is stuck: each can either take a step or waits for a thread that
  can.
\<close>

theorem source_cache_single_flight:
  assumes "make_cache ttl me mb nt = Inr c0" and "cache_reachable size_of c0 y"
  shows "(\<forall>t t'. cs_threads y t = Resolving k \<and> cs_threads y t' = Resolving k \<longrightarrow> t = t')
    \<and> (cs_threads y w = Waiting k \<longrightarrow>
        (\<exists>t. cs_threads y t = Resolving k \<and>
           (\<forall>x. notify_all ((cs_threads y)(t := x)) w = Entering k \<or> w = t)))"
proof -
  have fl: "flights y" using reachable_ok [OF assms] by (simp add: system_ok_def)
  have "\<exists>t. cs_threads y t = Resolving k \<and>
      (\<forall>x. notify_all ((cs_threads y)(t := x)) w = Entering k \<or> w = t)"
    if w: "cs_threads y w = Waiting k"
  proof -
    from flights_waiting [OF fl w] obtain t where "cs_threads y t = Resolving k"
      by (auto simp: flights_iff [OF fl])
    then show ?thesis using w by (intro exI [of _ t]) (auto simp: notify_all_def)
  qed
  then show ?thesis using flights_unique [OF fl] by blast
qed

text \<open>
  C14: Freshness. When a thread is answered from the cache at time \<open>now\<close>, the answer is
  the result of a successful resolver call for that very key, stored less than the
  cache's time to live before \<open>now\<close>; in particular less than a minute before. Every
  result a call returned was produced by a resolver call for its key.
\<close>

theorem source_cache_fresh:
  assumes "make_cache ttl me mb nt = Inr c0" and "cache_reachable size_of c0 y"
  shows "(\<forall>r c. resolve_enter k now (cs_cache y) = (Hit r, c) \<longrightarrow>
       (\<exists>time. (k, r, time) \<in> set (cs_log y) \<and> now < time + sc_ttl c0 \<and> now < time + 60))
    \<and> (cs_threads y t = Returned k r \<longrightarrow> (\<exists>time. (k, r, time) \<in> set (cs_log y)))"
proof -
  note r = reachable_ok [OF assms]
  then have ok: "cache_ok (cs_cache y)" and lg: "logged y" by (simp_all add: system_ok_def)
  have "\<exists>time. (k, r, time) \<in> set (cs_log y) \<and> now < time + sc_ttl c0 \<and> now < time + 60"
    if "resolve_enter k now (cs_cache y) = (Hit r, c)" for r c
  proof -
    from resolve_enter_cases [OF ok that] obtain e where "(k, e) \<in> set (sc_entries (cs_cache y))"
      "se_result e = r" "now < se_expires_at e" by auto
    with logged_entry [OF lg, of k e] r make_cache_ok [OF assms(1)] show ?thesis
      by (intro exI [of _ "se_expires_at e - sc_ttl c0"]) auto
  qed
  then show ?thesis using logged_returned [OF lg] by blast
qed

definition toy_cache :: "nat source_cache" where
  "toy_cache = \<lparr>sc_ttl = 15, sc_max_entries = 2, sc_max_bytes = 10, sc_negative_ttl = 2,
     sc_entries = [], sc_failures = [], sc_inflight = {}, sc_cached_bytes = 0\<rparr>"

lemma toy_make_cache: "make_cache (PInt 15) (PInt 2) (PInt 10) (PInt 2) = Inr toy_cache"
  by (simp add: make_cache_def toy_cache_def bounded_number_def positive_limit_def)

definition toy_resolving :: "nat cache_system" where
  "toy_resolving = \<lparr>cs_cache = toy_cache\<lparr>sc_inflight := {(1, ''a'')}\<rparr>,
     cs_threads = (\<lambda>_. Idle)(0 := Resolving (1, ''a''), 1 := Waiting (1, ''a'')), cs_log = []\<rparr>"

text \<open>Two threads ask for the same contract: one resolves, the other waits.\<close>

lemma toy_reach: "cache_reachable id toy_cache toy_resolving"
proof -
  let ?k = "(1, ''a'') :: source_key"
  let ?y0 = "initial_system toy_cache"
  let ?c = "toy_cache\<lparr>sc_inflight := {?k}\<rparr>"
  let ?y1 = "?y0\<lparr>cs_threads := (\<lambda>_. Idle)(0 := Entering ?k)\<rparr>"
  let ?y2 = "?y1\<lparr>cs_cache := ?c, cs_threads := (\<lambda>_. Idle)(0 := Resolving ?k)\<rparr>"
  let ?y3 = "?y2\<lparr>cs_threads := (\<lambda>_. Idle)(0 := Resolving ?k, 1 := Entering ?k)\<rparr>"
  have low: "py_lower ''a'' = ''a''" by code_simp
  have s1: "cache_step id ?y0 ?y1"
    using cache_step.call [of ?y0 0 id 1 "''a''"] unfolding low by (simp add: initial_system_def)
  have s2: "cache_step id ?y1 ?y2"
    using cache_step.enter [of ?y1 0 ?k 5 Lead ?c id]
    by (simp add: initial_system_def resolve_enter_def expire_locked_def toy_cache_def)
  have s3: "cache_step id ?y2 ?y3"
    using cache_step.call [of ?y2 1 id 1 "''a''"] unfolding low by (simp add: initial_system_def)
  have s4: "cache_step id ?y3 toy_resolving"
    using cache_step.enter [of ?y3 1 ?k 6 Wait ?c id]
    by (simp add: initial_system_def resolve_enter_def expire_locked_def toy_cache_def
        toy_resolving_def)
  show ?thesis
    unfolding cache_reachable_def
    by (rule rtranclp_trans, rule r_into_rtranclp, rule s1, rule rtranclp_trans, rule r_into_rtranclp,
        rule s2, rule rtranclp_trans, rule r_into_rtranclp, rule s3, rule r_into_rtranclp, rule s4)
qed

theorem source_cache_bounded_witness:
  "int (card (sc_inflight (cs_cache toy_resolving))) \<le> 2"
  using source_cache_bounded [OF toy_make_cache toy_reach refl] by (simp add: toy_cache_def)

theorem source_cache_single_flight_witness:
  "\<exists>t. cs_threads toy_resolving t = Resolving (1, ''a'')
    \<and> (\<forall>x. notify_all ((cs_threads toy_resolving)(t := x)) 1 = Entering (1, ''a'') \<or> 1 = t)"
  using source_cache_single_flight [OF toy_make_cache toy_reach, of "(1, ''a'')" 1]
  by (simp add: toy_resolving_def)

definition toy_resolved :: "nat cache_system" where
  "toy_resolved = \<lparr>cs_cache = resolve_stored id (1, ''a'') 7 6 (cs_cache toy_resolving),
     cs_threads = notify_all ((cs_threads toy_resolving)(0 := Returned (1, ''a'') 7)),
     cs_log = [((1, ''a''), 7, 6)]\<rparr>"

theorem source_cache_fresh_witness:
  "\<exists>time. ((1, ''a''), 7, time) \<in> set (cs_log toy_resolved) \<and> (20 :: rat) < time + 15 \<and> 20 < time + 60"
proof -
  have "cache_step id toy_resolving toy_resolved"
    using cache_step.succeed [of toy_resolving 0 "(1, ''a'')" id 7 6]
    by (simp add: toy_resolved_def toy_resolving_def)
  then have "cache_reachable id toy_cache toy_resolved"
    using toy_reach by (simp add: cache_reachable_def)
  from source_cache_fresh [OF toy_make_cache this, of "(1, ''a'')" 20]
  show ?thesis
    by (simp add: resolve_enter_def expire_locked_def toy_resolved_def toy_resolving_def toy_cache_def
        resolve_stored_def store_success_def expire_entry_def od_move_to_end_def)
qed

end
