(* ===== verification/Py_Json.thy ===== *)
theory Py_Json
  imports Py_Text
begin

text \<open>
  \<open>json.dumps\<close> as the program calls it: compact separators, \<open>allow_nan=False\<close>, with or
  without sorted keys and ASCII escapes. \<open>None\<close> stands for the \<open>TypeError\<close> or
  \<open>ValueError\<close> of a value that has no JSON form. The shortest decimal text of a finite
  float is a parameter.
\<close>

section \<open>Strings\<close>

definition hex4 :: "nat \<Rightarrow> pystr" where
  "hex4 n = map hex_digit [n div 4096 mod 16, n div 256 mod 16, n div 16 mod 16, n mod 16]"

text \<open>One character inside a JSON string; \<open>ascii\<close> is \<open>ensure_ascii\<close>.\<close>

definition json_char :: "bool \<Rightarrow> char \<Rightarrow> pystr" where
  "json_char ascii c =
     (let n = code c in
      if n = 34 then [CHR 0x5C, CHR 0x22]
      else if n = 92 then [CHR 0x5C, CHR 0x5C]
      else if n = 10 then [CHR 0x5C, CHR ''n'']
      else if n = 13 then [CHR 0x5C, CHR ''r'']
      else if n = 9 then [CHR 0x5C, CHR ''t'']
      else if n = 8 then [CHR 0x5C, CHR ''b'']
      else if n = 12 then [CHR 0x5C, CHR ''f'']
      else if n < 32 \<or> (ascii \<and> 126 < n) then CHR 0x5C # CHR ''u'' # hex4 n
      else [c])"

definition json_string :: "bool \<Rightarrow> pystr \<Rightarrow> pystr" where
  "json_string ascii s = CHR 0x22 # concat (map (json_char ascii) s) @ [CHR 0x22]"

section \<open>Key order\<close>

text \<open>Code-point order on text, and the stable insertion sort by key.\<close>

fun text_le :: "pystr \<Rightarrow> pystr \<Rightarrow> bool" where
  "text_le [] t = True"
| "text_le (c # s) [] = False"
| "text_le (c # s) (d # t) = (code c < code d \<or> (code c = code d \<and> text_le s t))"

fun insert_key :: "pystr \<times> 'a \<Rightarrow> (pystr \<times> 'a) list \<Rightarrow> (pystr \<times> 'a) list" where
  "insert_key kv [] = [kv]"
| "insert_key kv (x # xs) = (if text_le (fst kv) (fst x) then kv # x # xs else x # insert_key kv xs)"

definition sort_items :: "(pystr \<times> 'a) list \<Rightarrow> (pystr \<times> 'a) list" where
  "sort_items kvs = foldr insert_key kvs []"

section \<open>Encoding\<close>

fun opt_all :: "'a option list \<Rightarrow> 'a list option" where
  "opt_all [] = Some []"
| "opt_all (None # xs) = None"
| "opt_all (Some x # xs) = map_option (\<lambda>ys. x # ys) (opt_all xs)"

text \<open>\<open>fr\<close> gives a finite float's text; with \<open>sort\<close> the items of objects are ordered.\<close>

fun json_text :: "(rat \<Rightarrow> pystr) \<Rightarrow> bool \<Rightarrow> bool \<Rightarrow> pyval \<Rightarrow> pystr option" where
  "json_text fr srt ascii PNone = Some ''null''"
| "json_text fr srt ascii (PBool b) = Some (if b then ''true'' else ''false'')"
| "json_text fr srt ascii (PInt i) = Some (int_str i)"
| "json_text fr srt ascii (PFloat f) = (case f of Finite q \<Rightarrow> Some (fr q) | _ \<Rightarrow> None)"
| "json_text fr srt ascii (PStr s) = Some (json_string ascii s)"
| "json_text fr srt ascii (PBytes b) = None"
| "json_text fr srt ascii (PList xs) =
     map_option (\<lambda>ts. ''['' @ py_join '','' ts @ '']'') (opt_all (map (json_text fr srt ascii) xs))"
| "json_text fr srt ascii (PTuple xs) =
     map_option (\<lambda>ts. ''['' @ py_join '','' ts @ '']'') (opt_all (map (json_text fr srt ascii) xs))"
| "json_text fr srt ascii (PDict kvs) =
     map_option (\<lambda>ts. ''{'' @ py_join '','' ts @ ''}'')
       (opt_all (map (\<lambda>kv. map_option (\<lambda>t. json_string ascii (fst kv) @ '':'' @ t) (snd kv))
         (let items = map (\<lambda>kv. (fst kv, json_text fr srt ascii (snd kv))) kvs
          in if srt then sort_items items else items)))"

text \<open>\<open>json.dumps(v, sort_keys=True, ensure_ascii=False).encode()\<close>.\<close>

definition canonical_bytes :: "(rat \<Rightarrow> pystr) \<Rightarrow> pyval \<Rightarrow> bytes option" where
  "canonical_bytes fr v = map_option utf8 (json_text fr True False v)"

text \<open>\<open>repr\<close> of a string: single quotes unless only they occur inside, other characters escaped.\<close>

definition repr_char :: "char \<Rightarrow> char \<Rightarrow> pystr" where
  "repr_char q c =
     (let n = code c in
      if c = q then [CHR 0x5C, c]
      else if n = 92 then [CHR 0x5C, CHR 0x5C]
      else if n = 10 then [CHR 0x5C, CHR ''n'']
      else if n = 13 then [CHR 0x5C, CHR ''r'']
      else if n = 9 then [CHR 0x5C, CHR ''t'']
      else if n < 32 \<or> (126 < n \<and> n < 161) \<or> n = 173
      then [CHR 0x5C, CHR ''x'', hex_digit (n div 16), hex_digit (n mod 16)]
      else [c])"

definition py_repr :: "pystr \<Rightarrow> pystr" where
  "py_repr s =
     (let q = (if CHR 0x27 \<in> set s \<and> CHR 0x22 \<notin> set s then CHR 0x22 else CHR 0x27)
      in q # concat (map (repr_char q) s) @ [q])"

section \<open>Facts\<close>

lemma text_le_refl [simp]: "text_le s s"
  by (induction s) auto

lemma text_le_total: "text_le s t \<or> text_le t s"
  by (induction s t rule: text_le.induct) auto

lemma text_le_trans: "text_le s t \<Longrightarrow> text_le t u \<Longrightarrow> text_le s u"
proof (induction s t arbitrary: u rule: text_le.induct)
  case (3 c s d t)
  then show ?case by (cases u) auto
qed auto

lemma code_inj: "code c = code d \<longleftrightarrow> c = d"
  by (simp add: code_def)

lemma text_le_Nil [simp]: "text_le s [] \<longleftrightarrow> s = []"
  by (cases s) auto

lemma text_le_antisym: "text_le s t \<Longrightarrow> text_le t s \<Longrightarrow> s = t"
  by (induction s t rule: text_le.induct) (auto simp: code_inj)

lemma set_insert_key [simp]: "set (insert_key kv xs) = insert kv (set xs)"
  by (induction xs) auto

lemma set_sort_items [simp]: "set (sort_items kvs) = set kvs"
  by (induction kvs) (auto simp: sort_items_def)

lemma length_insert_key [simp]: "length (insert_key kv xs) = Suc (length xs)"
  by (induction xs) auto

lemma length_sort_items [simp]: "length (sort_items kvs) = length kvs"
  by (induction kvs) (auto simp: sort_items_def)

definition keys_sorted :: "(pystr \<times> 'a) list \<Rightarrow> bool" where
  "keys_sorted kvs \<longleftrightarrow> sorted_wrt (\<lambda>x y. text_le (fst x) (fst y)) kvs"

lemma insert_key_sorted: "keys_sorted xs \<Longrightarrow> keys_sorted (insert_key kv xs)"
  unfolding keys_sorted_def
  by (induction xs) (use text_le_total text_le_trans in \<open>fastforce+\<close>)

lemma sort_items_sorted: "keys_sorted (sort_items kvs)"
  by (induction kvs) (auto simp: sort_items_def insert_key_sorted, simp add: keys_sorted_def)

lemma opt_all_Some: "opt_all xs = Some ys \<longleftrightarrow> xs = map Some ys"
  by (induction xs arbitrary: ys rule: opt_all.induct) (auto simp: map_eq_Cons_conv)

text \<open>The values that have a JSON form: no bytes, and only finite floats.\<close>

fun json_ok :: "pyval \<Rightarrow> bool" where
  "json_ok (PBytes b) = False"
| "json_ok (PFloat f) = (case f of Finite q \<Rightarrow> True | _ \<Rightarrow> False)"
| "json_ok (PList xs) = list_all json_ok xs"
| "json_ok (PTuple xs) = list_all json_ok xs"
| "json_ok (PDict kvs) = list_all (\<lambda>kv. json_ok (snd kv)) kvs"
| "json_ok _ = True"

lemma opt_all_None: "opt_all xs = None \<longleftrightarrow> (\<exists>x\<in>set xs. x = None)"
  by (induction xs rule: opt_all.induct) auto

lemma json_text_defined: "json_text fr srt ascii v \<noteq> None \<longleftrightarrow> json_ok v"
proof (induction v)
  case (PFloat f)
  then show ?case by (cases f) simp_all
next
  case (PDict kvs)
  have "json_text fr srt ascii (PDict kvs) = None \<longleftrightarrow> (\<exists>kv\<in>set kvs. json_text fr srt ascii (snd kv) = None)"
    by (cases srt) (auto simp: opt_all_None Let_def image_iff)
  moreover have "json_text fr srt ascii (snd kv) \<noteq> None \<longleftrightarrow> json_ok (snd kv)" if "kv \<in> set kvs" for kv
    using PDict.IH that by (cases kv) auto
  ultimately show ?case by (simp add: list_all_iff del: json_text.simps)
qed (simp_all add: opt_all_None list_all_iff image_iff del: not_None_eq, metis+)

end
