(* ===== verification/Abi_Common.thy ===== *)
theory Abi_Common
  imports Py_Json
begin

text \<open>
  The ABI utilities of \<open>scripts/common.py\<close> that every analysis shares. \<open>validate_abi\<close>
  works on arbitrary JSON and returns the part of a valid ABI that the program reads:
  functions with their inputs, mutability and legacy \<open>payable\<close> flag. Keccak-256,
  \<open>eth_abi.is_encodable_type\<close> and the ABI cache directory are parameters.
\<close>

section \<open>Identifiers, chain ids and addresses\<close>

definition ADDRESS_match :: "pystr \<Rightarrow> bool" where
  "ADDRESS_match s \<longleftrightarrow> length s = 42 \<and> take 2 s = ''0x'' \<and> list_all is_hex (drop 2 s)"

definition is_identifier_start :: "char \<Rightarrow> bool" where
  "is_identifier_start c \<longleftrightarrow> is_letter c \<or> c = CHR ''_'' \<or> c = CHR ''$''"

definition is_identifier :: "pystr \<Rightarrow> bool" where
  "is_identifier s =
     (case s of [] \<Rightarrow> False
      | c # cs \<Rightarrow> is_identifier_start c
                 \<and> list_all (\<lambda>c. is_identifier_start c \<or> is_digit c) cs)"

definition MAX_CHAIN_ID :: int where
  "MAX_CHAIN_ID = 2 ^ 63 - 1"

definition MAX_ABI_ENTRIES :: int where
  "MAX_ABI_ENTRIES = 1024"

definition MAX_REMOTE_BYTES :: int where
  "MAX_REMOTE_BYTES = 4 * 1024 * 1024"

definition normalize_chain_id :: "pyval \<Rightarrow> py_exn + int" where
  "normalize_chain_id v =
     (case v of
        PInt i \<Rightarrow>
          if i < 1 \<or> MAX_CHAIN_ID < i
          then Inl (ValueError (''chain id must be between 1 and '' @ int_str MAX_CHAIN_ID))
          else Inr i
      | _ \<Rightarrow> Inl (ValueError ''chain id must be a positive integer''))"

definition normalize_address :: "pyval \<Rightarrow> py_exn + pystr" where
  "normalize_address v =
     (let err = Inl (ValueError ''address must be 0x followed by exactly 40 hexadecimal characters'')
      in case v of PStr s \<Rightarrow> if ADDRESS_match s then Inr (py_lower s) else err | _ \<Rightarrow> err)"

section \<open>ABI types\<close>

datatype abi_input = AbiInput (ai_name: "pystr option") (ai_type: pystr) (ai_components: "abi_input list")

record abi_function =
  fn_name :: pystr
  fn_inputs :: "abi_input list"
  fn_mutability :: "pystr option"
  fn_payable :: "bool option"

text \<open>An entry of a valid ABI: a function, or something the analyses skip.\<close>

datatype abi_entry = FunctionEntry abi_function | OtherEntry

fun canonical_type :: "abi_input \<Rightarrow> pystr" where
  "canonical_type (AbiInput nm t comps) =
     (if py_startswith t ''tuple''
      then ''('' @ py_join '','' (map canonical_type comps) @ '')'' @ drop 5 t
      else t)"

definition signature :: "abi_function \<Rightarrow> pystr" where
  "signature fn = fn_name fn @ ''('' @ py_join '','' (map canonical_type (fn_inputs fn)) @ '')''"

definition selector :: "(bytes \<Rightarrow> bytes) \<Rightarrow> pystr \<Rightarrow> pystr" where
  "selector keccak sig = ''0x'' @ bytes_hex (take 4 (keccak (utf8 sig)))"

definition VIEW :: "pystr list" where
  "VIEW = [''view'', ''pure'']"

definition is_signable :: "abi_function \<Rightarrow> bool" where
  "is_signable fn \<longleftrightarrow> (case fn_mutability fn of None \<Rightarrow> True | Some m \<Rightarrow> m \<notin> set VIEW)"

fun signable_functions :: "abi_entry list \<Rightarrow> abi_function list" where
  "signable_functions [] = []"
| "signable_functions (OtherEntry # es) = signable_functions es"
| "signable_functions (FunctionEntry fn # es) =
     (if is_signable fn then fn # signable_functions es else signable_functions es)"

text \<open>\<open>selector_index\<close>: later functions replace earlier ones under the same selector.\<close>

definition selector_index ::
  "(bytes \<Rightarrow> bytes) \<Rightarrow> abi_entry list \<Rightarrow> (pystr, pystr \<times> abi_input list) odict" where
  "selector_index keccak abi =
     foldl (\<lambda>idx e. case e of OtherEntry \<Rightarrow> idx
       | FunctionEntry fn \<Rightarrow> AList.update (selector keccak (signature fn)) (signature fn, fn_inputs fn) idx)
       [] abi"

section \<open>Validation\<close>

text \<open>\<open>re.sub(r"(?:\[[0-9]*\])+$", "", t)\<close>, working from the end of the text.\<close>

fun strip_array_rev :: "nat \<Rightarrow> pystr \<Rightarrow> pystr" where
  "strip_array_rev 0 s = s"
| "strip_array_rev (Suc n) [] = []"
| "strip_array_rev (Suc n) (c # s) =
     (if c = CHR '']'' then
        (case dropWhile is_digit s of
           [] \<Rightarrow> c # s
         | b # t \<Rightarrow> if b = CHR ''['' then strip_array_rev n t else c # s)
      else c # s)"

definition strip_arrays :: "pystr \<Rightarrow> pystr" where
  "strip_arrays t = rev (strip_array_rev (length t) (rev t))"

definition ALIASES :: "pystr list" where
  "ALIASES = [''uint'', ''int'', ''fixed'', ''ufixed'', ''byte'']"

text \<open>
  \<open>validate_inputs\<close>: every check in order, the inputs of tuples first. \<open>canonical_type\<close>
  is applied to inputs whose components have just been validated, where it cannot raise.
\<close>

function validate_inputs :: "(pystr \<Rightarrow> bool) \<Rightarrow> pystr \<Rightarrow> pyval \<Rightarrow> py_exn + abi_input list"
  and validate_items :: "(pystr \<Rightarrow> bool) \<Rightarrow> pystr \<Rightarrow> pyval list \<Rightarrow> py_exn + abi_input list"
  where
  "validate_inputs encodable scope v =
     (case v of PList items \<Rightarrow> validate_items encodable scope items
      | _ \<Rightarrow> Inl (ValueError (scope @ '' inputs must be a JSON array'')))"
| "validate_items encodable scope [] = Inr []"
| "validate_items encodable scope (item # items) =
     (case item of
        PDict d \<Rightarrow>
          (case (dget_or d ''name'' (PStr []), dget d ''type'') of
             (PStr nm, PStr t) \<Rightarrow>
               if strip_arrays t \<in> set ALIASES
               then Inl (ValueError (scope @ '' input type must use its canonical EVM ABI spelling''))
               else
                 res_bind (if py_startswith t ''tuple''
                           then validate_inputs encodable (scope @ '' tuple'') (dget d ''components'')
                           else Inr [])
                 (\<lambda>comps. let inp = AbiInput (if map_of d ''name'' = None then None else Some nm) t comps in
                    if \<not> encodable (canonical_type inp)
                    then Inl (ValueError (scope @ '' input type '' @ py_repr (canonical_type inp)
                                @ '' is not an EVM ABI type''))
                    else res_bind (validate_items encodable scope items) (\<lambda>rest. Inr (inp # rest)))
           | (PStr nm, _) \<Rightarrow> Inl (ValueError (scope @ '' input type must be a string''))
           | _ \<Rightarrow> Inl (ValueError (scope @ '' input name must be a string'')))
      | _ \<Rightarrow> Inl (ValueError (scope @ '' input must be a JSON object'')))"
  by pat_completeness auto
termination
proof (relation "measure (\<lambda>x. case x of Inl (_, _, v) \<Rightarrow> 2 * size v | Inr (_, _, xs) \<Rightarrow> 2 * size_list size xs + 1)",
    goal_cases)
  case 1
  then show ?case by simp
next
  case (2 encodable scope v items)
  then show ?case by simp
next
  case (3 encodable scope item items d nm1 t1 t nm)
  then have "dget d ''components'' = PNone \<or> size (dget d ''components'') < size (PDict d)"
    using size_dget by blast
  then show ?case using 3 by auto
next
  case 4
  then show ?case by auto
qed

definition MUTABILITIES :: "pystr list" where
  "MUTABILITIES = [''pure'', ''view'', ''nonpayable'', ''payable'']"

text \<open>The body of the loop over the entries, for an entry whose type is \<open>function\<close>.\<close>

definition validate_function ::
  "(pystr \<Rightarrow> bool) \<Rightarrow> (pystr \<times> pyval) list \<Rightarrow> py_exn + abi_function" where
  "validate_function encodable d =
     (case dget d ''name'' of
        PStr nm \<Rightarrow>
          if \<not> is_identifier nm
          then Inl (ValueError ''ABI function name must be a Solidity identifier'')
          else
            let scope = ''ABI function '' @ py_repr nm in
            res_bind (validate_inputs encodable scope (dget d ''inputs''))
            (\<lambda>inputs. res_bind
               (case dget d ''stateMutability'' of
                  PNone \<Rightarrow> Inr None
                | PStr m \<Rightarrow> if m \<in> set MUTABILITIES then Inr (Some m)
                            else Inl (ValueError (scope @ '' has invalid stateMutability''))
                | _ \<Rightarrow> Inl (ValueError (scope @ '' has invalid stateMutability'')))
            (\<lambda>mut. res_bind
               (case dget d ''payable'' of
                  PNone \<Rightarrow> Inr None
                | PBool b \<Rightarrow> Inr (Some b)
                | _ \<Rightarrow> Inl (ValueError (scope @ '' has invalid payable flag'')))
            (\<lambda>pay. res_bind
               (guard (case (mut, pay) of (Some m, Some b) \<Rightarrow> b = (m = ''payable'') | _ \<Rightarrow> True)
                 (ValueError (scope @ '' has conflicting mutability fields'')))
            (\<lambda>_. Inr \<lparr>fn_name = nm, fn_inputs = inputs, fn_mutability = mut, fn_payable = pay\<rparr>))))
      | _ \<Rightarrow> Inl (ValueError ''ABI function name must be a Solidity identifier''))"

definition validate_entry :: "(pystr \<Rightarrow> bool) \<Rightarrow> pyval \<Rightarrow> py_exn + abi_entry" where
  "validate_entry encodable v =
     (case v of
        PDict d \<Rightarrow>
          if dget d ''type'' = PStr ''function''
          then res_bind (validate_function encodable d) (\<lambda>fn. Inr (FunctionEntry fn))
          else Inr OtherEntry
      | _ \<Rightarrow> Inl (ValueError ''every contract ABI entry must be a JSON object''))"

definition validate_abi ::
  "(rat \<Rightarrow> pystr) \<Rightarrow> (pystr \<Rightarrow> bool) \<Rightarrow> pyval \<Rightarrow> py_exn + abi_entry list" where
  "validate_abi fr encodable v =
     (case v of
        PList entries \<Rightarrow>
          if MAX_ABI_ENTRIES < int (length entries)
          then Inl (ValueError ''contract ABI exceeds 1024 entries'')
          else if \<not> list_all is_dict entries
          then Inl (ValueError ''every contract ABI entry must be a JSON object'')
          else
            (case json_text fr False True v of
               None \<Rightarrow> Inl (ValueError ''contract ABI must contain only finite JSON values'')
             | Some t \<Rightarrow>
                 if MAX_REMOTE_BYTES < int (length (utf8 t))
                 then Inl (ValueError ''contract ABI exceeds encoded size limit'')
                 else res_map (validate_entry encodable) entries)
      | _ \<Rightarrow> Inl (ValueError ''contract ABI must be a JSON array''))"

text \<open>
  \<open>descriptor_abi\<close>: the inline ABI, or the cached file of the first deployment.
  \<open>cache\<close> is the directory: no file, a file that does not parse, or its JSON value.
\<close>

definition descriptor_abi ::
  "(rat \<Rightarrow> pystr) \<Rightarrow> (pystr \<Rightarrow> bool) \<Rightarrow> (int \<Rightarrow> pystr \<Rightarrow> (py_exn + pyval) option) \<Rightarrow> pyval \<Rightarrow>
   py_exn + abi_entry list" where
  "descriptor_abi fr encodable cache desc =
     (case desc of
        PDict d \<Rightarrow>
          (case (case dget d ''context'' of PDict c \<Rightarrow> map_of c ''contract'' | _ \<Rightarrow> None) of
             None \<Rightarrow> Inl (ValueError ''descriptor must contain context.contract'')
           | Some (PDict contract) \<Rightarrow>
               if is_list (dget contract ''abi'')
               then validate_abi fr encodable (dget contract ''abi'')
               else
                 (case dget contract ''deployments'' of
                    PList (PDict dep # _) \<Rightarrow>
                      res_bind (normalize_chain_id (dget dep ''chainId''))
                      (\<lambda>chain. res_bind (normalize_address (dget dep ''address''))
                      (\<lambda>addr. case cache chain addr of
                          None \<Rightarrow> Inl (ValueError (''verified ABI is not cached for deployment ''
                                    @ int_str chain @ '':'' @ addr))
                        | Some r \<Rightarrow> res_bind r (validate_abi fr encodable)))
                  | PList (_ # _) \<Rightarrow> Inl (ValueError ''descriptor deployment must be a JSON object'')
                  | _ \<Rightarrow> Inl (ValueError
                      ''descriptor must contain an inline ABI or at least one deployment''))
           | Some _ \<Rightarrow> Inl (ValueError ''descriptor context.contract must be a JSON object''))
      | _ \<Rightarrow> Inl (ValueError ''descriptor must be a JSON object''))"

section \<open>Facts\<close>

fun input_ok :: "(pystr \<Rightarrow> bool) \<Rightarrow> abi_input \<Rightarrow> bool" where
  "input_ok encodable (AbiInput nm t comps) \<longleftrightarrow>
     strip_arrays t \<notin> set ALIASES \<and> encodable (canonical_type (AbiInput nm t comps))
     \<and> (if py_startswith t ''tuple'' then list_all (input_ok encodable) comps else comps = [])"

definition function_ok :: "(pystr \<Rightarrow> bool) \<Rightarrow> abi_function \<Rightarrow> bool" where
  "function_ok encodable fn \<longleftrightarrow>
     is_identifier (fn_name fn) \<and> list_all (input_ok encodable) (fn_inputs fn)
     \<and> (case fn_mutability fn of None \<Rightarrow> True | Some m \<Rightarrow> m \<in> set MUTABILITIES
          \<and> (case fn_payable fn of None \<Rightarrow> True | Some b \<Rightarrow> b = (m = ''payable'')))"

lemma validate_inputs_ok:
  "validate_inputs encodable scope v = Inr inps \<Longrightarrow> list_all (input_ok encodable) inps"
  "validate_items encodable scope items = Inr inps \<Longrightarrow> list_all (input_ok encodable) inps"
proof (induction encodable scope v and encodable scope items arbitrary: inps and inps
    rule: validate_inputs_validate_items.induct)
  case (1 encodable scope v)
  then show ?case by (auto split: pyval.splits simp del: validate_items.simps)
next
  case (2 encodable scope)
  then show ?case by simp
next
  case (3 encodable scope item items)
  from "3.prems" obtain d nm t comps rest where d: "item = PDict d"
    and nt: "dget_or d ''name'' (PStr []) = PStr nm" "dget d ''type'' = PStr t"
    and al: "strip_arrays t \<notin> set ALIASES"
    and comps: "(if py_startswith t ''tuple''
                 then validate_inputs encodable (scope @ '' tuple'') (dget d ''components'')
                 else Inr []) = Inr comps"
    and enc: "encodable (canonical_type (AbiInput (if map_of d ''name'' = None then None else Some nm) t comps))"
    and rest: "validate_items encodable scope items = Inr rest"
    and inps: "inps = AbiInput (if map_of d ''name'' = None then None else Some nm) t comps # rest"
    by (auto simp: res_bind_Inr_iff Let_def simp del: canonical_type.simps validate_inputs.simps
        split: pyval.splits if_splits)
  have "py_startswith t ''tuple'' \<Longrightarrow> list_all (input_ok encodable) comps"
    using "3.IH"(1) [OF d refl nt al] comps by simp
  moreover have "\<not> py_startswith t ''tuple'' \<Longrightarrow> comps = []" using comps by simp
  moreover have "list_all (input_ok encodable) rest"
    using "3.IH"(2) [OF d refl nt al comps refl] enc rest by simp
  ultimately show ?case using al enc by (simp add: inps del: canonical_type.simps)
qed

lemma validate_function_ok:
  assumes "validate_function encodable d = Inr fn"
  shows "function_ok encodable fn"
proof -
  from assms obtain nm inputs mut pay where
    nm: "is_identifier nm" and inputs: "list_all (input_ok encodable) inputs"
    and mut: "(case dget d ''stateMutability'' of PNone \<Rightarrow> Inr None
        | PStr m \<Rightarrow> if m \<in> set MUTABILITIES then Inr (Some m)
              else Inl (ValueError (''ABI function '' @ py_repr nm @ '' has invalid stateMutability''))
        | _ \<Rightarrow> Inl (ValueError (''ABI function '' @ py_repr nm @ '' has invalid stateMutability''))) = Inr mut"
    and agree: "case (mut, pay) of (Some m, Some b) \<Rightarrow> b = (m = ''payable'') | _ \<Rightarrow> True"
    and fn: "fn = \<lparr>fn_name = nm, fn_inputs = inputs, fn_mutability = mut, fn_payable = pay\<rparr>"
    by (auto simp: validate_function_def Let_def res_bind_Inr_iff split: pyval.splits if_splits
        dest!: validate_inputs_ok(1) simp del: validate_inputs.simps)
  from mut have "case mut of None \<Rightarrow> True | Some m \<Rightarrow> m \<in> set MUTABILITIES"
    by (auto split: pyval.splits if_splits)
  with nm inputs agree show ?thesis
    by (auto simp: fn function_ok_def split: option.splits)
qed

lemma validate_abi_functions:
  assumes "validate_abi fr encodable v = Inr abi" and "FunctionEntry fn \<in> set abi"
  shows "function_ok encodable fn"
proof -
  from assms(1) obtain entries where "res_map (validate_entry encodable) entries = Inr abi"
    by (auto simp: validate_abi_def split: pyval.splits if_splits option.splits)
  from res_map_Inr_set [OF this assms(2)] obtain e where "validate_entry encodable e = Inr (FunctionEntry fn)"
    by blast
  then show ?thesis
    by (auto simp: validate_entry_def res_bind_Inr_iff validate_function_ok split: pyval.splits if_splits)
qed

lemma signable_functions_iff:
  "fn \<in> set (signable_functions abi) \<longleftrightarrow> FunctionEntry fn \<in> set abi \<and> is_signable fn"
  by (induction abi rule: signable_functions.induct) auto

lemma descriptor_abi_functions:
  "descriptor_abi fr encodable cache desc = Inr abi \<Longrightarrow> FunctionEntry fn \<in> set abi \<Longrightarrow>
     function_ok encodable fn"
  by (auto simp: descriptor_abi_def res_bind_Inr_iff validate_abi_functions
      split: pyval.splits option.splits if_splits list.splits)

text \<open>
  What every analysis may assume of an ABI that \<open>validate_abi\<close> accepted: at most 1024
  entries, all objects, and every function in it has a Solidity identifier for a name,
  inputs whose canonical types are encodable EVM types without the alias spellings (at
  every depth of tuple), one of the four mutabilities if any, and a legacy \<open>payable\<close>
  flag that agrees with it.
\<close>

theorem validate_abi_sound:
  assumes "validate_abi fr encodable v = Inr abi"
  shows "length abi \<le> 1024 \<and> (\<exists>ds. v = PList (map PDict ds) \<and> length ds = length abi)
    \<and> (\<forall>fn. FunctionEntry fn \<in> set abi \<longrightarrow> is_identifier (fn_name fn)
         \<and> list_all (input_ok encodable) (fn_inputs fn)
         \<and> (case fn_mutability fn of None \<Rightarrow> True
            | Some m \<Rightarrow> m \<in> {''pure'', ''view'', ''nonpayable'', ''payable''}
                \<and> (fn_payable fn \<noteq> None \<longrightarrow> fn_payable fn = Some (m = ''payable''))))"
proof -
  from assms obtain entries where v: "v = PList entries" "length entries \<le> 1024" "list_all is_dict entries"
    and abi: "res_map (validate_entry encodable) entries = Inr abi"
    by (auto simp: validate_abi_def MAX_ABI_ENTRIES_def split: pyval.splits if_splits option.splits)
  have "entries = map PDict (map (\<lambda>e. case e of PDict d \<Rightarrow> d | _ \<Rightarrow> []) entries)"
    using v(3) by (induction entries) (auto elim!: is_dict.elims)
  then have "\<exists>ds. entries = map PDict ds \<and> length ds = length abi"
    using res_map_Inr_length [OF abi] by (metis length_map)
  moreover have "is_identifier (fn_name fn) \<and> list_all (input_ok encodable) (fn_inputs fn)
      \<and> (case fn_mutability fn of None \<Rightarrow> True
         | Some m \<Rightarrow> m \<in> {''pure'', ''view'', ''nonpayable'', ''payable''}
             \<and> (fn_payable fn \<noteq> None \<longrightarrow> fn_payable fn = Some (m = ''payable'')))"
    if "FunctionEntry fn \<in> set abi" for fn
    using validate_abi_functions [OF assms that]
    unfolding function_ok_def MUTABILITIES_def by (cases "fn_mutability fn"; cases "fn_payable fn") simp_all
  ultimately show ?thesis using v(1,2) res_map_Inr_length [OF abi] by auto
qed

definition toy_abi_json :: pyval where
  "toy_abi_json = PList [PDict [(''type'', PStr ''function''), (''name'', PStr ''f''),
     (''inputs'', PList [PDict [(''name'', PStr ''to''), (''type'', PStr ''address'')]]),
     (''stateMutability'', PStr ''payable'')]]"

definition toy_function :: abi_function where
  "toy_function = \<lparr>fn_name = ''f'', fn_inputs = [AbiInput (Some ''to'') ''address'' []],
     fn_mutability = Some ''payable'', fn_payable = None\<rparr>"

lemma toy_validate_abi:
  "validate_abi (\<lambda>_. []) (\<lambda>t. t = ''address'') toy_abi_json = Inr [FunctionEntry toy_function]"
  by code_simp

theorem validate_abi_sound_witness:
  "length [FunctionEntry toy_function] \<le> 1024 \<and> is_identifier (fn_name toy_function)"
  using validate_abi_sound [OF toy_validate_abi] by simp

end
