(* ===== verification/Danger.thy ===== *)
theory Danger
  imports Abi_Common
begin

text \<open>
  \<open>scripts/danger.py\<close>: the structural danger primitives of a function, from its name and
  its input types and names alone. The fixed explanation (\<open>why\<close>) that goes with each
  primitive is prose determined by the primitive and is left out.
\<close>

section \<open>Name patterns\<close>

definition CALL_FN :: "pystr list" where
  "CALL_FN = [''execute'', ''exec'', ''multicall'', ''aggregate'', ''tryaggregate'', ''forward'',
     ''proxy'', ''call'', ''functioncall'', ''delegatecall'', ''dispatch'', ''relay'', ''batch'']"

definition SWEEP_HINT :: "pystr list" where
  "SWEEP_HINT = [''withdraw'', ''sweep'', ''drain'', ''rescue'', ''recover'', ''skim'', ''collect'']"

definition ADMIN_HINT :: "pystr list" where
  "ADMIN_HINT = [''transferownership'', ''setadmin'', ''setowner'', ''grantrole'', ''renounce'',
     ''setimplementation'']"

definition TARGET_NAME :: "pystr list" where
  "TARGET_NAME = [''target'', ''dest'', ''destination'', ''callee'', ''impl'', ''implementation'']"

definition CALLDATA_NAME :: "pystr list" where
  "CALLDATA_NAME = [''data'', ''calldata'', ''payload'', ''_data'', ''callback'', ''bytecode'']"

definition RECEIVER_HOOKS :: "pystr list" where
  "RECEIVER_HOOKS = [''onerc721received'', ''onerc1155received'', ''onerc1155batchreceived'',
     ''tokensreceived'', ''safetransferfrom'', ''safebatchtransferfrom'']"

text \<open>
  The three uses of a case-insensitive alternation: \<open>match\<close> of an unanchored end,
  \<open>match\<close> between \<open>^\<close> and \<open>$\<close> (which also accepts one final newline), and \<open>search\<close>.
\<close>

definition re_prefix :: "pystr list \<Rightarrow> pystr \<Rightarrow> bool" where
  "re_prefix ws s \<longleftrightarrow> list_ex (\<lambda>w. py_startswith (py_lower s) w) ws"

definition re_whole :: "pystr list \<Rightarrow> pystr \<Rightarrow> bool" where
  "re_whole ws s \<longleftrightarrow>
     py_lower s \<in> set ws
     \<or> (s \<noteq> [] \<and> code (last s) = 10 \<and> py_lower (butlast s) \<in> set ws)"

definition re_search :: "pystr list \<Rightarrow> pystr \<Rightarrow> bool" where
  "re_search ws s \<longleftrightarrow> list_ex (\<lambda>w. py_in w (py_lower s)) ws"

section \<open>Assessing one function\<close>

datatype severity = CRITICAL | HIGH | MEDIUM | LOW | INFO

record danger_finding =
  df_severity :: severity
  df_function :: pystr
  df_primitive :: pystr

definition input_name :: "abi_input \<Rightarrow> pystr" where
  "input_name i = (case ai_name i of None \<Rightarrow> [] | Some n \<Rightarrow> n)"

definition input_types :: "abi_function \<Rightarrow> pystr list" where
  "input_types fn = map canonical_type (fn_inputs fn)"

definition named_target_and_calldata :: "abi_function \<Rightarrow> bool" where
  "named_target_and_calldata fn \<longleftrightarrow>
     list_ex (\<lambda>i. py_startswith (ai_type i) ''address'' \<and> re_whole TARGET_NAME (input_name i)) (fn_inputs fn)
     \<and> list_ex (\<lambda>i. ai_type i = ''bytes'' \<and> re_whole CALLDATA_NAME (input_name i)) (fn_inputs fn)"

definition is_call_fn :: "abi_function \<Rightarrow> bool" where
  "is_call_fn fn = re_prefix CALL_FN (fn_name fn)"

definition is_multicall :: "abi_function \<Rightarrow> bool" where
  "is_multicall fn \<longleftrightarrow>
     ''bytes[]'' \<in> set (input_types fn)
     \<and> list_ex (\<lambda>k. py_in k (py_lower (fn_name fn))) [''multicall'', ''aggregate'', ''batch'', ''execute'']"

definition has_address :: "abi_function \<Rightarrow> bool" where
  "has_address fn = list_ex (\<lambda>t. py_startswith t ''address'') (input_types fn)"

definition assess :: "abi_function \<Rightarrow> danger_finding list" where
  "assess fn =
     (let name = fn_name fn; lname = py_lower name;
          flag = (\<lambda>sev prim. \<lparr>df_severity = sev, df_function = name, df_primitive = prim\<rparr>)
      in
        (if lname \<in> set RECEIVER_HOOKS then []
         else if is_call_fn fn \<or> named_target_and_calldata fn
         then [flag CRITICAL ''arbitrary-external-call'']
         else if is_multicall fn then [flag CRITICAL ''multicall'']
         else [])
        @ (if re_search [''delegatecall'', ''delegate''] lname \<and> py_in ''delegate'' lname \<and> has_address fn
           then [flag CRITICAL ''delegatecall''] else [])
        @ (if lname \<in> {''selfdestruct'', ''kill'', ''destroy'', ''destruct''} \<or> py_in ''selfdestruct'' lname
           then [flag CRITICAL ''self-destruct''] else [])
        @ (if lname = ''upgradetoandcall'' \<or> (py_in ''upgrade'' lname \<and> named_target_and_calldata fn)
           then [flag CRITICAL ''upgrade-and-execute''] else [])
        @ (if lname = ''setapprovalforall'' then [flag HIGH ''unbounded-delegation''] else [])
        @ (if re_search ADMIN_HINT lname then [flag HIGH ''authority-transfer''] else [])
        @ (if re_search SWEEP_HINT lname \<and> has_address fn
           then [flag MEDIUM ''value-sweep-to-arbitrary-address''] else []))"

section \<open>Scanning a descriptor\<close>

text \<open>\<open>SEV_ORDER.index\<close>.\<close>

fun sev_index :: "severity \<Rightarrow> nat" where
  "sev_index CRITICAL = 0"
| "sev_index HIGH = 1"
| "sev_index MEDIUM = 2"
| "sev_index LOW = 3"
| "sev_index INFO = 4"

definition sort_findings :: "danger_finding list \<Rightarrow> danger_finding list" where
  "sort_findings fs = sort_key (\<lambda>f. sev_index (df_severity f)) fs"

record danger_report =
  dr_findings :: "danger_finding list"
  dr_critical :: nat
  dr_worst :: "severity option"
  dr_signable :: nat

definition scan_abi :: "abi_entry list \<Rightarrow> danger_report" where
  "scan_abi abi =
     (let findings = sort_findings (concat (map assess (signable_functions abi)))
      in \<lparr>dr_findings = findings,
          dr_critical = length (filter (\<lambda>f. df_severity f = CRITICAL) findings),
          dr_worst = (case findings of [] \<Rightarrow> None | f # _ \<Rightarrow> Some (df_severity f)),
          dr_signable = length (signable_functions abi)\<rparr>)"

definition scan ::
  "(rat \<Rightarrow> pystr) \<Rightarrow> (pystr \<Rightarrow> bool) \<Rightarrow> (int \<Rightarrow> pystr \<Rightarrow> (py_exn + pyval) option) \<Rightarrow> pyval \<Rightarrow>
   py_exn + danger_report" where
  "scan fr encodable cache desc =
     res_bind (descriptor_abi fr encodable cache desc) (\<lambda>abi. Inr (scan_abi abi))"

text \<open>\<open>main --strict\<close>: the exit code.\<close>

definition strict_exit :: "danger_report \<Rightarrow> int" where
  "strict_exit r = (if 0 < dr_critical r then 1 else 0)"

section \<open>Facts\<close>

lemma assess_severity: "f \<in> set (assess fn) \<Longrightarrow> df_severity f \<in> {CRITICAL, HIGH, MEDIUM} \<and> df_function f = fn_name fn"
  by (auto simp: assess_def Let_def split: if_splits)

lemma set_sort_findings [simp]: "set (sort_findings fs) = set fs"
  by (simp add: sort_findings_def)

lemma sort_findings_worst:
  "sort_findings fs = f # fs' \<Longrightarrow> g \<in> set fs \<Longrightarrow> sev_index (df_severity f) \<le> sev_index (df_severity g)"
proof -
  assume s: "sort_findings fs = f # fs'" and g: "g \<in> set fs"
  have "sorted (map (\<lambda>f. sev_index (df_severity f)) (sort_findings fs))"
    by (simp add: sort_findings_def)
  moreover have "g \<in> set (f # fs')" using g s by (metis set_sort_findings)
  ultimately show ?thesis unfolding s by auto
qed

lemma sev_index_0 [simp]: "sev_index s = 0 \<longleftrightarrow> s = CRITICAL"
  by (cases s) auto

lemma sev_index_le_0 [simp]: "sev_index s \<le> sev_index CRITICAL \<longleftrightarrow> s = CRITICAL"
  by (cases s) auto

text \<open>
  \<open>danger.scan\<close> hides nothing: the report holds, worst first, exactly the findings of
  the signable functions; its worst severity is critical exactly when some signable
  function exposes a critical primitive, exactly when the critical count is positive and
  the strict run exits with failure; and no worst severity is reported only when no
  signable function has a finding.
\<close>

theorem danger_scan_complete:
  "(f \<in> set (dr_findings (scan_abi abi)) \<longleftrightarrow>
      (\<exists>fn. FunctionEntry fn \<in> set abi \<and> is_signable fn \<and> f \<in> set (assess fn)))
   \<and> sorted (map (\<lambda>f. sev_index (df_severity f)) (dr_findings (scan_abi abi)))
   \<and> (dr_worst (scan_abi abi) = Some CRITICAL \<longleftrightarrow>
        (\<exists>fn. FunctionEntry fn \<in> set abi \<and> is_signable fn
            \<and> CRITICAL \<in> df_severity ` set (assess fn)))
   \<and> (dr_worst (scan_abi abi) = Some CRITICAL \<longleftrightarrow> 0 < dr_critical (scan_abi abi))
   \<and> (dr_worst (scan_abi abi) = Some CRITICAL \<longleftrightarrow> strict_exit (scan_abi abi) = 1)
   \<and> (dr_worst (scan_abi abi) = None \<longleftrightarrow> dr_findings (scan_abi abi) = [])"
proof -
  let ?fs = "concat (map assess (signable_functions abi))"
  have mem: "g \<in> set ?fs \<longleftrightarrow> (\<exists>fn. FunctionEntry fn \<in> set abi \<and> is_signable fn \<and> g \<in> set (assess fn))" for g
    using signable_functions_iff by auto
  have worst: "dr_worst (scan_abi abi) = Some CRITICAL \<longleftrightarrow> (\<exists>g\<in>set ?fs. df_severity g = CRITICAL)"
  proof (cases "sort_findings ?fs")
    case Nil
    then have "set ?fs = {}" by (metis set_sort_findings set_empty)
    with Nil show ?thesis by (simp add: scan_abi_def Let_def)
  next
    case (Cons g gs)
    then have "g \<in> set ?fs" by (metis list.set_intros(1) set_sort_findings)
    moreover have "df_severity g = CRITICAL" if "h \<in> set ?fs" "df_severity h = CRITICAL" for h
      using sort_findings_worst [OF Cons that(1)] that(2) by simp
    ultimately show ?thesis using Cons by (auto simp: scan_abi_def Let_def)
  qed
  have crit: "0 < dr_critical (scan_abi abi) \<longleftrightarrow> (\<exists>g\<in>set ?fs. df_severity g = CRITICAL)"
    by (auto simp: scan_abi_def Let_def filter_empty_conv)
  have fs: "dr_findings (scan_abi abi) = sort_findings ?fs" by (simp add: scan_abi_def Let_def)
  have "sorted (map (\<lambda>f. sev_index (df_severity f)) (sort_findings ?fs))"
    by (simp add: sort_findings_def)
  moreover have "dr_worst (scan_abi abi) = None \<longleftrightarrow> sort_findings ?fs = []"
    by (simp add: scan_abi_def Let_def split: list.split)
  moreover have "(\<exists>g\<in>set ?fs. df_severity g = CRITICAL) \<longleftrightarrow>
      (\<exists>fn. FunctionEntry fn \<in> set abi \<and> is_signable fn \<and> CRITICAL \<in> df_severity ` set (assess fn))"
    using mem by (auto simp: image_iff) metis+
  ultimately show ?thesis
    unfolding fs worst crit strict_exit_def set_sort_findings mem by auto
qed


definition toy_forwarder :: abi_function where
  "toy_forwarder = \<lparr>fn_name = ''Forward'', fn_inputs = [AbiInput (Some ''a'') ''address'' []],
     fn_mutability = None, fn_payable = None\<rparr>"


text \<open>
  The call-family names are matched as prefixes: a \<open>callback\<close> without any input is
  reported as an arbitrary external call.
\<close>

lemma callback_flagged:
  "assess \<lparr>fn_name = ''callback'', fn_inputs = [], fn_mutability = None, fn_payable = None\<rparr>
   = [\<lparr>df_severity = CRITICAL, df_function = ''callback'', df_primitive = ''arbitrary-external-call''\<rparr>]"
  by code_simp

lemma delegate_flagged:
  "\<lparr>df_severity = CRITICAL, df_function = ''delegate'', df_primitive = ''delegatecall''\<rparr> \<in> set
   (assess \<lparr>fn_name = ''delegate'', fn_inputs = [AbiInput (Some ''delegatee'') ''address'' []],
     fn_mutability = None, fn_payable = None\<rparr>)"
  by code_simp

end
