(* ===== verification/Comprehend.thy ===== *)
theory Comprehend
  imports Danger
begin

text \<open>
  \<open>scripts/comprehend.py\<close>: the risk tier, the reason and the consequence sentence of a
  function, and the grade of a descriptor. A sentence and a reason are values with one
  constructor per template of the source; their arguments are the texts the template
  inserts. An input without a \<open>name\<close> key raises \<open>KeyError\<close> where the code indexes it.
\<close>

section \<open>Display formats\<close>

text \<open>
  What the analyses read of a display format that \<open>validate_descriptor\<close> accepted: absent
  text keys are \<open>None\<close>; \<open>fm_empty\<close> marks the format \<open>{}\<close>, which is falsy.
\<close>

record field =
  fd_path :: "pystr option"
  fd_label :: "pystr option"
  fd_format :: "pystr option"
  fd_visible :: "pystr option"
  fd_params :: "(pystr \<times> pyval) list option"

record fmt =
  fm_fields :: "field list"
  fm_intent :: "pystr option"
  fm_interpolated :: "pystr option"
  fm_empty :: bool

text \<open>Truth value of an optional text, and of optional parameters.\<close>

definition opt_text :: "pystr option \<Rightarrow> bool" where
  "opt_text v \<longleftrightarrow> (case v of None \<Rightarrow> False | Some s \<Rightarrow> s \<noteq> [])"

section \<open>Sentences and reasons\<close>

datatype sentence =
    LetTransferAny pystr
  | LetTakeNft pystr pystr
  | LetSpend pystr pystr
  | ChangeControl pystr
  | SignPermit pystr
  | SendNow pystr pystr
  | CallUnclassified pystr
  | CallUnexplained pystr
  | RevokeOperator pystr
  | RevokeAllowance pystr

datatype reason =
    OperatorGrant
  | NftGrant
  | AllowanceGrant
  | ControlChange
  | OffChainApproval
  | MovesValue bool  \<comment> \<open>recipient shown as raw hexadecimal\<close>
  | UnclassifiedIntent
  | UnclassifiedNoIntent
  | RemovesOperator
  | ZeroAllowance
  | MaximumAllowance

record comprehension =
  cp_tier :: severity
  cp_reason :: reason
  cp_sentence :: sentence
  cp_revocation :: bool
  cp_unlimited :: bool

definition verdict_of :: "severity \<Rightarrow> reason \<Rightarrow> sentence \<Rightarrow> comprehension" where
  "verdict_of t r s = \<lparr>cp_tier = t, cp_reason = r, cp_sentence = s, cp_revocation = False,
     cp_unlimited = False\<rparr>"

section \<open>Classification\<close>

definition lbl :: "pystr \<Rightarrow> pystr \<Rightarrow> pystr" where
  "lbl leaf deflt = ''{'' @ (if leaf \<noteq> [] then leaf else deflt) @ ''}''"

definition name_key :: "abi_input \<Rightarrow> py_exn + pystr" where
  "name_key i = (case ai_name i of None \<Rightarrow> Inl (KeyError ''name'') | Some n \<Rightarrow> Inr n)"

text \<open>\<open>_has_input\<close> for one type prefix; the empty hint is no hint.\<close>

definition has_input :: "abi_function \<Rightarrow> pystr \<Rightarrow> pystr \<Rightarrow> abi_input option" where
  "has_input fn pre hint =
     find (\<lambda>i. py_startswith (canonical_type i) pre
             \<and> (hint = [] \<or> py_in (py_lower hint) (py_lower (input_name i)))) (fn_inputs fn)"

text \<open>\<open>lbl(i["name"], default)\<close> if the input was found, and the fallback text otherwise.\<close>

definition label_or :: "abi_input option \<Rightarrow> pystr \<Rightarrow> pystr \<Rightarrow> py_exn + pystr" where
  "label_or i deflt missing =
     (case i of None \<Rightarrow> Inr missing | Some i \<Rightarrow> res_bind (name_key i) (\<lambda>n. Inr (lbl n deflt)))"

definition or_else :: "'a option \<Rightarrow> 'a option \<Rightarrow> 'a option" where
  "or_else x y = (case x of None \<Rightarrow> y | Some _ \<Rightarrow> x)"

definition is_payable :: "abi_function \<Rightarrow> bool" where
  "is_payable fn \<longleftrightarrow> fn_mutability fn = Some ''payable''"

text \<open>The dictionary of fields by path: the last field with a path wins.\<close>

definition field_by_path :: "fmt \<Rightarrow> pystr \<Rightarrow> field option" where
  "field_by_path fm p = find (\<lambda>f. fd_path f = Some p) (rev (fm_fields fm))"

fun recipient_raw_loop :: "fmt \<Rightarrow> abi_input list \<Rightarrow> py_exn + bool" where
  "recipient_raw_loop fm [] = Inr False"
| "recipient_raw_loop fm (i # is) =
     (if py_startswith (canonical_type i) ''address'' then
        res_bind (name_key i) (\<lambda>n.
          case field_by_path fm (''#.'' @ n) of
            None \<Rightarrow> Inr True
          | Some f \<Rightarrow> if fd_visible f = Some ''never'' \<or> fd_format f \<noteq> Some ''addressName''
                      then Inr True else recipient_raw_loop fm is)
      else recipient_raw_loop fm is)"

definition recipient_shown_raw :: "abi_function \<Rightarrow> fmt option \<Rightarrow> py_exn + bool" where
  "recipient_shown_raw fn fm =
     (case fm of
        None \<Rightarrow> Inr (has_input fn ''address'' [] \<noteq> None)
      | Some fm \<Rightarrow> if fm_empty fm then Inr (has_input fn ''address'' [] \<noteq> None)
                  else recipient_raw_loop fm (fn_inputs fn))"

definition ADMIN_WORDS :: "pystr list" where
  "ADMIN_WORDS = [''upgrade'', ''setimplementation'', ''setadmin'', ''transferownership'',
     ''setowner'', ''grantrole'']"

definition is_grant_all :: "abi_function \<Rightarrow> bool" where
  "is_grant_all fn \<longleftrightarrow> py_lower (fn_name fn) = ''setapprovalforall''
     \<or> (py_in ''approval'' (py_lower (fn_name fn)) \<and> has_input fn ''bool'' [] \<noteq> None)"

definition is_approve_name :: "pystr \<Rightarrow> bool" where
  "is_approve_name lname \<longleftrightarrow>
     lname \<in> {''approve'', ''increaseallowance''} \<or> py_endswith lname ''approve''"

definition classify_approve :: "abi_function \<Rightarrow> py_exn + comprehension" where
  "classify_approve fn =
     (let spender = has_input fn ''address'' []; amount = has_input fn ''uint'' [] in
      res_bind (label_or spender ''spender'' ''a spender'')
      (\<lambda>who.
        if (case amount of None \<Rightarrow> False | Some a \<Rightarrow> py_in ''tokenid'' (py_lower (input_name a)))
        then res_bind (label_or amount ''token id'' [])
             (\<lambda>tok. Inr (verdict_of HIGH NftGrant (LetTakeNft who tok)))
        else res_bind (label_or amount ''amount'' ''an amount'')
             (\<lambda>amt. Inr (verdict_of HIGH AllowanceGrant (LetSpend who amt)))))"

definition classify_transfer :: "abi_function \<Rightarrow> fmt option \<Rightarrow> py_exn + comprehension" where
  "classify_transfer fn fm =
     (let recipient = or_else (has_input fn ''address'' ''to'') (has_input fn ''address'' []);
          amount = or_else (has_input fn ''uint'' ''amount'') (has_input fn ''uint'' []) in
      res_bind (label_or recipient ''recipient'' ''a recipient'')
      (\<lambda>who. res_bind (if is_payable fn then Inr (lbl ''@value'' ''amount'')
                       else label_or amount ''amount'' (lbl [] ''amount''))
      (\<lambda>amt. res_bind (recipient_shown_raw fn fm)
      (\<lambda>raw. Inr (verdict_of (if raw then HIGH else MEDIUM) (MovesValue raw) (SendNow amt who))))))"

definition classify :: "abi_function \<Rightarrow> fmt option \<Rightarrow> py_exn + comprehension" where
  "classify fn fm =
     (let lname = py_lower (fn_name fn) in
      if is_grant_all fn
      then res_bind (label_or (has_input fn ''address'' []) ''operator'' ''an operator'')
           (\<lambda>who. Inr (verdict_of CRITICAL OperatorGrant (LetTransferAny who)))
      else if is_approve_name lname then classify_approve fn
      else if list_ex (\<lambda>k. py_in k lname) ADMIN_WORDS
      then Inr (verdict_of CRITICAL ControlChange (ChangeControl (fn_name fn)))
      else if py_in ''permit'' lname
      then res_bind (label_or (or_else (has_input fn ''address'' ''spend'') (has_input fn ''address'' []))
                       ''spender'' ''a spender'')
           (\<lambda>who. Inr (verdict_of HIGH OffChainApproval (SignPermit who)))
      else if py_in ''transfer'' lname \<or> lname \<in> {''send'', ''withdraw''} \<or> is_payable fn
      then classify_transfer fn fm
      else if (case fm of None \<Rightarrow> False
               | Some fm \<Rightarrow> opt_text (fm_intent fm) \<or> opt_text (fm_interpolated fm))
      then Inr (verdict_of HIGH UnclassifiedIntent (CallUnclassified (fn_name fn)))
      else Inr (verdict_of HIGH UnclassifiedNoIntent (CallUnexplained (fn_name fn))))"

section \<open>Grading a descriptor\<close>

fun tier_penalty :: "severity \<Rightarrow> int" where
  "tier_penalty CRITICAL = 30"
| "tier_penalty HIGH = 12"
| "tier_penalty MEDIUM = 5"
| "tier_penalty LOW = 2"
| "tier_penalty INFO = 0"

text \<open>The \<open>GRADES\<close> table, the same in \<open>audit.py\<close>.\<close>

definition grade_of :: "int \<Rightarrow> pystr" where
  "grade_of score = (if 90 \<le> score then ''A'' else if 80 \<le> score then ''B''
     else if 70 \<le> score then ''C'' else if 60 \<le> score then ''D'' else ''F'')"

record function_report =
  fr_function :: pystr
  fr_signature :: pystr
  fr_result :: comprehension

record comprehension_report =
  cr_score :: int
  cr_grade :: pystr
  cr_worst :: severity
  cr_functions :: "function_report list"

definition comprehend :: "abi_entry list \<Rightarrow> (pystr \<times> fmt) list \<Rightarrow> py_exn + comprehension_report" where
  "comprehend abi formats =
     res_bind
       (res_map (\<lambda>fn. res_bind (classify fn (map_of formats (signature fn)))
          (\<lambda>c. Inr \<lparr>fr_function = fn_name fn, fr_signature = signature fn, fr_result = c\<rparr>))
         (signable_functions abi))
     (\<lambda>results.
       let sorted_results = sort_key (\<lambda>r. sev_index (cp_tier (fr_result r))) results;
           score = max 0 (100 - sum_list (map (\<lambda>r. tier_penalty (cp_tier (fr_result r))) sorted_results))
       in Inr \<lparr>cr_score = score, cr_grade = grade_of score,
               cr_worst = (case sorted_results of [] \<Rightarrow> INFO | r # _ \<Rightarrow> cp_tier (fr_result r)),
               cr_functions = sorted_results\<rparr>)"

section \<open>Facts\<close>

definition named_inputs :: "abi_function \<Rightarrow> bool" where
  "named_inputs fn \<longleftrightarrow> list_all (\<lambda>i. ai_name i \<noteq> None) (fn_inputs fn)"

lemma has_input_set: "has_input fn pre hint = Some i \<Longrightarrow> i \<in> set (fn_inputs fn) \<and> py_startswith (canonical_type i) pre"
  by (auto simp: has_input_def find_Some_iff)

lemma label_or_named:
  "named_inputs fn \<Longrightarrow> (\<And>i. x = Some i \<Longrightarrow> i \<in> set (fn_inputs fn)) \<Longrightarrow> succeeds (label_or x d m)"
  by (cases x) (auto simp: label_or_def name_key_def named_inputs_def list_all_iff split: option.split)

lemma or_else_set:
  "or_else (has_input fn p h) (has_input fn p' h') = Some i \<Longrightarrow> i \<in> set (fn_inputs fn)"
  by (auto simp: or_else_def dest: has_input_set split: option.splits)

lemma label_has_input: "named_inputs fn \<Longrightarrow> succeeds (label_or (has_input fn p h) d m)"
  by (rule label_or_named) (auto dest: has_input_set)

lemma label_or_else:
  "named_inputs fn \<Longrightarrow> succeeds (label_or (or_else (has_input fn p h) (has_input fn p' h')) d m)"
  by (rule label_or_named) (auto dest: or_else_set)

text \<open>An address shown as such: some always relevant field renders it with \<open>addressName\<close>.\<close>

definition address_named :: "fmt \<Rightarrow> abi_input \<Rightarrow> bool" where
  "address_named fm i \<longleftrightarrow> (\<exists>n f. ai_name i = Some n \<and> f \<in> set (fm_fields fm)
     \<and> fd_path f = Some (''#.'' @ n) \<and> fd_visible f \<noteq> Some ''never'' \<and> fd_format f = Some ''addressName'')"

lemma recipient_raw_loop_False:
  "recipient_raw_loop fm is = Inr False \<Longrightarrow> i \<in> set is \<Longrightarrow> py_startswith (canonical_type i) ''address'' \<Longrightarrow>
   address_named fm i"
proof (induction fm "is" rule: recipient_raw_loop.induct)
  case (1 fm)
  then show ?case by simp
next
  case (2 fm j js)
  show ?case
  proof (cases "py_startswith (canonical_type j) ''address''")
    case False
    then show ?thesis using "2.IH"(2) [OF False] "2.prems" by auto
  next
    case True
    with "2.prems"(1) obtain n f where n: "name_key j = Inr n" and f: "field_by_path fm (''#.'' @ n) = Some f"
      and v: "fd_visible f \<noteq> Some ''never''" "fd_format f = Some ''addressName''"
      and rest: "recipient_raw_loop fm js = Inr False"
      by (auto simp: res_bind_Inr_iff simp del: append_Cons split: option.splits if_splits)
    from f have "f \<in> set (fm_fields fm) \<and> fd_path f = Some (''#.'' @ n)"
      by (auto simp: field_by_path_def find_Some_iff rev_nth)
    then have "address_named fm j"
      using n v by (auto simp: address_named_def name_key_def split: option.splits)
    then show ?thesis
      using "2.IH"(1) [OF True n f _ rest] "2.prems"(2,3) v by auto
  qed
qed

lemma recipient_raw_named:
  "list_all (\<lambda>i. ai_name i \<noteq> None) is \<Longrightarrow> succeeds (recipient_raw_loop fm is)"
  by (induction fm "is" rule: recipient_raw_loop.induct)
    (auto simp: name_key_def simp del: append_Cons intro!: succeeds_bind split: option.splits)

lemma recipient_shown_raw_named: "named_inputs fn \<Longrightarrow> succeeds (recipient_shown_raw fn fm)"
  using recipient_raw_named [of "fn_inputs fn"]
  by (auto simp: recipient_shown_raw_def named_inputs_def split: option.split)

text \<open>A function whose action \<open>classify\<close> calls a transfer of value.\<close>

definition moves_value :: "abi_function \<Rightarrow> bool" where
  "moves_value fn \<longleftrightarrow> py_in ''transfer'' (py_lower (fn_name fn))
     \<or> py_lower (fn_name fn) \<in> {''send'', ''withdraw''} \<or> is_payable fn"

lemma classify_approve_tier: "classify_approve fn = Inr c \<Longrightarrow> cp_tier c = HIGH"
  by (auto simp: classify_approve_def Let_def res_bind_Inr_iff verdict_of_def split: if_splits)

lemma classify_transfer_Inr:
  "classify_transfer fn fm = Inr c \<Longrightarrow>
     \<exists>raw. recipient_shown_raw fn fm = Inr raw \<and> cp_tier c = (if raw then HIGH else MEDIUM)"
proof -
  assume "classify_transfer fn fm = Inr c"
  then obtain raw r s where "recipient_shown_raw fn fm = Inr raw"
      "Inr c = (Inr (verdict_of (if raw then HIGH else MEDIUM) r s) :: py_exn + comprehension)"
    unfolding classify_transfer_def Let_def res_bind_Inr_iff by metis
  then show ?thesis by (auto simp: verdict_of_def)
qed

lemma not_raw_named:
  "recipient_shown_raw fn fm = Inr False \<Longrightarrow> i \<in> set (fn_inputs fn) \<Longrightarrow>
   py_startswith (canonical_type i) ''address'' \<Longrightarrow> \<exists>m. fm = Some m \<and> address_named m i"
  using recipient_raw_loop_False [of _ "fn_inputs fn" i]
  by (auto simp: recipient_shown_raw_def has_input_def find_None_iff split: option.splits if_splits)

lemma classify_cases:
  assumes "classify fn fm = Inr c"
  shows "cp_tier c = CRITICAL \<or> cp_tier c = HIGH \<or> (classify_transfer fn fm = Inr c \<and> moves_value fn)"
  using assms classify_approve_tier [of fn c] unfolding classify_def Let_def moves_value_def
  by (simp only: split: if_splits) (auto simp: res_bind_Inr_iff verdict_of_def)

lemma classify_named: "named_inputs fn \<Longrightarrow> succeeds (classify fn fm)"
  unfolding classify_def classify_approve_def classify_transfer_def Let_def
  by (simp add: label_has_input label_or_else recipient_shown_raw_named succeeds_bind)

text \<open>
  \<open>classify\<close> is conservative. No signable function is ever rated below medium;
  the medium rating is given only to a transfer of value all of whose address inputs the
  screen shows by name; every function outside the known patterns is rated high, with
  or without caller-written intent; and on an ABI with named inputs the classification
  always produces a result.
\<close>

theorem classify_conservative:
  "(classify fn fm = Inr c \<longrightarrow> cp_tier c \<in> {CRITICAL, HIGH, MEDIUM}
      \<and> (cp_tier c = MEDIUM \<longrightarrow> moves_value fn
           \<and> (\<forall>i\<in>set (fn_inputs fn). py_startswith (canonical_type i) ''address'' \<longrightarrow>
                (\<exists>m. fm = Some m \<and> address_named m i)))
      \<and> (py_lower (fn_name fn) = ''setapprovalforall'' \<longrightarrow> cp_tier c = CRITICAL))
   \<and> (named_inputs fn \<longrightarrow> (\<exists>c. classify fn fm = Inr c))"
proof (intro conjI impI)
  assume c: "classify fn fm = Inr c"
  note cases = classify_cases [OF c]
  then consider "cp_tier c = CRITICAL \<or> cp_tier c = HIGH"
    | raw where "moves_value fn" "recipient_shown_raw fn fm = Inr raw" "cp_tier c = (if raw then HIGH else MEDIUM)"
    using classify_transfer_Inr by blast
  then show "cp_tier c \<in> {CRITICAL, HIGH, MEDIUM}" by cases auto
  assume "cp_tier c = MEDIUM"
  with cases have "moves_value fn" "recipient_shown_raw fn fm = Inr False"
    using classify_transfer_Inr [of fn fm c] by (auto split: if_splits)
  then show "moves_value fn" "\<forall>i\<in>set (fn_inputs fn). py_startswith (canonical_type i) ''address'' \<longrightarrow>
      (\<exists>m. fm = Some m \<and> address_named m i)"
    using not_raw_named by blast+
next
  assume "classify fn fm = Inr c" "py_lower (fn_name fn) = ''setapprovalforall''"
  then show "cp_tier c = CRITICAL"
    by (auto simp: classify_def Let_def is_grant_all_def res_bind_Inr_iff verdict_of_def)
next
  assume "named_inputs fn"
  then show "\<exists>c. classify fn fm = Inr c" using classify_named [of fn fm] by (simp add: succeeds_def)
qed

definition toy_transfer :: abi_function where
  "toy_transfer = \<lparr>fn_name = ''transfer'', fn_inputs = [AbiInput (Some ''to'') ''address'' [],
     AbiInput (Some ''amount'') ''uint256'' []], fn_mutability = Some ''nonpayable'', fn_payable = None\<rparr>"

definition toy_fmt :: fmt where
  "toy_fmt = \<lparr>fm_fields =
     [\<lparr>fd_path = Some ''#.to'', fd_label = Some ''To'', fd_format = Some ''addressName'',
        fd_visible = None, fd_params = None\<rparr>,
      \<lparr>fd_path = Some ''#.amount'', fd_label = Some ''Amount'', fd_format = Some ''amount'',
        fd_visible = Some ''always'', fd_params = None\<rparr>],
     fm_intent = Some ''Send tokens'', fm_interpolated = None, fm_empty = False\<rparr>"

theorem classify_conservative_witness:
  "\<exists>c. classify toy_transfer (Some toy_fmt) = Inr c \<and> cp_tier c \<in> {CRITICAL, HIGH, MEDIUM}"
proof -
  have "named_inputs toy_transfer" by (simp add: named_inputs_def toy_transfer_def)
  then show ?thesis using classify_conservative [of toy_transfer "Some toy_fmt"] by blast
qed

end
