(* ===== verification/Audit_Screen.thy ===== *)
theory Audit_Screen
  imports Comprehend
begin

text \<open>
  \<open>scripts/audit.py\<close>: the canonical form of a format key and the score of a descriptor's
  screens. Findings carry the severity, the function and the text of the source.
\<close>

section \<open>Canonical format keys\<close>

text \<open>\<open>_split_top\<close>: the loop over the characters, with the parts read so far.\<close>

fun split_top_loop :: "int \<Rightarrow> pystr \<Rightarrow> pystr list \<Rightarrow> pystr \<Rightarrow> pystr list \<times> pystr" where
  "split_top_loop depth cur parts [] = (parts, cur)"
| "split_top_loop depth cur parts (c # s) =
     (if c = CHR ''('' then split_top_loop (depth + 1) (cur @ [c]) parts s
      else if c = CHR '')'' then split_top_loop (depth - 1) (cur @ [c]) parts s
      else if c = CHR '','' \<and> depth = 0 then split_top_loop depth [] (parts @ [cur]) s
      else split_top_loop depth (cur @ [c]) parts s)"

definition split_top :: "pystr \<Rightarrow> pystr list" where
  "split_top params =
     (let (parts, tail) = split_top_loop 0 [] [] params;
          parts1 = (if py_strip tail \<noteq> [] \<or> parts \<noteq> [] then parts @ [tail] else parts)
      in map py_strip (filter (\<lambda>p. py_strip p \<noteq> []) parts1))"

text \<open>The index of the parenthesis that closes the first one, if any.\<close>

fun close_index :: "int \<Rightarrow> pystr \<Rightarrow> nat option" where
  "close_index depth [] = None"
| "close_index depth (c # s) =
     (let d = depth + (if c = CHR ''('' then 1 else 0) - (if c = CHR '')'' then 1 else 0)
      in if d = 0 then Some 0 else map_option Suc (close_index d s))"

lemma close_index_less: "close_index d s = Some i \<Longrightarrow> i < length s"
  by (induction d s arbitrary: i rule: close_index.induct) (auto simp: Let_def split: if_splits)

lemma length_py_strip_le: "length (py_strip s) \<le> length s"
  using length_dropWhile_le [of is_space s] length_dropWhile_le [of is_space "rev (dropWhile is_space s)"]
  by (simp add: py_strip_def)

lemma split_top_loop_length:
  "split_top_loop d cur parts s = (ps, tail) \<Longrightarrow>
     length tail \<le> length cur + length s
     \<and> (\<forall>p\<in>set ps. p \<in> set parts \<or> length p \<le> length cur + length s)"
proof (induction d cur parts s arbitrary: ps tail rule: split_top_loop.induct)
  case (1 depth cur parts)
  then show ?case by simp
next
  case (2 depth cur parts c s)
  then show ?case by (fastforce split: if_splits)
qed

lemma split_top_length: "p \<in> set (split_top s) \<Longrightarrow> length p \<le> length s"
proof -
  assume p: "p \<in> set (split_top s)"
  obtain ps tail where l: "split_top_loop 0 [] [] s = (ps, tail)" by fastforce
  from p obtain q where "q \<in> insert tail (set ps)" "p = py_strip q"
    by (auto simp: split_top_def l Let_def split: if_splits)
  then show ?thesis
    using split_top_loop_length [OF l] length_py_strip_le [of q] by fastforce
qed

function canon_component :: "pystr \<Rightarrow> pystr" where
  "canon_component c =
     (if take 1 c = ''('' then
        (case close_index 0 c of
           None \<Rightarrow> c
         | Some i \<Rightarrow>
             let rest = drop (Suc i) c;
                 suffix = (if take 1 rest = ''['' then hd (py_words rest) else [])
             in ''('' @ py_join '','' (map canon_component (split_top (take (i - 1) (drop 1 c)))) @ '')'' @ suffix)
      else hd (py_words c))"
  by pat_completeness auto
termination
proof (relation "measure length", goal_cases)
  case 1
  then show ?case by simp
next
  case (2 c i x xa p)
  then have "length p \<le> length (take (i - 1) (drop 1 c))" using split_top_length by blast
  moreover have "i < length c" using 2 close_index_less by blast
  ultimately show ?case by (auto simp: min_def split: if_splits)
qed

declare canon_component.simps [simp del]

definition canonical_key :: "pystr \<Rightarrow> pystr" where
  "canonical_key key =
     (if CHR ''('' \<notin> set key \<or> \<not> py_endswith key '')'' then key
      else
        let name = takeWhile (\<lambda>c. c \<noteq> CHR ''('') key;
            params = butlast (drop (Suc (length name)) key)
        in name @ ''('' @ py_join '','' (map canon_component (split_top params)) @ '')'')"

section \<open>Auditing\<close>

record audit_finding =
  af_severity :: severity
  af_function :: pystr
  af_issue :: pystr

definition finding :: "severity \<Rightarrow> pystr \<Rightarrow> pystr \<Rightarrow> audit_finding" where
  "finding sev sig issue =
     \<lparr>af_severity = sev, af_function = takeWhile (\<lambda>c. c \<noteq> CHR ''('') sig, af_issue = issue\<rparr>"

definition signable_dict :: "abi_entry list \<Rightarrow> (pystr, abi_function) odict" where
  "signable_dict abi = foldl (\<lambda>d fn. AList.update (signature fn) fn d) [] (signable_functions abi)"

text \<open>Non-canonically keyed entries, canonical form to key; a later key replaces.\<close>

definition noncanonical_keys ::
  "(pystr, abi_function) odict \<Rightarrow> (pystr \<times> fmt) list \<Rightarrow> (pystr, pystr) odict" where
  "noncanonical_keys signable formats =
     foldl (\<lambda>d kf. let canon = canonical_key (fst kf) in
        if canon \<noteq> fst kf \<and> map_of signable canon \<noteq> None then AList.update canon (fst kf) d else d)
       [] formats"

definition orphan_findings ::
  "(pystr, abi_function) odict \<Rightarrow> (pystr \<times> fmt) list \<Rightarrow> audit_finding list" where
  "orphan_findings signable formats =
     concat (map (\<lambda>kf.
        if map_of signable (fst kf) = None \<and> map_of signable (canonical_key (fst kf)) = None
        then [finding LOW ''unmatched-format''
                ''orphan format entry matches no signable function in the ABI''] else []) formats)"

definition path_of :: "field \<Rightarrow> pystr" where
  "path_of f = (case fd_path f of None \<Rightarrow> [] | Some p \<Rightarrow> p)"

definition leaf_of :: "field \<Rightarrow> pystr option" where
  "leaf_of f =
     (if py_startswith (path_of f) ''#.'' then Some (hd (py_split CHR ''.'' (drop 2 (path_of f)))) else None)"

text \<open>\<open>input_types\<close>: the type of each input with a non-empty name.\<close>

fun input_type_dict :: "abi_input list \<Rightarrow> py_exn + (pystr, pystr) odict" where
  "input_type_dict [] = Inr []"
| "input_type_dict (i # is) =
     res_bind (name_key i) (\<lambda>n. res_bind (input_type_dict is) (\<lambda>d.
       Inr (if n = [] \<or> map_of d n \<noteq> None then d else (n, ai_type i) # d)))"

text \<open>The body of the loop over the fields.\<close>

definition field_findings :: "pystr \<Rightarrow> (pystr, pystr) odict \<Rightarrow> field \<Rightarrow> audit_finding list" where
  "field_findings sig types f =
     (let leaf = leaf_of f; params = (case fd_params f of None \<Rightarrow> [] | Some p \<Rightarrow> p) in
        (case leaf of
           Some l \<Rightarrow>
             if l \<noteq> [] \<and> py_startswith (case map_of types l of None \<Rightarrow> [] | Some t \<Rightarrow> t) ''address''
                \<and> fd_format f = Some ''raw'' \<and> fd_visible f \<noteq> Some ''never''
             then [finding HIGH sig (''address '' @ [CHR 0x27] @ l @ [CHR 0x27]
                     @ '' shown as raw hex, not addressName'')] else []
         | None \<Rightarrow> [])
        @ (if fd_format f = Some ''tokenAmount'' \<and> \<not> truthy (dget params ''token'')
              \<and> \<not> truthy (dget params ''tokenPath'')
           then [finding CRITICAL sig (''tokenAmount '' @ [CHR 0x27]
                   @ (case leaf of None \<Rightarrow> ''None'' | Some l \<Rightarrow> l) @ [CHR 0x27]
                   @ '' has no token/tokenPath'')] else [])
        @ (if (case fd_label f of None \<Rightarrow> False | Some l \<Rightarrow> l \<noteq> [] \<and> 20 < length l)
           then [finding MEDIUM sig ''field label exceeds 20 chars''] else []))"

definition opt_longer :: "nat \<Rightarrow> pystr option \<Rightarrow> bool" where
  "opt_longer n v = (case v of None \<Rightarrow> False | Some s \<Rightarrow> n < length s)"

text \<open>The body of the loop over the signable functions, for a function with a format.\<close>

definition screen_findings :: "pystr \<Rightarrow> abi_function \<Rightarrow> fmt \<Rightarrow> py_exn + audit_finding list" where
  "screen_findings sig fn fm =
     res_bind (input_type_dict (fn_inputs fn))
     (\<lambda>types.
       let fields = fm_fields fm;
           value_field = find (\<lambda>f. fd_path f = Some ''@.value'') fields;
           visible = filter (\<lambda>f. fd_visible f \<noteq> Some ''never'') fields
       in Inr (
         (if \<not> opt_text (fm_intent fm) \<and> \<not> opt_text (fm_interpolated fm)
          then [finding HIGH sig ''no intent''] else [])
         @ (if is_payable fn \<and> value_field = None
            then [finding CRITICAL sig ''payable but never displays the ETH amount (@.value)''] else [])
         @ (if fn_inputs fn \<noteq> [] \<and> visible = []
            then [finding HIGH sig ''no visible field, blind-signs despite a descriptor''] else [])
         @ (case value_field of
              None \<Rightarrow> []
            | Some f \<Rightarrow> if fd_visible f \<noteq> Some ''always''
                        then [finding LOW sig ''payable amount not pinned visible:always''] else [])
         @ concat (map (field_findings sig types) fields)
         @ (if opt_longer 30 (fm_intent fm) then [finding MEDIUM sig ''intent exceeds 30 chars''] else [])
         @ (if opt_longer 30 (fm_interpolated fm)
            then [finding MEDIUM sig ''interpolatedIntent exceeds 30 chars''] else [])
         @ (if (is_payable fn \<or> list_ex (\<lambda>f. fd_format f \<in> {Some ''amount'', Some ''tokenAmount''}) fields)
               \<and> 2 \<le> length visible \<and> \<not> opt_text (fm_interpolated fm)
            then [finding LOW sig ''value-moving function without interpolatedIntent''] else [])))"

definition function_findings ::
  "(pystr, pystr) odict \<Rightarrow> (pystr \<times> fmt) list \<Rightarrow> pystr \<times> abi_function \<Rightarrow> py_exn + audit_finding list" where
  "function_findings noncanonical formats sf =
     (case map_of formats (fst sf) of
        None \<Rightarrow>
          Inr [if map_of noncanonical (fst sf) \<noteq> None
               then finding HIGH (fst sf) (''format entry is keyed non-canonically; wallets match the canonical ''
                      @ ''signature, so this entry never renders'')
               else finding HIGH (fst sf) ''signable function has no descriptor entry (blind-signs)'']
      | Some fm \<Rightarrow> screen_findings (fst sf) (snd sf) fm)"

fun penalty :: "severity \<Rightarrow> int" where
  "penalty CRITICAL = 25"
| "penalty HIGH = 10"
| "penalty MEDIUM = 4"
| "penalty LOW = 2"
| "penalty INFO = 0"

record audit_report =
  ar_score :: int
  ar_grade :: pystr
  ar_signable :: nat
  ar_covered :: nat
  ar_findings :: "audit_finding list"

definition audit :: "abi_entry list \<Rightarrow> (pystr \<times> fmt) list \<Rightarrow> py_exn + audit_report" where
  "audit abi formats =
     (let signable = signable_dict abi; noncanonical = noncanonical_keys signable formats in
      res_bind (res_map (function_findings noncanonical formats) signable)
      (\<lambda>fss.
        let findings = orphan_findings signable formats @ concat fss;
            score = max 0 (100 - sum_list (map (\<lambda>f. penalty (af_severity f)) findings))
        in Inr \<lparr>ar_score = score, ar_grade = grade_of score, ar_signable = length signable,
                ar_covered = length (filter (\<lambda>sf. map_of formats (fst sf) \<noteq> None) signable),
                ar_findings = sort_key (\<lambda>f. sev_index (af_severity f)) findings\<rparr>))"

text \<open>\<open>main --strict\<close>: the exit code.\<close>

definition audit_strict_exit :: "audit_report \<Rightarrow> int" where
  "audit_strict_exit r = (if ar_grade r \<in> {''A'', ''B''} then 0 else 1)"

section \<open>Keys with parameter names\<close>

text \<open>
  The key an author may write: each parameter's type followed by a blank and its name.
  The types of an ABI are plain words; a tuple is its parenthesised components and array
  brackets.
\<close>

definition plain_char :: "char \<Rightarrow> bool" where
  "plain_char c \<longleftrightarrow> \<not> is_space c \<and> c \<noteq> CHR ''('' \<and> c \<noteq> CHR '')'' \<and> c \<noteq> CHR '',''"

definition plain :: "pystr \<Rightarrow> bool" where
  "plain s = list_all plain_char s"

definition name_part :: "pystr option \<Rightarrow> pystr" where
  "name_part nm = (case nm of None \<Rightarrow> [] | Some n \<Rightarrow> if n = [] then [] else CHR '' '' # n)"

fun named_param :: "abi_input \<Rightarrow> pystr" where
  "named_param (AbiInput nm t comps) =
     (if py_startswith t ''tuple''
      then ''('' @ py_join '','' (map named_param comps) @ '')'' @ drop 5 t
      else t) @ name_part nm"

fun writable :: "abi_input \<Rightarrow> bool" where
  "writable (AbiInput nm t comps) \<longleftrightarrow>
     plain t \<and> t \<noteq> [] \<and> (case nm of None \<Rightarrow> True | Some n \<Rightarrow> plain n)
     \<and> (if py_startswith t ''tuple''
        then drop 5 t = [] \<or> take 1 (drop 5 t) = ''['' else True)
     \<and> list_all writable comps"

definition named_key :: "abi_function \<Rightarrow> pystr" where
  "named_key fn = fn_name fn @ ''('' @ py_join '','' (map named_param (fn_inputs fn)) @ '')''"

text \<open>Text the splitter passes over unchanged: at every depth, or at every positive depth.\<close>

definition passes :: "pystr \<Rightarrow> bool" where
  "passes x \<longleftrightarrow> (\<forall>d\<ge>0. \<forall>cur parts s.
     split_top_loop d cur parts (x @ s) = split_top_loop d (cur @ x) parts s)"

definition passes_inside :: "pystr \<Rightarrow> bool" where
  "passes_inside x \<longleftrightarrow> (\<forall>d\<ge>1. \<forall>cur parts s.
     split_top_loop d cur parts (x @ s) = split_top_loop d (cur @ x) parts s)"

definition skips :: "pystr \<Rightarrow> bool" where
  "skips x \<longleftrightarrow> (\<forall>d\<ge>1. \<forall>s. close_index d (x @ s) = map_option ((+) (length x)) (close_index d s))"

lemma passes_plain: "plain x \<Longrightarrow> passes x"
proof (induction x)
  case Nil
  then show ?case by (simp add: passes_def)
next
  case (Cons c x)
  then show ?case by (simp add: plain_def plain_char_def passes_def)
qed

lemma passes_append: "passes x \<Longrightarrow> passes y \<Longrightarrow> passes (x @ y)"
  by (simp add: passes_def)

lemma passes_blank: "passes '' ''"
  by (simp add: passes_def)

lemma passes_inside: "passes x \<Longrightarrow> passes_inside x"
  by (simp add: passes_def passes_inside_def)

lemma passes_inside_join: "list_all passes xs \<Longrightarrow> passes_inside (py_join '','' xs)"
proof (induction "'','' :: pystr" xs rule: py_join.induct)
  case 1
  then show ?case by (simp add: passes_inside_def)
next
  case (2 x)
  then show ?case by (simp add: passes_inside)
next
  case (3 x y xs)
  then show ?case by (auto simp: passes_inside_def passes_def)
qed

lemma passes_group: "passes_inside x \<Longrightarrow> passes (''('' @ x @ '')'')"
  unfolding passes_def
proof (intro allI impI)
  fix d :: int and cur parts s
  assume x: "passes_inside x" and d: "0 \<le> d"
  then have "split_top_loop (d + 1) (cur @ ''('') parts (x @ '')'' @ s)
      = split_top_loop (d + 1) (cur @ ''('' @ x) parts ('')'' @ s)"
    by (simp add: passes_inside_def)
  then show "split_top_loop d cur parts ((''('' @ x @ '')'') @ s) = split_top_loop d (cur @ ''('' @ x @ '')'') parts s"
    by simp
qed

lemma skips_plain: "plain x \<Longrightarrow> skips x"
proof (induction x)
  case Nil
  then show ?case by (simp add: skips_def map_option_case split: option.split)
next
  case (Cons c x)
  then show ?case
    by (auto simp: plain_def plain_char_def skips_def Let_def map_option_case split: option.split)
qed

lemma skips_append: "skips x \<Longrightarrow> skips y \<Longrightarrow> skips (x @ y)"
  by (simp add: skips_def map_option_case split: option.split)

lemma skips_char: "c \<noteq> CHR ''('' \<Longrightarrow> c \<noteq> CHR '')'' \<Longrightarrow> skips [c]"
  by (auto simp: skips_def Let_def map_option_case split: option.split)

lemma skips_join: "list_all skips xs \<Longrightarrow> skips (py_join '','' xs)"
proof (induction "'','' :: pystr" xs rule: py_join.induct)
  case 1
  then show ?case by (simp add: skips_plain plain_def)
next
  case (2 x)
  then show ?case by simp
next
  case (3 x y xs)
  then have "skips (py_join '','' (y # xs))" "skips x" by simp_all
  then show ?case using skips_append skips_append [OF skips_char [of "CHR '',''"]] by force
qed

lemma skips_group: "skips x \<Longrightarrow> skips (''('' @ x @ '')'')"
  unfolding skips_def
proof (intro allI impI)
  fix d :: int and s
  assume x: "\<forall>d\<ge>1. \<forall>s. close_index d (x @ s) = map_option ((+) (length x)) (close_index d s)" and d: "1 \<le> d"
  then have "close_index (d + 1) (x @ '')'' @ s) = map_option ((+) (length x)) (close_index (d + 1) ('')'' @ s))"
    by simp
  then show "close_index d ((''('' @ x @ '')'') @ s)
      = map_option ((+) (length (''('' @ x @ '')''))) (close_index d s)"
    using d by (simp add: Let_def map_option_case split: option.splits)
qed

text \<open>What a written parameter does to both scanners.\<close>

lemma plain_append: "plain (x @ y) \<longleftrightarrow> plain x \<and> plain y"
  by (simp add: plain_def)

lemma plain_drop: "plain t \<Longrightarrow> plain (drop n t)"
  by (auto simp: plain_def list_all_iff dest: in_set_dropD)

lemma name_part_scan:
  "(case nm of None \<Rightarrow> True | Some n \<Rightarrow> plain n) \<Longrightarrow> passes (name_part nm) \<and> skips (name_part nm)"
proof (cases nm)
  case None
  then show ?thesis by (simp add: name_part_def passes_plain skips_plain plain_def)
next
  case (Some n)
  assume "case nm of None \<Rightarrow> True | Some n \<Rightarrow> plain n"
  then have "plain n" by (simp add: Some)
  then show ?thesis
    using passes_append [OF passes_blank passes_plain] skips_append [OF skips_char skips_plain, of "CHR '' ''" n]
    by (auto simp: Some name_part_def passes_plain skips_plain plain_def)
qed

lemma named_param_scan: "writable i \<Longrightarrow> passes (named_param i) \<and> skips (named_param i)"
proof (induction i rule: named_param.induct)
  case (1 nm t comps)
  have nm: "passes (name_part nm) \<and> skips (name_part nm)" using "1.prems" by (intro name_part_scan) simp
  show ?case
  proof (cases "py_startswith t ''tuple''")
    case True
    have "list_all passes (map named_param comps)" "list_all skips (map named_param comps)"
      using "1.IH" [OF True] "1.prems" by (auto simp: list_all_iff)
    then have g: "passes (''('' @ py_join '','' (map named_param comps) @ '')'')"
        "skips (''('' @ py_join '','' (map named_param comps) @ '')'')"
      by (blast intro: passes_group passes_inside_join skips_group skips_join)+
    have "plain (drop 5 t)" using "1.prems" by (simp add: plain_drop)
    then show ?thesis
      using True g nm passes_append [OF g(1) passes_append [OF passes_plain]]
        skips_append [OF g(2) skips_append [OF skips_plain]] by simp
  next
    case False
    then show ?thesis
      using "1.prems" nm by (simp add: passes_append passes_plain skips_append skips_plain)
  qed
qed

text \<open>No part of a written parameter is lost to stripping: it starts and ends in a word.\<close>

definition tight :: "pystr \<Rightarrow> bool" where
  "tight s \<longleftrightarrow> s \<noteq> [] \<and> \<not> is_space (hd s) \<and> \<not> is_space (last s)"

lemma py_strip_tight: "tight s \<Longrightarrow> py_strip s = s"
proof -
  assume t: "tight s"
  then have "dropWhile is_space s = s" by (cases s) (simp_all add: tight_def)
  moreover have "dropWhile is_space (rev s) = rev s"
    using t by (cases s rule: rev_cases) (simp_all add: tight_def)
  ultimately show ?thesis by (simp add: py_strip_def)
qed

lemma plain_tight: "plain s \<Longrightarrow> s \<noteq> [] \<Longrightarrow> tight s"
  by (auto simp: plain_def plain_char_def tight_def list_all_iff)

lemma paren_not_space: "\<not> is_space CHR ''('' \<and> \<not> is_space CHR '')''"
  by code_simp

lemma named_param_tight: "writable i \<Longrightarrow> tight (named_param i)"
proof (cases i)
  case (AbiInput nm t comps)
  assume w: "writable i"
  have core: "tight (if py_startswith t ''tuple''
      then ''('' @ py_join '','' (map named_param comps) @ '')'' @ drop 5 t else t)"
  proof (cases "py_startswith t ''tuple''")
    case True
    have "plain (drop 5 t)" using w by (simp add: AbiInput plain_drop)
    then show ?thesis
      using True paren_not_space plain_tight [of "drop 5 t"] by (auto simp: tight_def)
  next
    case False
    then show ?thesis using w plain_tight by (simp add: AbiInput)
  qed
  show ?thesis
  proof (cases "name_part nm = []")
    case True
    then show ?thesis using core by (simp add: AbiInput)
  next
    case False
    then obtain n where n: "nm = Some n" "n \<noteq> []" "name_part nm = CHR '' '' # n"
      by (auto simp: name_part_def split: option.splits if_splits)
    then have "\<not> is_space (last n)"
      using w plain_tight [of n] by (simp add: AbiInput tight_def)
    then show ?thesis using core n by (auto simp: AbiInput tight_def)
  qed
qed

text \<open>Splitting a written parameter list gives back the parameters.\<close>

lemma split_top_loop_join:
  "list_all passes xs \<Longrightarrow> xs \<noteq> [] \<Longrightarrow>
   split_top_loop 0 [] parts (py_join '','' xs) = (parts @ butlast xs, last xs)"
proof (induction "'','' :: pystr" xs arbitrary: parts rule: py_join.induct)
  case 1
  then show ?case by simp
next
  case (2 x)
  then have "passes x" by simp
  then have "split_top_loop 0 [] parts (x @ []) = split_top_loop 0 ([] @ x) parts []"
    unfolding passes_def by blast
  then show ?case by simp
next
  case (3 x y xs)
  then have "passes x" by simp
  then have "split_top_loop 0 [] parts (x @ ('','' @ py_join '','' (y # xs)))
      = split_top_loop 0 ([] @ x) parts ('','' @ py_join '','' (y # xs))"
    unfolding passes_def by blast
  also have "\<dots> = split_top_loop 0 [] (parts @ [x]) (py_join '','' (y # xs))" by simp
  also have "\<dots> = ((parts @ [x]) @ butlast (y # xs), last (y # xs))"
    using "3.hyps" [of "parts @ [x]"] "3.prems" by simp
  finally show ?case by simp
qed

lemma split_top_join:
  assumes "list_all passes xs" "list_all tight xs"
  shows "split_top (py_join '','' xs) = xs"
proof (cases "xs = []")
  case True
  then show ?thesis by (simp add: split_top_def py_strip_def)
next
  case False
  have t: "py_strip x = x \<and> x \<noteq> []" if "x \<in> set xs" for x
    using assms(2) that py_strip_tight by (auto simp: list_all_iff tight_def)
  have "split_top_loop 0 [] [] (py_join '','' xs) = (butlast xs, last xs)"
    using split_top_loop_join [OF assms(1) False, of "[]"] by simp
  then have "split_top (py_join '','' xs) = map py_strip (filter (\<lambda>p. py_strip p \<noteq> []) xs)"
    using False t [of "last xs"] by (simp add: split_top_def)
  also have "\<dots> = map (\<lambda>x. x) (filter (\<lambda>p. True) xs)"
    using t by (intro arg_cong2 [where f = map] map_cong filter_cong) auto
  finally show ?thesis by simp
qed

text \<open>The first word of a text that starts with a word and a blank, or with a word only.\<close>

lemma py_words_acc_plain:
  "plain x \<Longrightarrow> py_words_acc acc (x @ s) = py_words_acc (rev x @ acc) s"
  by (induction x arbitrary: acc) (auto simp: plain_def plain_char_def)

lemma hd_words:
  assumes "plain x" "x \<noteq> []"
  shows "hd (py_words (x @ name_part nm)) = x"
proof -
  have "py_words (x @ name_part nm) = py_words_acc (rev x) (name_part nm)"
    using assms by (simp add: py_words_def py_words_acc_plain)
  moreover have "is_space CHR '' ''" by code_simp
  ultimately show ?thesis
    using assms(2) by (auto simp: name_part_def split: option.split)
qed

lemma join_empty: "list_all tight xs \<Longrightarrow> py_join '','' xs = [] \<longleftrightarrow> xs = []"
  by (cases "('','' :: pystr, xs)" rule: py_join.cases) (auto simp: tight_def)

lemma canon_component_named: "writable i \<Longrightarrow> canon_component (named_param i) = canonical_type i"
proof (induction i rule: canonical_type.induct)
  case (1 nm t comps)
  have t: "plain t" "t \<noteq> []" using "1.prems" by simp_all
  show ?case
  proof (cases "py_startswith t ''tuple''")
    case False
    have "take 1 (t @ name_part nm) \<noteq> ''(''"
      using t by (cases t) (auto simp: plain_def plain_char_def)
    then show ?thesis
      using False by (simp add: canon_component.simps hd_words [OF t])
  next
    case True
    let ?xs = "map named_param comps"
    let ?rest = "drop 5 t @ name_part nm"
    let ?c = "''('' @ py_join '','' ?xs @ '')'' @ ?rest"
    have w: "list_all writable comps" using "1.prems" by simp
    then have xs: "list_all passes ?xs" "list_all skips ?xs" "list_all tight ?xs"
      by (auto simp: list_all_iff named_param_scan named_param_tight)
    have "close_index 1 (py_join '','' ?xs @ '')'' @ ?rest)
        = map_option ((+) (length (py_join '','' ?xs))) (close_index 1 ('')'' @ ?rest))"
      using skips_join [OF xs(2)] by (simp only: skips_def)
    then have ci: "close_index 0 ?c = Some (Suc (length (py_join '','' ?xs)))" by simp
    have inner: "split_top (py_join '','' ?xs) = ?xs" by (rule split_top_join [OF xs(1,3)])
    have sub: "map canon_component ?xs = map canonical_type comps"
      using "1.IH" [OF True] w by (simp add: list_all_iff)
    have suffix: "(if take 1 ?rest = ''['' then hd (py_words ?rest) else []) = drop 5 t"
    proof (cases "drop 5 t = []")
      case True
      then show ?thesis by (simp add: name_part_def split: option.split)
    next
      case False
      then have "take 1 ?rest = ''[''"
        using "1.prems" \<open>py_startswith t ''tuple''\<close> by (cases "drop 5 t") auto
      then show ?thesis using hd_words [OF plain_drop [OF t(1)] False] by simp
    qed
    let ?i = "Suc (length (py_join '','' ?xs))"
    have parts: "take 1 ?c = ''(''" "drop (Suc ?i) ?c = ?rest"
        "take (?i - 1) (drop 1 ?c) = py_join '','' ?xs" by simp_all
    have "canon_component ?c = ''('' @ py_join '','' (map canon_component (split_top (py_join '','' ?xs)))
        @ '')'' @ (if take 1 ?rest = ''['' then hd (py_words ?rest) else [])"
      by (subst canon_component.simps) (simp only: ci parts if_True option.case Let_def simp_thms)
    then have "canon_component ?c = ''('' @ py_join '','' (map canonical_type comps) @ '')'' @ drop 5 t"
      unfolding inner sub suffix .
    then show ?thesis using True by simp
  qed
qed

lemma canonical_key_join:
  assumes "CHR ''('' \<notin> set name"
  shows "canonical_key (name @ ''('' @ ps @ '')'')
    = name @ ''('' @ py_join '','' (map canon_component (split_top ps)) @ '')''"
proof -
  let ?k = "name @ ''('' @ ps @ '')''"
  have "takeWhile (\<lambda>c. c \<noteq> CHR ''('') ?k = name"
    using assms by (induction name) auto
  moreover have "py_endswith ?k '')''" by (simp add: py_endswith_def)
  ultimately show ?thesis by (simp add: canonical_key_def butlast_append)
qed

text \<open>A parameter without its names, and its components'.\<close>

fun unnamed :: "abi_input \<Rightarrow> abi_input" where
  "unnamed (AbiInput nm t comps) = AbiInput None t (map unnamed comps)"

lemma unnamed_writable: "writable i \<Longrightarrow> writable (unnamed i)"
  by (induction i rule: unnamed.induct) (auto simp: list_all_iff)

lemma unnamed_canonical: "canonical_type (unnamed i) = canonical_type i"
proof (induction i rule: unnamed.induct)
  case (1 nm t comps)
  then have "map (canonical_type \<circ> unnamed) comps = map canonical_type comps"
    by (auto intro: map_cong)
  then show ?case by (simp del: map_eq_conv)
qed

lemma unnamed_param: "named_param (unnamed i) = canonical_type i"
proof (induction i rule: unnamed.induct)
  case (1 nm t comps)
  then have "map (named_param \<circ> unnamed) comps = map canonical_type comps"
    by (auto intro: map_cong)
  then show ?case by (simp add: name_part_def del: map_eq_conv)
qed

lemma canonical_params:
  assumes "list_all writable is"
  shows "map canon_component (split_top (py_join '','' (map named_param is))) = map canonical_type is"
proof -
  have "list_all passes (map named_param is)" "list_all tight (map named_param is)"
    using assms by (auto simp: list_all_iff named_param_scan named_param_tight)
  then have "split_top (py_join '','' (map named_param is)) = map named_param is"
    by (rule split_top_join)
  then show ?thesis using assms by (simp add: list_all_iff canon_component_named)
qed

text \<open>
  C28: A format key written with parameter names, at any nesting of tuples and array
  suffixes, is canonicalised to exactly the signature wallets look up; and a key that is
  already a canonical signature is its own canonical form, so it is never reported as
  non-canonical.
\<close>

theorem canonical_key_named:
  assumes "CHR ''('' \<notin> set (fn_name fn)" and "list_all writable (fn_inputs fn)"
  shows "canonical_key (named_key fn) = signature fn
    \<and> canonical_key (signature fn) = signature fn"
proof -
  have "list_all writable (map unnamed (fn_inputs fn))"
    using assms(2) by (auto simp: list_all_iff unnamed_writable)
  from canonical_params [OF this] have
    "map canon_component (split_top (py_join '','' (map canonical_type (fn_inputs fn)))) = map canonical_type (fn_inputs fn)"
    by (simp add: comp_def unnamed_param unnamed_canonical)
  then show ?thesis
    using canonical_key_join [OF assms(1)] canonical_params [OF assms(2)]
    by (simp add: named_key_def signature_def)
qed

definition toy_swap :: abi_function where
  "toy_swap = \<lparr>fn_name = ''swap'', fn_inputs =
     [AbiInput (Some ''path'') ''tuple[]'' [AbiInput (Some ''a'') ''address'' [], AbiInput (Some ''f'') ''uint24'' []],
      AbiInput (Some ''n'') ''uint256'' []], fn_mutability = None, fn_payable = None\<rparr>"

theorem canonical_key_named_witness:
  "named_key toy_swap = ''swap((address a,uint24 f)[] path,uint256 n)''
   \<and> canonical_key (named_key toy_swap) = ''swap((address,uint24)[],uint256)''"
proof -
  have "CHR ''('' \<notin> set (fn_name toy_swap)" "list_all writable (fn_inputs toy_swap)" by code_simp+
  moreover have "signature toy_swap = ''swap((address,uint24)[],uint256)''"
      "named_key toy_swap = ''swap((address a,uint24 f)[] path,uint256 n)''" by code_simp+
  ultimately show ?thesis using canonical_key_named [of toy_swap] by simp
qed

section \<open>Grades\<close>

lemma penalty_nonneg: "0 \<le> penalty s"
  by (cases s) auto

lemma penalty_le_sum: "f \<in> set fs \<Longrightarrow> penalty (af_severity f) \<le> sum_list (map (\<lambda>f. penalty (af_severity f)) fs)"
  by (intro member_le_sum_list) (auto simp: penalty_nonneg)

lemma audit_Inr:
  assumes "audit abi formats = Inr r"
  shows "\<exists>fss. res_map (function_findings (noncanonical_keys (signable_dict abi) formats) formats) (signable_dict abi) = Inr fss
    \<and> set (ar_findings r) = set (orphan_findings (signable_dict abi) formats) \<union> \<Union> (set ` set fss)
    \<and> ar_score r = max 0 (100 - sum_list (map (\<lambda>f. penalty (af_severity f))
         (orphan_findings (signable_dict abi) formats @ concat fss)))
    \<and> ar_grade r = grade_of (ar_score r)"
  using assms by (auto simp: audit_def Let_def res_bind_Inr_iff)

lemma signable_dict_fold:
  "(sig, fn) \<in> set (foldl (\<lambda>d fn. AList.update (signature fn) fn d) d fns) \<Longrightarrow>
     (sig, fn) \<in> set d \<or> (fn \<in> set fns \<and> sig = signature fn)"
  by (induction fns arbitrary: d) (fastforce dest: set_update_cases)+

lemma signable_dict_keys:
  "fst ` set (foldl (\<lambda>d fn. AList.update (signature fn) fn d) d fns) = fst ` set d \<union> signature ` set fns"
  by (induction fns arbitrary: d) (auto simp: dom_update)

lemma res_map_Inr_mem: "res_map f xs = Inr ys \<Longrightarrow> x \<in> set xs \<Longrightarrow> \<exists>y\<in>set ys. f x = Inr y"
  by (induction xs arbitrary: ys) (auto simp: res_bind_Inr_iff)

text \<open>
  The audit grade can be relied on. A strict run that passes (grade A or B) has no
  critical finding; every signable function without a format under its exact signature
  has a high finding; and a payable function whose format has no field for the native
  value has a critical one, so its descriptor fails the strict run.
\<close>

theorem audit_strict_sound:
  assumes "audit abi formats = Inr r"
  shows "(audit_strict_exit r = 0 \<longrightarrow> (\<forall>f\<in>set (ar_findings r). af_severity f \<noteq> CRITICAL))
    \<and> (\<forall>fn\<in>set (signable_functions abi). map_of formats (signature fn) = None \<longrightarrow>
         (\<exists>f\<in>set (ar_findings r). af_severity f = HIGH
            \<and> af_function f = takeWhile (\<lambda>c. c \<noteq> CHR ''('') (signature fn)))
    \<and> (\<forall>sig fn fm. (sig, fn) \<in> set (signable_dict abi) \<longrightarrow> is_payable fn \<longrightarrow>
         map_of formats sig = Some fm \<longrightarrow> (\<forall>f\<in>set (fm_fields fm). fd_path f \<noteq> Some ''@.value'') \<longrightarrow>
         audit_strict_exit r = 1)"
proof -
  from audit_Inr [OF assms] obtain fss where
    fss: "res_map (function_findings (noncanonical_keys (signable_dict abi) formats) formats) (signable_dict abi) = Inr fss"
    and fs: "set (ar_findings r) = set (orphan_findings (signable_dict abi) formats @ concat fss)"
    and score: "ar_score r = max 0 (100 - sum_list (map (\<lambda>f. penalty (af_severity f))
         (orphan_findings (signable_dict abi) formats @ concat fss)))"
    and grade: "ar_grade r = grade_of (ar_score r)" by auto
  have strict: "af_severity f \<noteq> CRITICAL" if "audit_strict_exit r = 0" "f \<in> set (ar_findings r)" for f
  proof
    assume c: "af_severity f = CRITICAL"
    from that(2) have "penalty (af_severity f) \<le> sum_list (map (\<lambda>f. penalty (af_severity f))
         (orphan_findings (signable_dict abi) formats @ concat fss))"
      unfolding fs by (rule penalty_le_sum)
    then have "ar_score r \<le> 75" using c score by simp
    then show False using that(1) grade by (simp add: audit_strict_exit_def grade_of_def split: if_splits)
  qed
  have high: "\<exists>f\<in>set (ar_findings r). af_severity f = HIGH
            \<and> af_function f = takeWhile (\<lambda>c. c \<noteq> CHR ''('') (signature fn)"
    if fn: "fn \<in> set (signable_functions abi)" and none: "map_of formats (signature fn) = None" for fn
  proof -
    have "signature fn \<in> fst ` set (signable_dict abi)"
      using fn by (simp add: signable_dict_def signable_dict_keys)
    then obtain fn' where "(signature fn, fn') \<in> set (signable_dict abi)" by force
    from res_map_Inr_mem [OF fss this] none obtain f where
      "[f] \<in> set fss" "af_severity f = HIGH" "af_function f = takeWhile (\<lambda>c. c \<noteq> CHR ''('') (signature fn)"
      by (auto simp: function_findings_def finding_def split: if_splits)
    then show ?thesis unfolding fs by force
  qed
  have crit: "audit_strict_exit r = 1"
    if "(sig, fn) \<in> set (signable_dict abi)" "is_payable fn" "map_of formats sig = Some fm"
      "\<forall>f\<in>set (fm_fields fm). fd_path f \<noteq> Some ''@.value''" for sig fn fm
  proof -
    have "find (\<lambda>f. fd_path f = Some ''@.value'') (fm_fields fm) = None"
      using that(4) by (simp add: find_None_iff)
    with res_map_Inr_mem [OF fss that(1)] that(2,3) obtain f where
      "f \<in> set (ar_findings r)" "af_severity f = CRITICAL"
      unfolding fs by (fastforce simp: function_findings_def screen_findings_def Let_def res_bind_Inr_iff finding_def)
    with strict [of f] show ?thesis by (auto simp: audit_strict_exit_def split: if_splits)
  qed
  show ?thesis using strict high crit by blast
qed

theorem audit_strict_sound_witness:
  "\<exists>r. audit [FunctionEntry toy_transfer] [] = Inr r \<and> (\<exists>f\<in>set (ar_findings r). af_severity f = HIGH)"
proof -
  have "succeeds (audit [FunctionEntry toy_transfer] [])"
    by (simp add: audit_def signable_dict_def toy_transfer_def is_signable_def VIEW_def Let_def
        function_findings_def)
  then obtain r where r: "audit [FunctionEntry toy_transfer] [] = Inr r" by (auto simp: succeeds_def)
  have "toy_transfer \<in> set (signable_functions [FunctionEntry toy_transfer])"
    by (simp add: toy_transfer_def is_signable_def VIEW_def)
  with audit_strict_sound [OF r] r show ?thesis by force
qed

end
