(* ===== verification/Hex_Text.thy ===== *)
theory Hex_Text
  imports Py_Json
begin

text \<open>
  Hexadecimal and decimal texts that several modules parse: quantities, data and the
  printed forms that read back.
\<close>

section \<open>Formats\<close>

text \<open>\<open>HEX_QUANTITY_RE\<close>: \<open>0x0\<close>, or no leading zero.\<close>

definition is_hex_quantity :: "pystr \<Rightarrow> bool" where
  "is_hex_quantity s \<longleftrightarrow>
     take 2 s = ''0x'' \<and>
     (drop 2 s = ''0'' \<or> (drop 2 s \<noteq> [] \<and> hd (drop 2 s) \<noteq> CHR ''0'' \<and> list_all is_hex (drop 2 s)))"

section \<open>Facts\<close>

lemma lower_hex_is_hex: "list_all is_lower_hex s \<Longrightarrow> list_all is_hex s"
  by (auto simp: list_all_iff is_hex_def)

lemma nat_digits_less: "b \<ge> 2 \<Longrightarrow> d \<in> set (nat_digits b n) \<Longrightarrow> d < b"
proof (induction b n rule: nat_digits.induct)
  case (1 b n)
  then show ?case by (subst (asm) (2) nat_digits.simps) (auto split: if_splits)
qed

lemma nat_digits_foldl: "b \<ge> 2 \<Longrightarrow> foldl (\<lambda>n d. b * n + d) 0 (nat_digits b n) = n"
proof (induction b n rule: nat_digits.induct)
  case (1 b n)
  then show ?case by (subst nat_digits.simps) auto
qed

lemma nat_digits_hd: "b \<ge> 2 \<Longrightarrow> 0 < n \<Longrightarrow> nat_digits b n \<noteq> [] \<and> hd (nat_digits b n) \<noteq> 0"
proof (induction b n rule: nat_digits.induct)
  case (1 b n)
  show ?case
  proof (cases "n < b")
    case True
    then show ?thesis using 1 by (subst (1 2) nat_digits.simps) simp
  next
    case False
    then have "0 < n div b" using "1.prems" by (simp add: div_greater_zero_iff)
    then show ?thesis using "1.IH" False "1.prems" by (subst (1 2) nat_digits.simps) simp
  qed
qed

lemma nat_digits_0: "b \<ge> 2 \<Longrightarrow> nat_digits b 0 = [0]"
  by (subst nat_digits.simps) simp

lemma int_fromhex_digits:
  "list_all (\<lambda>d. d < 16) ds \<Longrightarrow>
   foldl (\<lambda>n c. 16 * n + int (hex_value c)) (int m) (map hex_digit ds) = int (foldl (\<lambda>n d. 16 * n + d) m ds)"
proof (induction ds arbitrary: m)
  case Nil
  then show ?case by simp
next
  case (Cons d ds)
  then show ?case using Cons.IH [of "16 * m + d"] by simp
qed

lemma int_fromhex_nat_hex: "int_fromhex (drop 2 (nat_hex n)) = int n"
proof -
  have "list_all (\<lambda>d. d < 16) (nat_digits 16 n)" by (auto simp: list_all_iff dest: nat_digits_less [of 16, simplified])
  from int_fromhex_digits [OF this, of 0] show ?thesis
    by (simp add: int_fromhex_def nat_hex_def nat_digits_foldl)
qed

lemma is_hex_quantity_nat_hex: "is_hex_quantity (nat_hex n)"
proof (cases "n = 0")
  case True
  have "[hex_digit 0] = ''0''" by code_simp
  then show ?thesis using True by (simp add: is_hex_quantity_def nat_hex_def nat_digits_0)
next
  case False
  then obtain d ds where ds: "nat_digits 16 n = d # ds" "d \<noteq> 0"
    using nat_digits_hd [of 16 n] by (cases "nat_digits 16 n") auto
  have less: "\<forall>x\<in>set (nat_digits 16 n). x < 16" by (auto dest: nat_digits_less [of 16, simplified])
  then have "code (hex_digit d) \<noteq> 48" using ds by (auto simp: code_hex_digit)
  moreover have "code CHR ''0'' = 48" by code_simp
  ultimately have "hex_digit d \<noteq> CHR ''0''" by auto
  then show ?thesis
    using less ds by (auto simp: is_hex_quantity_def nat_hex_def list_all_iff is_hex_def)
qed

end
