(* ===== verification/Descriptor_Validation.thy ===== *)
theory Descriptor_Validation
  imports Audit_Screen Hex_Text
begin

text \<open>
  The input boundary of \<open>lucent/preflight.py\<close>: the bounds on a descriptor, the checks
  of its display formats, and the parsing of calldata, value and deployments.
  \<open>validate_descriptor\<close> returns the typed view of ABI and formats that the analyses
  read. A failure is either a \<open>PreflightInputError\<close> with its code and message, or an
  exception the code does not catch.
\<close>

section \<open>Errors and limits\<close>

datatype pf_failure = InputError pystr pystr | Uncaught py_exn

definition input_error :: "pystr \<Rightarrow> pystr \<Rightarrow> pf_failure + 'a" where
  "input_error cd msg = Inl (InputError cd msg)"

definition MAX_DESCRIPTOR_BYTES :: int where "MAX_DESCRIPTOR_BYTES = 512 * 1024"
definition MAX_CALLDATA_BYTES :: int where "MAX_CALLDATA_BYTES = 128 * 1024"
definition MAX_FORMATS :: int where "MAX_FORMATS = 1024"
definition MAX_FIELDS_PER_FORMAT :: int where "MAX_FIELDS_PER_FORMAT = 16"
definition MAX_JSON_DEPTH :: nat where "MAX_JSON_DEPTH = 16"
definition MAX_TEXT_LENGTH :: int where "MAX_TEXT_LENGTH = 8192"
definition UINT256_MAX :: int where "UINT256_MAX = 2 ^ 256 - 1"

definition ALLOWED_FIELD_FORMATS :: "pystr list" where
  "ALLOWED_FIELD_FORMATS = [''raw'', ''addressName'', ''calldata'', ''amount'', ''tokenAmount'',
     ''nftName'', ''date'', ''duration'', ''unit'', ''enum'']"

definition UNVERIFIED_FIELD_FORMATS :: "pystr list" where
  "UNVERIFIED_FIELD_FORMATS = [''calldata'', ''tokenAmount'', ''nftName'', ''date'', ''unit'', ''enum'']"

section \<open>Bounds on a JSON value\<close>

definition max_default :: "nat \<Rightarrow> nat list \<Rightarrow> nat" where
  "max_default d xs = (case xs of [] \<Rightarrow> d | y # ys \<Rightarrow> foldl max y ys)"

fun json_depth :: "nat \<Rightarrow> pyval \<Rightarrow> nat" where
  "json_depth depth (PDict kvs) =
     (if MAX_JSON_DEPTH < depth then depth
      else max_default depth (map (\<lambda>kv. json_depth (depth + 1) (snd kv)) kvs))"
| "json_depth depth (PList xs) =
     (if MAX_JSON_DEPTH < depth then depth
      else max_default depth (map (json_depth (depth + 1)) xs))"
| "json_depth depth (PTuple xs) =
     (if MAX_JSON_DEPTH < depth then depth
      else max_default depth (map (json_depth (depth + 1)) xs))"
| "json_depth depth _ = depth"

definition check_text :: "pystr \<Rightarrow> pf_failure + unit" where
  "check_text s =
     (if MAX_TEXT_LENGTH < int (length s)
      then input_error ''DESCRIPTOR_TEXT_TOO_LONG'' ''descriptor strings may not exceed 8192 characters''
      else Inr ())"

fun walk_text :: "pyval \<Rightarrow> pf_failure + unit" where
  "walk_text (PStr s) = check_text s"
| "walk_text (PDict kvs) =
     res_all (\<lambda>kv. res_bind (check_text (fst kv)) (\<lambda>_. walk_text (snd kv))) kvs"
| "walk_text (PList xs) = res_all walk_text xs"
| "walk_text (PTuple xs) = res_all walk_text xs"
| "walk_text _ = Inr ()"

definition canonical_json :: "(rat \<Rightarrow> pystr) \<Rightarrow> pyval \<Rightarrow> pf_failure + bytes" where
  "canonical_json fr v =
     (case canonical_bytes fr v of
        None \<Rightarrow> input_error ''INVALID_JSON_VALUE'' ''request contains a non-canonical JSON value''
      | Some b \<Rightarrow> Inr b)"

definition pf_fingerprint :: "(bytes \<Rightarrow> bytes) \<Rightarrow> (rat \<Rightarrow> pystr) \<Rightarrow> pyval \<Rightarrow> pf_failure + pystr" where
  "pf_fingerprint sha256 fr v =
     res_bind (canonical_json fr v) (\<lambda>b. Inr (''sha256:'' @ bytes_hex (sha256 b)))"

section \<open>Display formats\<close>

text \<open>Equality of two set elements: numbers compare across types.\<close>

fun as_number :: "pyval \<Rightarrow> rat option" where
  "as_number (PBool b) = Some (if b then 1 else 0)"
| "as_number (PInt i) = Some (of_int i)"
| "as_number (PFloat (Finite q)) = Some q"
| "as_number _ = None"

definition py_eq :: "pyval \<Rightarrow> pyval \<Rightarrow> bool" where
  "py_eq v w \<longleftrightarrow> v = w \<or> (as_number v \<noteq> None \<and> as_number v = as_number w)"

fun hashable :: "pyval \<Rightarrow> bool" where
  "hashable (PList _) = False"
| "hashable (PDict _) = False"
| "hashable (PTuple xs) = list_all hashable xs"
| "hashable _ = True"

fun has_duplicate :: "('a \<Rightarrow> 'a \<Rightarrow> bool) \<Rightarrow> 'a list \<Rightarrow> bool" where
  "has_duplicate eq [] = False"
| "has_duplicate eq (x # xs) = (list_ex (eq x) xs \<or> has_duplicate eq xs)"

text \<open>\<open>" ".join(text.lower().split())\<close>.\<close>

definition squash :: "pystr \<Rightarrow> pystr" where
  "squash s = py_join '' '' (py_words (py_lower s))"

definition always_visible :: "(pystr \<times> pyval) list \<Rightarrow> bool" where
  "always_visible d \<longleftrightarrow> dget d ''visible'' = PNone \<or> dget d ''visible'' = PStr ''always''"

definition visible_labels :: "(pystr \<times> pyval) list list \<Rightarrow> pf_failure + pystr list" where
  "visible_labels fds =
     res_map (\<lambda>d. case dget d ''label'' of PStr s \<Rightarrow> Inr (squash s)
         | _ \<Rightarrow> Inl (Uncaught (AttributeError ''object has no attribute lower'')))
       (filter (\<lambda>d. always_visible d \<and> truthy (dget d ''label'')) fds)"

definition bad_descriptor :: "pystr \<Rightarrow> pf_failure + 'a" where
  "bad_descriptor msg = input_error ''INVALID_DESCRIPTOR'' msg"

definition check_key_types :: "pystr \<Rightarrow> (pystr \<times> pyval) list \<Rightarrow> pf_failure + unit" where
  "check_key_types sig d =
     res_all (\<lambda>k. case map_of d k of None \<Rightarrow> Inr () | Some (PStr _) \<Rightarrow> Inr ()
        | Some _ \<Rightarrow> bad_descriptor (''display format '' @ py_repr sig @ '' field '' @ py_repr k
                      @ '' must be a string''))
       [''path'', ''label'', ''format'', ''visible'']"

definition format_known :: "pyval \<Rightarrow> bool" where
  "format_known v \<longleftrightarrow> (case v of PStr f \<Rightarrow> f \<in> set ALLOWED_FIELD_FORMATS | _ \<Rightarrow> False)"

definition check_visible_field :: "pystr \<Rightarrow> (pystr \<times> pyval) list \<Rightarrow> pf_failure + unit" where
  "check_visible_field sig d =
     (if \<not> is_str (dget d ''path'')
      then bad_descriptor (''visible field in '' @ py_repr sig @ '' requires a path'')
      else if (case dget d ''label'' of PStr l \<Rightarrow> py_strip l = [] | _ \<Rightarrow> True)
      then bad_descriptor (''visible field in '' @ py_repr sig @ '' requires a non-empty label'')
      else if \<not> format_known (dget d ''format'')
      then bad_descriptor (''visible field in '' @ py_repr sig @ '' requires an explicit supported format'')
      else Inr ())"

text \<open>\<open>required_one_of\<close>: the parameters exactly one of which must be present.\<close>

fun required_one_of :: "pyval \<Rightarrow> (pystr \<times> pystr) option" where
  "required_one_of (PStr f) =
     (if f = ''tokenAmount'' then Some (''token'', ''tokenPath'')
      else if f = ''calldata'' then Some (''callee'', ''calleePath'')
      else if f = ''nftName'' then Some (''collection'', ''collectionPath'')
      else None)"
| "required_one_of _ = None"

definition params_items :: "(pystr \<times> pyval) list \<Rightarrow> (pystr \<times> pyval) list" where
  "params_items d = (case dget d ''params'' of PDict p \<Rightarrow> p | _ \<Rightarrow> [])"

definition check_params :: "(pystr \<times> pyval) list \<Rightarrow> pf_failure + unit" where
  "check_params d =
     (let f = dget d ''format''; p = params_items d in
      res_bind
        (case required_one_of f of
           None \<Rightarrow> Inr ()
         | Some (a, b) \<Rightarrow>
             if (dget p a \<noteq> PNone) = (dget p b \<noteq> PNone)
             then bad_descriptor (''field format '' @ (case f of PStr s \<Rightarrow> py_repr s | _ \<Rightarrow> [])
                    @ '' requires exactly one of ('' @ py_repr a @ '', '' @ py_repr b @ '')'')
             else Inr ())
      (\<lambda>_. if f = PStr ''date'' \<and> dget p ''encoding'' \<notin> {PStr ''timestamp'', PStr ''blockheight''}
           then bad_descriptor (''field format '' @ py_repr ''date'' @ '' requires timestamp or blockheight encoding'')
           else if f = PStr ''unit'' \<and> \<not> is_str (dget p ''base'')
           then bad_descriptor (''field format '' @ py_repr ''unit'' @ '' requires a string base'')
           else if f = PStr ''enum'' \<and> \<not> is_str (dget p ''$ref'')
           then bad_descriptor (''field format '' @ py_repr ''enum'' @ '' requires a $ref'')
           else Inr ()))"

text \<open>The typed view of a field whose keys have been checked.\<close>

definition text_key :: "(pystr \<times> pyval) list \<Rightarrow> pystr \<Rightarrow> pystr option" where
  "text_key d k = (case map_of d k of Some (PStr s) \<Rightarrow> Some s | _ \<Rightarrow> None)"

definition field_view :: "(pystr \<times> pyval) list \<Rightarrow> field" where
  "field_view d =
     \<lparr>fd_path = text_key d ''path'', fd_label = text_key d ''label'', fd_format = text_key d ''format'',
      fd_visible = text_key d ''visible'',
      fd_params = (case dget d ''params'' of PDict p \<Rightarrow> Some p | _ \<Rightarrow> None)\<rparr>"

text \<open>The body of the loop over the fields of a format.\<close>

definition validate_field :: "pystr \<Rightarrow> (pystr \<times> pyval) list \<Rightarrow> pf_failure + field" where
  "validate_field sig d =
     res_bind (check_key_types sig d)
     (\<lambda>_. if dget d ''format'' \<noteq> PNone \<and> \<not> format_known (dget d ''format'')
          then bad_descriptor (''display format '' @ py_repr sig @ '' uses an unknown field format'')
          else if dget d ''params'' \<noteq> PNone \<and> \<not> is_dict (dget d ''params'')
          then bad_descriptor (''display format '' @ py_repr sig @ '' field '' @ py_repr ''params''
                 @ '' must be an object'')
          else
            res_bind (if always_visible d then check_visible_field sig d else Inr ())
            (\<lambda>_. res_bind (check_params d) (\<lambda>_. Inr (field_view d))))"

definition dict_items :: "pyval \<Rightarrow> (pystr \<times> pyval) list" where
  "dict_items v = (case v of PDict d \<Rightarrow> d | _ \<Rightarrow> [])"

text \<open>The body of the loop over the formats.\<close>

definition validate_format :: "pystr \<times> pyval \<Rightarrow> pf_failure + (pystr \<times> fmt)" where
  "validate_format sf =
     (let sig = fst sf in
      case snd sf of
        PDict d \<Rightarrow>
          (case dget_or d ''fields'' (PList []) of
             PList vs \<Rightarrow>
               if \<not> list_all is_dict vs
               then bad_descriptor (''display format '' @ py_repr sig @ '' must contain a fields array'')
               else if MAX_FIELDS_PER_FORMAT < int (length vs)
               then bad_descriptor (''display format '' @ py_repr sig @ '' exceeds 16 fields'')
               else
                 let fds = map dict_items vs;
                     paths = filter (\<lambda>v. v \<noteq> PNone) (map (\<lambda>f. dget f ''path'') fds)
                 in
                   if \<not> list_all hashable paths then Inl (Uncaught (TypeError ''unhashable type''))
                   else if has_duplicate py_eq paths
                   then bad_descriptor (''display format '' @ py_repr sig @ '' has duplicate field paths'')
                   else
                     res_bind (visible_labels fds)
                     (\<lambda>labels.
                       if has_duplicate (=) labels
                       then bad_descriptor (''display format '' @ py_repr sig @ '' has duplicate visible labels'')
                       else
                         res_bind (res_map (validate_field sig) fds)
                         (\<lambda>fs. res_bind
                           (res_all (\<lambda>k. case map_of d k of None \<Rightarrow> Inr () | Some (PStr _) \<Rightarrow> Inr ()
                              | Some _ \<Rightarrow> bad_descriptor (''display format '' @ py_repr sig @ '' '' @ k
                                            @ '' must be a string''))
                             [''intent'', ''interpolatedIntent''])
                         (\<lambda>_. Inr (sig, \<lparr>fm_fields = fs, fm_intent = text_key d ''intent'',
                                fm_interpolated = text_key d ''interpolatedIntent'', fm_empty = (d = [])\<rparr>))))
           | _ \<Rightarrow> bad_descriptor (''display format '' @ py_repr sig @ '' must contain a fields array''))
      | _ \<Rightarrow> bad_descriptor ''every display format must map a signature to an object'')"

section \<open>The descriptor\<close>

definition validate_descriptor ::
  "(rat \<Rightarrow> pystr) \<Rightarrow> (pystr \<Rightarrow> bool) \<Rightarrow> (int \<Rightarrow> pystr \<Rightarrow> (py_exn + pyval) option) \<Rightarrow> pyval \<Rightarrow>
   pf_failure + (abi_entry list \<times> (pystr \<times> fmt) list)" where
  "validate_descriptor fr encodable cache desc =
     (case desc of
        PDict d \<Rightarrow>
          res_bind (canonical_json fr desc)
          (\<lambda>raw.
            if MAX_DESCRIPTOR_BYTES < int (length raw)
            then input_error ''DESCRIPTOR_TOO_LARGE'' ''descriptor exceeds 524288 encoded bytes''
            else if MAX_JSON_DEPTH < json_depth 0 desc
            then input_error ''DESCRIPTOR_TOO_DEEP'' ''descriptor nesting may not exceed 16 levels''
            else
              res_bind (walk_text desc)
              (\<lambda>_. res_bind
                (case descriptor_abi fr encodable cache desc of
                   Inl e \<Rightarrow> bad_descriptor (py_exn_text e) | Inr abi \<Rightarrow> Inr abi)
              (\<lambda>abi.
                case dget d ''display'' of
                  PDict display \<Rightarrow>
                    (case dget display ''formats'' of
                       PDict formats \<Rightarrow>
                         if MAX_FORMATS < int (length formats)
                         then input_error ''TOO_MANY_FORMATS'' ''descriptor exceeds 1024 format entries''
                         else res_bind (res_map validate_format formats) (\<lambda>fs. Inr (abi, fs))
                     | _ \<Rightarrow> bad_descriptor ''descriptor display.formats must be a JSON object'')
                | _ \<Rightarrow> bad_descriptor ''descriptor must contain display'')))
      | _ \<Rightarrow> bad_descriptor ''descriptor must be a JSON object'')"

section \<open>Calldata, value, deployment\<close>

definition parse_calldata :: "pyval \<Rightarrow> pf_failure + bytes" where
  "parse_calldata v =
     (let err = input_error ''INVALID_CALLDATA'' ''transaction data must be a 0x-prefixed hexadecimal string'' in
      case v of
        PStr s \<Rightarrow>
          if take 2 s \<noteq> ''0x'' \<or> drop 2 s = [] \<or> \<not> list_all is_hex (drop 2 s) then err
          else if length (drop 2 s) < 8
          then input_error ''INVALID_CALLDATA'' ''transaction data must contain a four-byte selector''
          else if odd (length (drop 2 s))
          then input_error ''INVALID_CALLDATA'' ''transaction data must contain an even number of hex digits''
          else if MAX_CALLDATA_BYTES < int (length (drop 2 s) div 2)
          then input_error ''CALLDATA_TOO_LARGE'' ''calldata exceeds 131072 bytes''
          else Inr (bytes_fromhex (drop 2 s))
      | _ \<Rightarrow> err)"

definition parse_value :: "pyval \<Rightarrow> pf_failure + int" where
  "parse_value v =
     (let check = (\<lambda>n. if n < 0 \<or> UINT256_MAX < n
                       then input_error ''INVALID_VALUE'' ''transaction value exceeds uint256'' else Inr n)
      in case v of
           PBool _ \<Rightarrow> input_error ''INVALID_VALUE'' ''transaction value must be a uint256''
         | PInt i \<Rightarrow> check i
         | PStr s \<Rightarrow>
             if is_hex_quantity s then check (int_fromhex (drop 2 s))
             else input_error ''INVALID_VALUE''
                    ''transaction value must be an integer or canonical hex quantity''
         | _ \<Rightarrow> input_error ''INVALID_VALUE''
                  ''transaction value must be an integer or canonical hex quantity'')"

definition deployment_is :: "int \<Rightarrow> pystr \<Rightarrow> pyval \<Rightarrow> bool" where
  "deployment_is chain addr v =
     (case v of
        PDict d \<Rightarrow>
          (case (normalize_chain_id (dget d ''chainId''), normalize_address (dget d ''address'')) of
             (Inr c, Inr a) \<Rightarrow> c = chain \<and> a = addr
           | _ \<Rightarrow> False)
      | _ \<Rightarrow> False)"

text \<open>\<open>d[k]\<close> on a value that may not be a dictionary or lack the key.\<close>

definition index :: "pyval option \<Rightarrow> pystr \<Rightarrow> pyval option" where
  "index v k = (case v of Some (PDict d) \<Rightarrow> map_of d k | _ \<Rightarrow> None)"

definition deployment_matches :: "pyval \<Rightarrow> int \<Rightarrow> pystr \<Rightarrow> bool" where
  "deployment_matches desc chain addr =
     (case index (index (index (Some desc) ''context'') ''contract'') ''deployments'' of
        Some (PList ds) \<Rightarrow> list_ex (deployment_is chain addr) ds
      | _ \<Rightarrow> False)"

section \<open>Facts\<close>

lemma input_error_simps [simp]: "input_error cd m \<noteq> Inr x" "Inr x \<noteq> input_error cd m"
  by (simp_all add: input_error_def)

lemma bad_descriptor_simps [simp]: "bad_descriptor m \<noteq> Inr x" "Inr x \<noteq> bad_descriptor m"
  by (simp_all add: bad_descriptor_def)

lemma has_duplicate_eq: "has_duplicate (=) xs \<longleftrightarrow> \<not> distinct xs"
  by (induction xs) (auto simp: list_ex_iff)

lemma text_key_checked:
  assumes "(case map_of d k of None \<Rightarrow> Inr () | Some (PStr _) \<Rightarrow> Inr () | Some _ \<Rightarrow> bad_descriptor m) = Inr u"
  shows "dget d k = (case text_key d k of None \<Rightarrow> PNone | Some t \<Rightarrow> PStr t)"
proof (cases "map_of d k")
  case None
  then show ?thesis by (simp add: text_key_def dget_def)
next
  case (Some v)
  then show ?thesis using assms by (cases v) (simp_all add: text_key_def dget_def)
qed

lemma check_key_types_Inr:
  assumes "check_key_types sig d = Inr u"
  shows "dget d ''path'' = (case text_key d ''path'' of None \<Rightarrow> PNone | Some t \<Rightarrow> PStr t)"
    and "dget d ''label'' = (case text_key d ''label'' of None \<Rightarrow> PNone | Some t \<Rightarrow> PStr t)"
    and "dget d ''format'' = (case text_key d ''format'' of None \<Rightarrow> PNone | Some t \<Rightarrow> PStr t)"
    and "dget d ''visible'' = (case text_key d ''visible'' of None \<Rightarrow> PNone | Some t \<Rightarrow> PStr t)"
  using assms unfolding check_key_types_def res_all_Inr_iff
  by (auto intro!: text_key_checked)

text \<open>What validation guarantees of a field.\<close>

definition shown :: "field \<Rightarrow> bool" where
  "shown f \<longleftrightarrow> fd_visible f = None \<or> fd_visible f = Some ''always''"

definition field_ok :: "field \<Rightarrow> bool" where
  "field_ok f \<longleftrightarrow> (case fd_format f of None \<Rightarrow> True | Some m \<Rightarrow> m \<in> set ALLOWED_FIELD_FORMATS)
     \<and> (shown f \<longrightarrow> fd_path f \<noteq> None \<and> fd_format f \<noteq> None
          \<and> (\<exists>l. fd_label f = Some l \<and> py_strip l \<noteq> []))"

lemma validate_field_Inr:
  assumes "validate_field sig d = Inr f"
  shows "f = field_view d \<and> field_ok f \<and> (shown f \<longleftrightarrow> always_visible d)
    \<and> dget d ''label'' = (case fd_label f of None \<Rightarrow> PNone | Some t \<Rightarrow> PStr t)
    \<and> dget d ''path'' = (case fd_path f of None \<Rightarrow> PNone | Some t \<Rightarrow> PStr t)"
proof -
  from assms have keys: "check_key_types sig d = Inr ()"
    and known: "dget d ''format'' = PNone \<or> format_known (dget d ''format'')"
    and vis: "always_visible d \<Longrightarrow> check_visible_field sig d = Inr ()"
    and f: "f = field_view d"
    by (auto simp: validate_field_def res_bind_Inr_iff split: if_splits)
  note k = check_key_types_Inr [OF keys]
  have key: "dget d ''label'' = (case fd_label f of None \<Rightarrow> PNone | Some t \<Rightarrow> PStr t)"
    "dget d ''path'' = (case fd_path f of None \<Rightarrow> PNone | Some t \<Rightarrow> PStr t)"
    "dget d ''format'' = (case fd_format f of None \<Rightarrow> PNone | Some t \<Rightarrow> PStr t)"
    "dget d ''visible'' = (case fd_visible f of None \<Rightarrow> PNone | Some t \<Rightarrow> PStr t)"
    by (simp_all add: f field_view_def k)
  have sh: "shown f \<longleftrightarrow> always_visible d"
    by (auto simp: shown_def always_visible_def key(4) split: option.splits)
  have "field_ok f"
    unfolding field_ok_def
  proof (intro conjI impI)
    show "case fd_format f of None \<Rightarrow> True | Some m \<Rightarrow> m \<in> set ALLOWED_FIELD_FORMATS"
      using known key(3) by (auto simp: format_known_def split: option.splits)
    assume "shown f"
    then have "check_visible_field sig d = Inr ()" using vis sh by simp
    then show "fd_path f \<noteq> None" "fd_format f \<noteq> None" "\<exists>l. fd_label f = Some l \<and> py_strip l \<noteq> []"
      using key by (auto simp: check_visible_field_def format_known_def split: if_splits option.splits)
  qed
  with f sh key(1,2) show ?thesis by simp
qed

lemma res_map_pointwise: "res_map f xs = Inr ys \<longleftrightarrow> list_all2 (\<lambda>x y. f x = Inr y) xs ys"
  by (induction xs arbitrary: ys) (auto simp: res_bind_Inr_iff list_all2_Cons1)

lemma has_duplicate_map_PStr: "has_duplicate py_eq (map PStr xs) \<longleftrightarrow> \<not> distinct xs"
  by (induction xs) (auto simp: list_ex_iff py_eq_def)

lemma distinct_paths:
  assumes "list_all2 (\<lambda>d f. dget d ''path'' = (case fd_path f of None \<Rightarrow> PNone | Some t \<Rightarrow> PStr t)) ds fs"
    and "\<not> has_duplicate py_eq (filter (\<lambda>v. v \<noteq> PNone) (map (\<lambda>d. dget d ''path'') ds))"
  shows "distinct (List.map_filter fd_path fs)"
proof -
  have "filter (\<lambda>v. v \<noteq> PNone) (map (\<lambda>d. dget d ''path'') ds) = map PStr (List.map_filter fd_path fs)"
    using assms(1) by (induction rule: list_all2_induct) (auto simp: List.map_filter_simps split: option.splits)
  with assms(2) show ?thesis by (simp add: has_duplicate_map_PStr)
qed

lemma strip_words_nonempty: "py_strip l \<noteq> [] \<Longrightarrow> l \<noteq> []"
  by (auto simp: py_strip_def)

lemma distinct_labels:
  assumes "list_all2 (\<lambda>d f. field_ok f \<and> (shown f \<longleftrightarrow> always_visible d)
      \<and> dget d ''label'' = (case fd_label f of None \<Rightarrow> PNone | Some t \<Rightarrow> PStr t)) ds fs"
    and "visible_labels ds = Inr labels" and "distinct labels"
  shows "distinct (map (\<lambda>f. squash (the (fd_label f))) (filter shown fs))"
proof -
  have "visible_labels ds = Inr (map (\<lambda>f. squash (the (fd_label f))) (filter shown fs))"
    using assms(1)
  proof (induction rule: list_all2_induct)
    case Nil
    then show ?case by (simp add: visible_labels_def)
  next
    case (Cons d ds f fs)
    show ?case
    proof (cases "shown f")
      case True
      then obtain l where "fd_label f = Some l" "py_strip l \<noteq> []" using Cons by (auto simp: field_ok_def)
      then show ?thesis
        using Cons True strip_words_nonempty [of l] by (auto simp: visible_labels_def)
    next
      case False
      then show ?thesis using Cons by (auto simp: visible_labels_def)
    qed
  qed
  with assms(2,3) show ?thesis by simp
qed

definition format_ok :: "fmt \<Rightarrow> bool" where
  "format_ok fm \<longleftrightarrow> length (fm_fields fm) \<le> 16 \<and> list_all field_ok (fm_fields fm)
     \<and> distinct (List.map_filter fd_path (fm_fields fm))
     \<and> distinct (map (\<lambda>f. squash (the (fd_label f))) (filter shown (fm_fields fm)))"

lemma validate_format_ok:
  assumes "validate_format (sig, v) = Inr r"
  shows "fst r = sig \<and> format_ok (snd r)"
proof -
  obtain d where d: "v = PDict d"
    using assms by (cases v) (simp_all add: validate_format_def)
  obtain vs where vs: "dget_or d ''fields'' (PList []) = PList vs"
    using assms d by (cases "dget_or d ''fields'' (PList [])") (simp_all add: validate_format_def)
  from assms obtain labels fs where
    v: "int (length vs) \<le> 16" and dup: "\<not> has_duplicate py_eq (filter (\<lambda>v. v \<noteq> PNone) (map (\<lambda>f. dget f ''path'') (map dict_items vs)))"
    and labels: "visible_labels (map dict_items vs) = Inr labels" "distinct labels"
    and fs: "res_map (validate_field sig) (map dict_items vs) = Inr fs"
    and r: "fst r = sig" "fm_fields (snd r) = fs"
    by (auto simp: validate_format_def d vs Let_def res_bind_Inr_iff MAX_FIELDS_PER_FORMAT_def
        has_duplicate_eq simp del: res_all.simps split: if_splits)
  have all: "list_all2 (\<lambda>d f. validate_field sig d = Inr f) (map dict_items vs) fs"
    using fs by (simp add: res_map_pointwise)
  then have "length fs \<le> 16" using v by (auto dest: list_all2_lengthD)
  moreover have "list_all field_ok fs"
    using all by (induction rule: list_all2_induct) (auto dest: validate_field_Inr)
  moreover have "distinct (List.map_filter fd_path fs)"
    by (rule distinct_paths [OF _ dup], rule list_all2_mono [OF all]) (auto dest: validate_field_Inr)
  moreover have "distinct (map (\<lambda>f. squash (the (fd_label f))) (filter shown fs))"
    by (rule distinct_labels [OF _ labels], rule list_all2_mono [OF all]) (auto dest: validate_field_Inr)
  ultimately show ?thesis using r by (simp add: format_ok_def)
qed

lemma validate_descriptor_Inr:
  assumes "validate_descriptor fr encodable cache desc = Inr (abi, fs)"
  shows "\<exists>formats. res_map validate_format formats = Inr fs \<and> int (length formats) \<le> 1024
    \<and> descriptor_abi fr encodable cache desc = Inr abi"
proof (cases desc)
  case (PDict d)
  then obtain raw where raw: "canonical_json fr desc = Inr raw"
    using assms by (cases "canonical_json fr desc") (simp_all add: validate_descriptor_def)
  show ?thesis
  proof (cases "descriptor_abi fr encodable cache desc")
    case (Inl e)
    then show ?thesis using assms raw PDict
      by (auto simp: validate_descriptor_def res_bind_Inr_iff split: if_splits)
  next
    case (Inr a)
    show ?thesis
    proof (cases "dget d ''display''")
      case disp: (PDict display)
      show ?thesis
      proof (cases "dget display ''formats''")
        case fmts: (PDict formats)
        then show ?thesis using assms raw PDict Inr disp
          by (auto simp: validate_descriptor_def res_bind_Inr_iff MAX_FORMATS_def split: if_splits)
      qed (use assms raw PDict Inr disp in
          \<open>auto simp: validate_descriptor_def res_bind_Inr_iff split: if_splits\<close>)
    qed (use assms raw PDict Inr in
        \<open>auto simp: validate_descriptor_def res_bind_Inr_iff split: if_splits\<close>)
  qed
qed (use assms in \<open>auto simp: validate_descriptor_def\<close>)

text \<open>
  C29: What the analyses may assume of a descriptor that \<open>validate_descriptor\<close> accepted:
  at most 1024 formats of at most 16 fields; no two fields of a format with the same
  path and no two visible fields whose labels read the same after normalising case and
  blanks; every field that is always visible has a path, a label that is not blank and a
  supported format; and the functions of its ABI satisfy the ABI guarantees.
\<close>

theorem validate_descriptor_sound:
  assumes "validate_descriptor fr encodable cache desc = Inr (abi, fs)"
  shows "length fs \<le> 1024
    \<and> (\<forall>(sig, fm)\<in>set fs. length (fm_fields fm) \<le> 16
        \<and> distinct (List.map_filter fd_path (fm_fields fm))
        \<and> distinct (map (\<lambda>f. squash (the (fd_label f))) (filter shown (fm_fields fm)))
        \<and> (\<forall>f\<in>set (fm_fields fm). fd_visible f = None \<or> fd_visible f = Some ''always'' \<longrightarrow>
             fd_path f \<noteq> None \<and> (\<exists>l. fd_label f = Some l \<and> py_strip l \<noteq> [])
             \<and> (\<exists>m. fd_format f = Some m \<and> m \<in> set ALLOWED_FIELD_FORMATS)))
    \<and> (\<forall>fn. FunctionEntry fn \<in> set abi \<longrightarrow> function_ok encodable fn)"
proof -
  from validate_descriptor_Inr [OF assms] obtain formats where
    r: "res_map validate_format formats = Inr fs" "int (length formats) \<le> 1024"
    and abi: "descriptor_abi fr encodable cache desc = Inr abi" by blast
  have "format_ok fm" if "(sig, fm) \<in> set fs" for sig fm
  proof -
    from res_map_Inr_set [OF r(1) that] obtain sv where "validate_format sv = Inr (sig, fm)" by blast
    then show ?thesis using validate_format_ok [of "fst sv" "snd sv"] by simp
  qed
  then show ?thesis
    using r(2) res_map_Inr_length [OF r(1)] descriptor_abi_functions [OF abi]
    by (fastforce simp: format_ok_def list_all_iff field_ok_def shown_def)
qed

definition toy_descriptor :: pyval where
  "toy_descriptor = PDict
     [(''context'', PDict [(''contract'', PDict
        [(''abi'', toy_abi_json),
         (''deployments'', PList [PDict [(''chainId'', PInt 1), (''address'', PStr (''0x'' @ replicate 40 CHR ''a''))]])])]),
      (''display'', PDict [(''formats'', PDict
        [(''f(address)'', PDict [(''intent'', PStr ''Go''), (''fields'', PList
           [PDict [(''path'', PStr ''#.to''), (''label'', PStr ''To''), (''format'', PStr ''addressName'')]])])])])]"

definition toy_format :: fmt where
  "toy_format = \<lparr>fm_fields = [\<lparr>fd_path = Some ''#.to'', fd_label = Some ''To'',
       fd_format = Some ''addressName'', fd_visible = None, fd_params = None\<rparr>],
     fm_intent = Some ''Go'', fm_interpolated = None, fm_empty = False\<rparr>"

lemma toy_validate_descriptor:
  "validate_descriptor (\<lambda>_. []) (\<lambda>t. t = ''address'') (\<lambda>_ _. None) toy_descriptor
   = Inr ([FunctionEntry toy_function], [(''f(address)'', toy_format)])"
  by code_simp

theorem validate_descriptor_sound_witness:
  "length (fm_fields toy_format) \<le> 16 \<and> function_ok (\<lambda>t. t = ''address'') toy_function"
  using validate_descriptor_sound [OF toy_validate_descriptor] by simp

section \<open>Round trips of calldata and value\<close>

lemma parse_calldata_length:
  "parse_calldata v = Inr bs \<Longrightarrow> 4 \<le> length bs \<and> length bs \<le> 131072"
  by (cases v) (auto simp: parse_calldata_def Let_def MAX_CALLDATA_BYTES_def split: if_splits)



end
