(* ===== verification/Call_Decoding.thy ===== *)
theory Call_Decoding
  imports Descriptor_Validation
begin

text \<open>
  Binding one call to one function in \<open>lucent/preflight.py\<close>: resolving the selector,
  decoding the arguments and rendering them, the ERC-7730 paths of a function's signed
  leaves, and the names those paths rest on. Keccak-256, SHA-256 and \<open>eth_abi\<close> are
  parameters: \<open>dec\<close> is \<open>decode(types, data, strict=True)\<close> with \<open>None\<close> for any exception,
  \<open>enc\<close> is \<open>encode(types, values)\<close>, and \<open>str_of\<close> is \<open>str\<close> on the values that have no
  JSON form of their own.
\<close>

section \<open>The selected function\<close>

definition resolve_call ::
  "(bytes \<Rightarrow> bytes) \<Rightarrow> abi_entry list \<Rightarrow> bytes \<Rightarrow> pf_failure + (abi_function \<times> pystr)" where
  "resolve_call keccak abi calldata =
     (let sel = ''0x'' @ bytes_hex (take 4 calldata);
          matches = filter (\<lambda>m. selector keccak (snd m) = sel)
                      (map (\<lambda>fn. (fn, signature fn)) (signable_functions abi))
      in case matches of
           [] \<Rightarrow> input_error ''UNKNOWN_SELECTOR'' (''selector '' @ sel @ '' is absent from the descriptor ABI'')
         | [m] \<Rightarrow> Inr m
         | _ \<Rightarrow> input_error ''SELECTOR_COLLISION''
                  (''selector '' @ sel @ '' does not resolve to one unique function''))"

definition MAX_BYTES_PREVIEW :: nat where
  "MAX_BYTES_PREVIEW = 64"

fun json_safe :: "(bytes \<Rightarrow> bytes) \<Rightarrow> (pyval \<Rightarrow> pystr) \<Rightarrow> pyval \<Rightarrow> pyval" where
  "json_safe sha256 str_of (PBytes b) =
     (if length b \<le> MAX_BYTES_PREVIEW then PStr (''0x'' @ bytes_hex b)
      else PDict [(''encoding'', PStr ''bytes''), (''length'', PInt (int (length b))),
             (''prefix'', PStr (''0x'' @ bytes_hex (take MAX_BYTES_PREVIEW b))),
             (''sha256'', PStr (bytes_hex (sha256 b))), (''truncated'', PBool True)])"
| "json_safe sha256 str_of (PList xs) = PList (map (json_safe sha256 str_of) xs)"
| "json_safe sha256 str_of (PTuple xs) = PList (map (json_safe sha256 str_of) xs)"
| "json_safe sha256 str_of (PBool b) = PBool b"
| "json_safe sha256 str_of (PInt i) = PStr (int_str i)"
| "json_safe sha256 str_of (PStr s) = PStr s"
| "json_safe sha256 str_of PNone = PNone"
| "json_safe sha256 str_of v = PStr (str_of v)"

record decoded_arg =
  da_name :: pystr
  da_type :: pystr
  da_value :: pyval

definition argument_name :: "nat \<Rightarrow> abi_input \<Rightarrow> pystr" where
  "argument_name i item = (if input_name item \<noteq> [] then input_name item else ''arg'' @ nat_str i)"

definition decode_arguments ::
  "(bytes \<Rightarrow> bytes) \<Rightarrow> (pyval \<Rightarrow> pystr) \<Rightarrow> (pystr list \<Rightarrow> bytes \<Rightarrow> pyval list option) \<Rightarrow>
   (pystr list \<Rightarrow> pyval list \<Rightarrow> bytes) \<Rightarrow> abi_function \<Rightarrow> bytes \<Rightarrow> pf_failure + decoded_arg list" where
  "decode_arguments sha256 str_of dec enc fn calldata =
     (let types = map canonical_type (fn_inputs fn); args = drop 4 calldata in
      case dec types args of
        None \<Rightarrow> input_error ''CALLDATA_DECODE_FAILED''
                  ''calldata does not decode against the selected ABI function''
      | Some vals \<Rightarrow>
          if enc types vals \<noteq> args
          then input_error ''CALLDATA_NOT_CANONICAL''
                 (''calldata contains trailing or non-canonical bytes outside the selected ABI '' @ ''arguments'')
          else if length vals \<noteq> length (fn_inputs fn)
          then Inl (Uncaught (ValueError ''zip() arguments differ in length''))
          else Inr (map (\<lambda>(i, item, v). \<lparr>da_name = argument_name i item, da_type = canonical_type item,
                         da_value = json_safe sha256 str_of v\<rparr>)
                 (zip [0..<length vals] (zip (fn_inputs fn) vals))))"

section \<open>Paths into the ABI\<close>

text \<open>\<open>ARRAY_TYPE_RE\<close>: the element type, if the type ends in brackets.\<close>

definition array_element :: "pystr \<Rightarrow> pystr option" where
  "array_element t =
     (case rev t of
        [] \<Rightarrow> None
      | c # s \<Rightarrow>
          if c = CHR '']'' then
            (case dropWhile is_digit s of
               [] \<Rightarrow> None
             | b # u \<Rightarrow> if b = CHR ''['' \<and> list_all (\<lambda>c. code c \<noteq> 10) u then Some (rev u) else None)
          else None)"

lemma array_element_shorter: "array_element t = Some u \<Longrightarrow> length u < length t"
proof -
  assume a: "array_element t = Some u"
  then obtain c s b v where t: "rev t = c # s" and s: "dropWhile is_digit s = b # v" and u: "u = rev v"
    by (auto simp: array_element_def split: list.splits if_splits)
  have "length (b # v) \<le> length s" using length_dropWhile_le [of is_digit s] by (simp only: s)
  moreover have "length t = Suc (length s)" using t by (metis length_Cons length_rev)
  ultimately show ?thesis using u by simp
qed

fun path_target :: "abi_input \<Rightarrow> pystr list \<Rightarrow> abi_input option" where
  "path_target cur [] = Some cur"
| "path_target (AbiInput nm t comps) (seg # segs) =
     (if seg = ''[]'' then
        (case array_element t of
           None \<Rightarrow> None
         | Some u \<Rightarrow> path_target (AbiInput nm u comps) segs)
      else if \<not> py_startswith t ''tuple'' then None
      else
        (case find (\<lambda>c. ai_name c = Some seg) comps of
           None \<Rightarrow> None
         | Some c \<Rightarrow> path_target c segs))"

definition format_matches_abi :: "pystr \<Rightarrow> pystr option \<Rightarrow> bool" where
  "format_matches_abi t fd =
     (let f = (case fd of None \<Rightarrow> ''raw'' | Some f \<Rightarrow> f) in
      if f \<notin> set ALLOWED_FIELD_FORMATS then False
      else if array_element t \<noteq> None \<or> py_startswith t ''tuple'' then f \<in> {''raw'', ''calldata''}
      else if t = ''address'' then f \<in> {''raw'', ''addressName''}
      else if t = ''bool'' then f \<in> {''raw'', ''enum''}
      else if py_startswith t ''uint'' \<or> py_startswith t ''int''
      then f \<in> {''raw'', ''amount'', ''tokenAmount'', ''nftName'', ''date'', ''duration'', ''unit'', ''enum''}
      else if py_startswith t ''bytes'' then f \<in> {''raw'', ''calldata''}
      else if t = ''string'' then f \<in> {''raw'', ''enum''}
      else f = ''raw'')"

fun input_weight :: "abi_input \<Rightarrow> nat" where
  "input_weight (AbiInput nm t comps) = Suc (sum_list (map input_weight comps))"

lemma input_weight_component:
  "c \<in> set comps \<Longrightarrow> input_weight c < input_weight (AbiInput nm t comps)"
  by (induction comps) auto

definition component_name :: "nat \<Rightarrow> abi_input \<Rightarrow> pystr" where
  "component_name i c = (if input_name c \<noteq> [] then input_name c else ''component'' @ nat_str i)"

text \<open>\<open>_abi_leaf_paths\<close>, for a prefix of path segments.\<close>

function abi_leaf_paths :: "abi_input \<Rightarrow> pystr list \<Rightarrow> pystr list list" where
  "abi_leaf_paths (AbiInput nm t comps) pre =
     (case array_element t of
        Some u \<Rightarrow> abi_leaf_paths (AbiInput nm u comps) (pre @ [''[]''])
      | None \<Rightarrow>
          if py_startswith t ''tuple'' then
            (if comps = [] then [pre]
             else concat (map (\<lambda>(i, c). abi_leaf_paths c (pre @ [component_name i c]))
                    (zip [0..<length comps] comps)))
          else [pre])"
  by pat_completeness auto
termination
  by (relation "measures [\<lambda>(i, p). input_weight i, \<lambda>(i, p). length (ai_type i)]")
    (auto simp: array_element_shorter dest!: set_zip_rightD input_weight_component)

declare abi_leaf_paths.simps [simp del]

section \<open>Names of the selected function\<close>

definition unbindable :: "pystr \<Rightarrow> pf_failure + 'a" where
  "unbindable msg = input_error ''UNBINDABLE_ABI'' msg"

definition unique_names :: "pystr \<Rightarrow> abi_input list \<Rightarrow> pf_failure + unit" where
  "unique_names scope items =
     (if distinct (map ai_name items) then Inr ()
      else unbindable (scope @ '' inputs contain duplicate names''))"

text \<open>One turn of the loop of \<open>validate_inputs\<close>, with the inputs of a tuple inside.\<close>

fun check_input_names :: "pystr \<Rightarrow> abi_input \<Rightarrow> pf_failure + unit" where
  "check_input_names scope (AbiInput nm t comps) =
     (case nm of
        None \<Rightarrow> unbindable (scope @ '' inputs require unique Solidity identifiers'')
      | Some n \<Rightarrow>
          if \<not> is_identifier n then unbindable (scope @ '' inputs require unique Solidity identifiers'')
          else if py_startswith t ''tuple''
          then res_bind (res_all (check_input_names (scope @ ''.'' @ n)) comps)
                 (\<lambda>_. unique_names (scope @ ''.'' @ n) comps)
          else Inr ())"

definition validate_selected_function :: "abi_function \<Rightarrow> pf_failure + unit" where
  "validate_selected_function fn =
     (if \<not> is_identifier (fn_name fn) then unbindable ''selected function has an invalid name''
      else res_bind (res_all (check_input_names (fn_name fn)) (fn_inputs fn))
             (\<lambda>_. unique_names (fn_name fn) (fn_inputs fn)))"

section \<open>Facts: the selector and the payload\<close>

lemma bytes_hex_inj: "bytes_hex a = bytes_hex b \<longleftrightarrow> a = b"
  by (metis bytes_fromhex_hex)

lemma resolve_call_Inr:
  assumes "resolve_call keccak abi calldata = Inr (fn, sig)"
  shows "FunctionEntry fn \<in> set abi \<and> is_signable fn \<and> sig = signature fn
    \<and> take 4 (keccak (utf8 sig)) = take 4 calldata
    \<and> (\<forall>gn. FunctionEntry gn \<in> set abi \<longrightarrow> is_signable gn \<longrightarrow>
         take 4 (keccak (utf8 (signature gn))) = take 4 calldata \<longrightarrow> gn = fn)"
proof -
  let ?ms = "filter (\<lambda>m. selector keccak (snd m) = ''0x'' @ bytes_hex (take 4 calldata))
      (map (\<lambda>fn. (fn, signature fn)) (signable_functions abi))"
  have ms: "?ms = [(fn, sig)]"
    using assms by (auto simp: resolve_call_def Let_def input_error_def split: list.splits)
  have sel: "selector keccak x = ''0x'' @ bytes_hex (take 4 calldata)
      \<longleftrightarrow> take 4 (keccak (utf8 x)) = take 4 calldata" for x
    by (simp add: selector_def bytes_hex_inj)
  have "(gn, signature gn) \<in> set ?ms \<longleftrightarrow> FunctionEntry gn \<in> set abi \<and> is_signable gn
      \<and> take 4 (keccak (utf8 (signature gn))) = take 4 calldata" for gn
    using sel by (auto simp: signable_functions_iff)
  moreover have "(fn, sig) \<in> set ?ms" unfolding ms by simp
  then have "sig = signature fn" by auto
  ultimately show ?thesis unfolding ms by auto
qed

lemma decode_arguments_Inr:
  assumes "decode_arguments sha256 str_of dec enc fn calldata = Inr args"
  shows "\<exists>vals. dec (map canonical_type (fn_inputs fn)) (drop 4 calldata) = Some vals
    \<and> enc (map canonical_type (fn_inputs fn)) vals = drop 4 calldata
    \<and> length vals = length (fn_inputs fn)
    \<and> args = map (\<lambda>(i, item, v). \<lparr>da_name = argument_name i item, da_type = canonical_type item,
                  da_value = json_safe sha256 str_of v\<rparr>)
         (zip [0..<length vals] (zip (fn_inputs fn) vals))"
  using assms by (auto simp: decode_arguments_def Let_def input_error_def split: option.splits if_splits)

text \<open>
  C3: The call is bound to its bytes. When the selector resolves and the arguments
  decode, the function is the only signable function of the ABI with that selector, and
  the whole calldata is the four selector bytes of its signature followed by the
  canonical encoding of exactly the decoded values, one per input: no byte of the signed
  payload lies outside what is presented.
\<close>

theorem calldata_bound:
  assumes "resolve_call keccak abi calldata = Inr (fn, sig)"
    and "decode_arguments sha256 str_of dec enc fn calldata = Inr args"
  shows "FunctionEntry fn \<in> set abi \<and> is_signable fn
    \<and> (\<forall>gn. FunctionEntry gn \<in> set abi \<longrightarrow> is_signable gn \<longrightarrow>
         take 4 (keccak (utf8 (signature gn))) = take 4 calldata \<longrightarrow> gn = fn)
    \<and> (\<exists>vals. length vals = length (fn_inputs fn)
         \<and> calldata = take 4 (keccak (utf8 (signature fn))) @ enc (map canonical_type (fn_inputs fn)) vals
         \<and> map da_type args = map canonical_type (fn_inputs fn)
         \<and> map da_value args = map (json_safe sha256 str_of) vals)"
proof -
  note r = resolve_call_Inr [OF assms(1)]
  from decode_arguments_Inr [OF assms(2)] obtain vals where
    v: "enc (map canonical_type (fn_inputs fn)) vals = drop 4 calldata"
      "length vals = length (fn_inputs fn)"
    and args: "args = map (\<lambda>(i, item, v). \<lparr>da_name = argument_name i item, da_type = canonical_type item,
                  da_value = json_safe sha256 str_of v\<rparr>)
         (zip [0..<length vals] (zip (fn_inputs fn) vals))" by blast
  have "calldata = take 4 (keccak (utf8 (signature fn))) @ enc (map canonical_type (fn_inputs fn)) vals"
    using r v(1) by (metis append_take_drop_id)
  moreover have "map da_type args = map canonical_type (fn_inputs fn)"
      "map da_value args = map (json_safe sha256 str_of) vals"
    using v(2) by (auto simp: args intro!: nth_equalityI)
  ultimately show ?thesis using r v(2) by blast
qed

definition toy_keccak :: "bytes \<Rightarrow> bytes" where
  "toy_keccak b = take 4 (b @ [0, 0, 0, 0])"

theorem calldata_bound_witness:
  "\<exists>vals. length vals = 1
     \<and> ([102, 40, 97, 100, 7] :: bytes) = take 4 (toy_keccak (utf8 ''f(address)'')) @ [7]
     \<and> map da_value [\<lparr>da_name = ''to'', da_type = ''address'', da_value = PStr ''0x07''\<rparr>]
       = map (json_safe id (\<lambda>_. [])) vals"
proof -
  let ?dec = "\<lambda>ts b. Some [PBytes b]" and ?enc = "\<lambda>ts vs. case vs of [PBytes b] \<Rightarrow> b | _ \<Rightarrow> []"
  have r: "resolve_call toy_keccak [FunctionEntry toy_function] [102, 40, 97, 100, 7] = Inr (toy_function, ''f(address)'')"
    by code_simp
  have d: "decode_arguments id (\<lambda>_. []) ?dec ?enc toy_function [102, 40, 97, 100, 7]
      = Inr [\<lparr>da_name = ''to'', da_type = ''address'', da_value = PStr ''0x07''\<rparr>]"
    by code_simp
  from calldata_bound [OF r d] obtain vals where
    "length vals = length (fn_inputs toy_function)"
    "map da_value [\<lparr>da_name = ''to'', da_type = ''address'', da_value = PStr ''0x07''\<rparr>]
       = map (json_safe id (\<lambda>_. [])) vals" by blast
  moreover have "([102, 40, 97, 100, 7] :: bytes) = take 4 (toy_keccak (utf8 ''f(address)'')) @ [7]"
    by code_simp
  ultimately show ?thesis by (auto simp: toy_function_def)
qed

section \<open>Facts: leaf paths\<close>

fun names_ok :: "abi_input \<Rightarrow> bool" where
  "names_ok (AbiInput nm t comps) \<longleftrightarrow> (\<exists>n. nm = Some n \<and> is_identifier n)
     \<and> (py_startswith t ''tuple'' \<longrightarrow> distinct (map ai_name comps) \<and> list_all names_ok comps)"

lemma unbindable_simps [simp]: "unbindable m \<noteq> Inr x"
  by (simp add: unbindable_def)

lemma unique_names_Inr [simp]: "unique_names scope items = Inr u \<longleftrightarrow> distinct (map ai_name items)"
  by (simp add: unique_names_def)

lemma check_input_names_ok: "check_input_names scope i = Inr u \<Longrightarrow> names_ok i"
proof (induction scope i arbitrary: u rule: check_input_names.induct)
  case (1 scope nm t comps)
  then obtain n where n: "nm = Some n" "is_identifier n"
    by (auto split: option.splits if_splits)
  show ?case
  proof (cases "py_startswith t ''tuple''")
    case True
    then have "res_all (check_input_names (scope @ ''.'' @ n)) comps = Inr ()" "distinct (map ai_name comps)"
      using "1.prems" n by (auto simp: res_bind_Inr_iff)
    then show ?thesis
      using "1.IH" [OF n(1) _ True] n by (auto simp: res_all_Inr_iff list_all_iff)
  qed (use n in simp)
qed

lemma validate_selected_function_ok:
  "validate_selected_function fn = Inr u \<Longrightarrow>
     is_identifier (fn_name fn) \<and> distinct (map ai_name (fn_inputs fn)) \<and> list_all names_ok (fn_inputs fn)"
  by (auto simp: validate_selected_function_def res_bind_Inr_iff res_all_Inr_iff list_all_iff
      check_input_names_ok split: if_splits)

definition is_leaf :: "abi_input \<Rightarrow> bool" where
  "is_leaf i \<longleftrightarrow> array_element (ai_type i) = None
     \<and> (py_startswith (ai_type i) ''tuple'' \<longrightarrow> ai_components i = [])"

lemma array_element_prefix: "array_element t = Some u \<Longrightarrow> prefix u t"
proof -
  assume "array_element t = Some u"
  then obtain c s b v where t: "rev t = c # s" and s: "dropWhile is_digit s = b # v" and u: "u = rev v"
    by (auto simp: array_element_def split: list.splits if_splits)
  have "suffix (b # v) s" by (metis s suffix_dropWhile)
  then have "suffix v (rev t)" unfolding t by (meson suffix_ConsD suffix_ConsI suffix_order.trans)
  then show ?thesis by (simp add: u suffix_to_prefix)
qed

lemma array_element_tuple:
  "array_element t = Some u \<Longrightarrow> py_startswith u ''tuple'' \<Longrightarrow> py_startswith t ''tuple''"
  using prefix_order.trans [OF _ array_element_prefix] unfolding py_startswith_def by blast

lemma identifier_not_brackets: "is_identifier n \<Longrightarrow> n \<noteq> ''[]'' \<and> n \<noteq> []"
proof
  assume n: "is_identifier n"
  have "\<not> is_identifier ''[]''" by code_simp
  with n show "n \<noteq> ''[]''" by auto
  from n show "n \<noteq> []" by (auto simp: is_identifier_def)
qed

lemma names_ok_name: "names_ok c \<Longrightarrow> \<exists>n. ai_name c = Some n \<and> is_identifier n"
  by (cases c) auto

lemma component_name_ok: "names_ok c \<Longrightarrow> ai_name c = Some (component_name i c)"
  using names_ok_name [of c] identifier_not_brackets by (auto simp: component_name_def input_name_def)

lemma find_component:
  "distinct (map ai_name comps) \<Longrightarrow> c \<in> set comps \<Longrightarrow> find (\<lambda>x. ai_name x = ai_name c) comps = Some c"
  by (induction comps) (auto simp: image_iff)

text \<open>Every leaf path leads, by the names alone, to a leaf of the input.\<close>

lemma leaf_paths_resolve:
  "names_ok i \<Longrightarrow> p \<in> set (abi_leaf_paths i pre) \<Longrightarrow>
   \<exists>s leaf. p = pre @ s \<and> path_target i s = Some leaf \<and> is_leaf leaf"
proof (induction i pre arbitrary: p rule: abi_leaf_paths.induct)
  case (1 nm t comps pre)
  show ?case
  proof (cases "array_element t")
    case (Some u)
    have "names_ok (AbiInput nm u comps)" using "1.prems"(1) array_element_tuple [OF Some] by auto
    moreover have "p \<in> set (abi_leaf_paths (AbiInput nm u comps) (pre @ [''[]'']))"
      using "1.prems"(2) Some by (subst (asm) abi_leaf_paths.simps) simp
    ultimately obtain s leaf where "p = (pre @ [''[]'']) @ s" "path_target (AbiInput nm u comps) s = Some leaf"
      "is_leaf leaf" using "1.IH"(2) [OF Some] by blast
    then show ?thesis using Some by (intro exI [of _ "''[]'' # s"]) simp
  next
    case None
    show ?thesis
    proof (cases "py_startswith t ''tuple'' \<and> comps \<noteq> []")
      case True
      then obtain j c where jc: "(j, c) \<in> set (zip [0..<length comps] comps)"
        and p: "p \<in> set (abi_leaf_paths c (pre @ [component_name j c]))"
        using "1.prems"(2) None by (subst (asm) abi_leaf_paths.simps) auto
      from jc have c: "c \<in> set comps" by (rule set_zip_rightD)
      have ok: "names_ok c" and dist: "distinct (map ai_name comps)"
        using "1.prems"(1) True c by (auto simp: list_all_iff)
      from "1.IH"(1) [OF None _ _ jc refl ok p] True obtain s leaf where
        s: "p = (pre @ [component_name j c]) @ s" "path_target c s = Some leaf" "is_leaf leaf" by blast
      have nm: "ai_name c = Some (component_name j c)" by (rule component_name_ok [OF ok])
      have "component_name j c \<noteq> ''[]''"
        using names_ok_name [OF ok] identifier_not_brackets nm by auto
      then have "path_target (AbiInput nm t comps) (component_name j c # s) = Some leaf"
        using True s(2) find_component [OF dist c] nm by simp
      with s show ?thesis by (intro exI [of _ "component_name j c # s"]) simp
    next
      case False
      then have "p = pre" using "1.prems"(2) None by (subst (asm) abi_leaf_paths.simps) (auto split: if_splits)
      then show ?thesis using False None by (intro exI [of _ "[]"]) (auto simp: is_leaf_def)
    qed
  qed
qed

lemma leaf_paths_prefix: "names_ok i \<Longrightarrow> p \<in> set (abi_leaf_paths i pre) \<Longrightarrow> prefix pre p"
  using leaf_paths_resolve [of i p pre] by (auto simp: prefix_def)

lemma distinct_concat_disjoint:
  "distinct (map f xs) \<Longrightarrow> (\<And>x. x \<in> set xs \<Longrightarrow> distinct (g x)) \<Longrightarrow>
   (\<And>x p. x \<in> set xs \<Longrightarrow> p \<in> set (g x) \<Longrightarrow> h p = f x) \<Longrightarrow> distinct (concat (map g xs))"
  by (induction xs) (auto, metis image_eqI)

lemma nth_after_prefix: "prefix (pre @ [n]) p \<Longrightarrow> p ! length pre = n"
  by (auto simp: prefix_def nth_append)

lemma zip_component_names:
  assumes "list_all names_ok comps"
  shows "map (\<lambda>(i, c). Some (component_name i c)) (zip [0..<length comps] comps) = map ai_name comps"
proof (rule nth_equalityI)
  fix k assume "k < length (map (\<lambda>(i, c). Some (component_name i c)) (zip [0..<length comps] comps))"
  then have k: "k < length comps" by simp
  then have "names_ok (comps ! k)" using assms by (simp add: list_all_length)
  then show "map (\<lambda>(i, c). Some (component_name i c)) (zip [0..<length comps] comps) ! k = map ai_name comps ! k"
    using k component_name_ok [of "comps ! k" k] by simp
qed simp

lemma leaf_paths_distinct: "names_ok i \<Longrightarrow> distinct (abi_leaf_paths i pre)"
proof (induction i pre rule: abi_leaf_paths.induct)
  case (1 nm t comps pre)
  show ?case
  proof (cases "array_element t")
    case (Some u)
    have "names_ok (AbiInput nm u comps)" using "1.prems"(1) array_element_tuple [OF Some] by auto
    then show ?thesis using "1.IH"(2) [OF Some] Some by (subst abi_leaf_paths.simps) simp
  next
    case None
    show ?thesis
    proof (cases "py_startswith t ''tuple'' \<and> comps \<noteq> []")
      case True
      let ?z = "zip [0..<length comps] comps"
      have ok: "list_all names_ok comps" and dist: "distinct (map ai_name comps)"
        using "1.prems" True by auto
      have "distinct (map (\<lambda>(i, c). Some (component_name i c)) ?z)"
        using dist zip_component_names [OF ok] by simp
      moreover have "names_ok c" if "(i, c) \<in> set ?z" for i c
        using ok set_zip_rightD [OF that] by (simp add: list_all_iff)
      ultimately have "distinct (concat (map (\<lambda>(i, c). abi_leaf_paths c (pre @ [component_name i c])) ?z))"
        using "1.IH"(1) [OF None] True
        by (intro distinct_concat_disjoint [where h = "\<lambda>p. Some (p ! length pre)"])
          (auto dest!: leaf_paths_prefix [rotated] nth_after_prefix)
      then show ?thesis using None True by (subst abi_leaf_paths.simps) simp
    next
      case False
      then show ?thesis using None by (subst abi_leaf_paths.simps) auto
    qed
  qed
qed

text \<open>All the leaf paths of a function's inputs.\<close>

definition function_leaves :: "abi_function \<Rightarrow> pystr list list" where
  "function_leaves fn = concat (map (\<lambda>i. abi_leaf_paths i [input_name i]) (fn_inputs fn))"

text \<open>
  Paths cannot alias. Once \<open>_validate_selected_function\<close> accepts the function, the
  leaf paths of its inputs are pairwise different, and each one leads through the names,
  from the one input with its first segment, to a signed leaf (no array, no tuple with
  components).
\<close>

theorem leaf_paths_unambiguous:
  assumes "validate_selected_function fn = Inr ()"
  shows "distinct (function_leaves fn)
    \<and> (\<forall>p\<in>set (function_leaves fn). \<exists>!i. i \<in> set (fn_inputs fn) \<and> p \<noteq> [] \<and> ai_name i = Some (hd p)
         \<and> (\<exists>leaf. path_target i (tl p) = Some leaf \<and> is_leaf leaf))"
proof -
  from validate_selected_function_ok [OF assms]
  have dist: "distinct (map ai_name (fn_inputs fn))" and ok: "list_all names_ok (fn_inputs fn)" by simp_all
  have nm: "ai_name i = Some (input_name i)" if "i \<in> set (fn_inputs fn)" for i
    using ok that names_ok_name [of i] by (auto simp: list_all_iff input_name_def)
  have pre: "prefix [input_name i] p" if "i \<in> set (fn_inputs fn)" "p \<in> set (abi_leaf_paths i [input_name i])" for i p
    using leaf_paths_prefix [OF _ that(2)] ok that(1) by (simp add: list_all_iff)
  have "distinct (function_leaves fn)"
    unfolding function_leaves_def
  proof (rule distinct_concat_disjoint [where h = "\<lambda>p. Some (hd p)", OF dist])
    fix i assume "i \<in> set (fn_inputs fn)"
    then show "distinct (abi_leaf_paths i [input_name i])"
      using ok leaf_paths_distinct by (simp add: list_all_iff)
  next
    fix i p assume i: "i \<in> set (fn_inputs fn)" "p \<in> set (abi_leaf_paths i [input_name i])"
    then show "Some (hd p) = ai_name i" using nm [OF i(1)] pre [OF i] by (auto simp: prefix_def)
  qed
  moreover have "\<exists>!i. i \<in> set (fn_inputs fn) \<and> p \<noteq> [] \<and> ai_name i = Some (hd p)
         \<and> (\<exists>leaf. path_target i (tl p) = Some leaf \<and> is_leaf leaf)"
    if p: "p \<in> set (function_leaves fn)" for p
  proof -
    from p obtain i where i: "i \<in> set (fn_inputs fn)" "p \<in> set (abi_leaf_paths i [input_name i])"
      by (auto simp: function_leaves_def)
    then obtain s leaf where s: "p = [input_name i] @ s" "path_target i s = Some leaf" "is_leaf leaf"
      using leaf_paths_resolve [of i p "[input_name i]"] ok by (auto simp: list_all_iff)
    have "j = i" if "j \<in> set (fn_inputs fn)" "ai_name j = Some (hd p)" for j
      using dist i(1) that nm [OF i(1)] s(1) by (metis append_Cons distinct_map inj_onD list.sel(1))
    then show ?thesis using i(1) nm [OF i(1)] s by (intro ex1I [of _ i]) auto
  qed
  ultimately show ?thesis by blast
qed

theorem leaf_paths_unambiguous_witness:
  "distinct (function_leaves toy_swap) \<and> function_leaves toy_swap
     = [[''path'', ''[]'', ''a''], [''path'', ''[]'', ''f''], [''n'']]"
proof -
  have "validate_selected_function toy_swap = Inr ()" by code_simp
  moreover have "function_leaves toy_swap
     = [[''path'', ''[]'', ''a''], [''path'', ''[]'', ''f''], [''n'']]" by code_simp
  ultimately show ?thesis using leaf_paths_unambiguous by blast
qed

end
