(* ===== verification/Presentation.thy ===== *)
theory Presentation
  imports Call_Decoding
begin

text \<open>
  The presentation binding of \<open>lucent/preflight.py\<close>: the roles of a known call's inputs,
  the closed set of intents it may show, and the proof that the visible fields cover the
  signed values. Every finding is critical; its fixed prose (\<open>issue\<close>) is left out. The
  function has passed \<open>_validate_selected_function\<close> and the format
  \<open>validate_descriptor\<close>, so the names and labels the code indexes are present.
\<close>

section \<open>Roles\<close>

datatype role = Recipient | Amount | Spender | Operator | Approved | TokenId | Sender | Contract | NativeValue

fun role_labels :: "role \<Rightarrow> pystr list" where
  "role_labels Recipient = [''to'', ''recipient'', ''destination'', ''receiver'']"
| "role_labels Amount = [''amount'', ''value'', ''quantity'']"
| "role_labels Spender = [''spender'']"
| "role_labels Operator = [''operator'']"
| "role_labels Approved = [''approved'', ''approval'', ''enabled'']"
| "role_labels TokenId = [''token id'', ''tokenid'', ''id'']"
| "role_labels Sender = [''from'', ''sender'']"
| "role_labels Contract = [''to'', ''contract'', ''destination'']"
| "role_labels NativeValue = [''amount'', ''value'', ''eth amount'', ''native value'']"

definition label_matches_role :: "role \<Rightarrow> pystr \<Rightarrow> bool" where
  "label_matches_role r label \<longleftrightarrow>
     py_join '' '' (py_words (py_replace_char CHR 0x5F '' '' (py_lower label))) \<in> set (role_labels r)"

definition candidates :: "abi_function \<Rightarrow> pystr \<Rightarrow> abi_input list" where
  "candidates fn pre = filter (\<lambda>i. py_startswith (ai_type i) pre) (fn_inputs fn)"

definition choose_input :: "abi_input list \<Rightarrow> pystr list \<Rightarrow> abi_input option" where
  "choose_input items hints =
     (case find (\<lambda>i. list_ex (\<lambda>h. py_in h (py_strip_char CHR 0x5F (py_lower (input_name i)))) hints) items of
        Some i \<Rightarrow> Some i
      | None \<Rightarrow> (case items of [] \<Rightarrow> None | i # _ \<Rightarrow> Some i))"

definition assign :: "abi_input option \<Rightarrow> role \<Rightarrow> (pystr, role) odict \<Rightarrow> (pystr, role) odict" where
  "assign i r roles = (case i of None \<Rightarrow> roles | Some i \<Rightarrow> AList.update (input_name i) r roles)"

definition is_nft_id :: "abi_input option \<Rightarrow> bool" where
  "is_nft_id i = (case i of None \<Rightarrow> False
     | Some i \<Rightarrow> py_in ''tokenid'' (py_replace_char CHR 0x5F [] (py_lower (input_name i))))"

definition expected_roles :: "abi_function \<Rightarrow> (pystr, role) odict" where
  "expected_roles fn =
     (let name = py_lower (fn_name fn);
          r1 = (if py_in ''transfer'' name \<or> name \<in> {''send'', ''withdraw''} \<or> is_payable fn
                then assign (choose_input (candidates fn ''uint'') [''amount'', ''value'', ''quantity'', ''qty'']) Amount
                       (assign (choose_input (candidates fn ''address'')
                          [''to'', ''recipient'', ''receiver'', ''destination'', ''dst'']) Recipient [])
                else [])
      in if name = ''setapprovalforall''
         then assign (choose_input (candidates fn ''bool'') [''approved'', ''enabled'', ''allow'']) Approved
                (assign (choose_input (candidates fn ''address'') [''operator'', ''spender'']) Operator r1)
         else if name = ''approve''
         then
           let address = choose_input (candidates fn ''address'') [''spender'', ''to'', ''operator''];
               numeric = choose_input (candidates fn ''uint'') [''amount'', ''allowance'', ''tokenid'', ''token_id''];
               nft = is_nft_id numeric
           in assign numeric (if nft then TokenId else Amount)
                (assign address (if nft then Recipient else Spender) r1)
         else r1)"

section \<open>Intents\<close>

definition normalize_ui_text :: "pystr \<Rightarrow> pystr" where
  "normalize_ui_text s = py_join '' '' (py_words (py_lower (py_strip s)))"

text \<open>\<open>by_role\<close>: for two inputs with one role, the later wins.\<close>

definition by_role :: "(pystr, role) odict \<Rightarrow> role \<Rightarrow> pystr option" where
  "by_role roles r = map_option fst (find (\<lambda>nr. snd nr = r) (rev roles))"

definition braces :: "pystr \<Rightarrow> pystr" where
  "braces n = ''{'' @ n @ ''}''"

definition value_of :: "decoded_arg list \<Rightarrow> pystr \<Rightarrow> pyval" where
  "value_of decoded n =
     (case find (\<lambda>a. da_name a = n) (rev decoded) of None \<Rightarrow> PNone | Some a \<Rightarrow> da_value a)"

text \<open>The sets for a grant and for its revocation; unknown values allow both.\<close>

definition by_revocation :: "bool option \<Rightarrow> 'a list \<Rightarrow> 'a list \<Rightarrow> 'a list" where
  "by_revocation rv grant revoke =
     (case rv of Some True \<Rightarrow> revoke | Some False \<Rightarrow> grant | None \<Rightarrow> grant @ revoke)"

text \<open>
  The exact intents and interpolations of a known action: \<open>Inl False\<close> when a role is
  missing, \<open>Inl True\<close> for an action that is not classified.
\<close>

definition allowed_texts ::
  "abi_function \<Rightarrow> decoded_arg list option \<Rightarrow> bool + (pystr list \<times> pystr list)" where
  "allowed_texts fn decoded =
     (let name = py_lower (fn_name fn); role = by_role (expected_roles fn) in
      if py_in ''transfer'' name \<or> name = ''send'' then
        (case (role Recipient, role Amount) of
           (Some r, Some a) \<Rightarrow>
             if r = [] \<or> a = [] then Inl False
             else Inr ([''send tokens'', ''transfer tokens''],
                    [''send '' @ braces a @ '' to '' @ braces r, ''transfer '' @ braces a @ '' to '' @ braces r])
         | _ \<Rightarrow> Inl False)
      else if name = ''approve'' then
        (if role TokenId \<noteq> None then
           (case (role Recipient, role TokenId) of
              (Some r, Some t) \<Rightarrow>
                if r = [] \<or> t = [] then Inl False
                else Inr ([''approve nft''], [''approve '' @ braces r @ '' for token '' @ braces t])
            | _ \<Rightarrow> Inl False)
         else
           (case (role Spender, role Amount) of
              (Some s, Some a) \<Rightarrow>
                if s = [] \<or> a = [] then Inl False
                else
                  let rv = map_option (\<lambda>d. value_of d a = PStr ''0'') decoded in
                  Inr (by_revocation rv [''approve token spending'', ''set allowance'']
                         [''revoke token spending'', ''revoke allowance''],
                       by_revocation rv
                         [''approve '' @ braces s @ '' to spend '' @ braces a,
                          ''set '' @ braces s @ '' allowance to '' @ braces a]
                         [''revoke '' @ braces s @ '' allowance'', ''revoke '' @ braces s @ '' token allowance''])
            | _ \<Rightarrow> Inl False))
      else if name = ''setapprovalforall'' then
        (case (role Operator, role Approved) of
           (Some opr, Some a) \<Rightarrow>
             if opr = [] \<or> a = [] then Inl False
             else
               let rv = map_option (\<lambda>d. value_of d a = PBool False) decoded in
               Inr (by_revocation rv [''set operator'', ''approve operator''] [''revoke operator''],
                    by_revocation rv
                      [''approve '' @ braces opr @ '' as operator'', ''set '' @ braces opr @ '' as operator'']
                      [''revoke '' @ braces opr @ '' as operator''])
         | _ \<Rightarrow> Inl False)
      else Inl True)"

definition intent_matches :: "abi_function \<Rightarrow> fmt \<Rightarrow> decoded_arg list option \<Rightarrow> bool" where
  "intent_matches fn fm decoded =
     (case allowed_texts fn decoded of
        Inl b \<Rightarrow> b
      | Inr (intents, interpolations) \<Rightarrow>
          (case fm_intent fm of None \<Rightarrow> False | Some t \<Rightarrow> normalize_ui_text t \<in> set intents)
          \<and> (case fm_interpolated fm of None \<Rightarrow> True | Some t \<Rightarrow> normalize_ui_text t \<in> set interpolations))"

section \<open>The binding\<close>

record binding_finding =
  bf_code :: pystr
  bf_path :: "pystr option"
  bf_argument :: "pystr option"
  bf_abi_type :: "pystr option"
  bf_format :: "pystr option"

definition plain_finding :: "pystr \<Rightarrow> binding_finding" where
  "plain_finding cd = \<lparr>bf_code = cd, bf_path = None, bf_argument = None, bf_abi_type = None, bf_format = None\<rparr>"

text \<open>What one field adds: findings, a visible path, a visible native-value field.\<close>

record field_effect =
  fe_findings :: "binding_finding list"
  fe_path :: "pystr list option"
  fe_value :: "field option"

definition only_findings :: "binding_finding list \<Rightarrow> field_effect" where
  "only_findings fs = \<lparr>fe_findings = fs, fe_path = None, fe_value = None\<rparr>"

definition field_label :: "field \<Rightarrow> pystr" where
  "field_label f = (case fd_label f of None \<Rightarrow> [] | Some l \<Rightarrow> l)"

definition role_label_check :: "field \<Rightarrow> role \<Rightarrow> binding_finding list" where
  "role_label_check f r =
     (if shown f \<and> \<not> label_matches_role r (field_label f) then [plain_finding ''ROLE_LABEL_MISMATCH''] else [])"

definition has_params :: "field \<Rightarrow> bool" where
  "has_params f \<longleftrightarrow> (case fd_params f of None \<Rightarrow> False | Some p \<Rightarrow> p \<noteq> [])"

definition input_by_name :: "abi_function \<Rightarrow> pystr \<Rightarrow> abi_input option" where
  "input_by_name fn n = find (\<lambda>i. n \<noteq> [] \<and> ai_name i = Some n) (rev (fn_inputs fn))"

text \<open>A field whose path lies in the call's arguments and resolves to \<open>target\<close>.\<close>

definition bind_argument ::
  "(pystr, role) odict \<Rightarrow> field \<Rightarrow> pystr list \<Rightarrow> abi_input \<Rightarrow> field_effect" where
  "bind_argument roles f segs target =
     (let arg = Some (py_join ''.'' segs); t = ai_type target;
          unsupported = (plain_finding ''FORMAT_ASSURANCE_UNSUPPORTED'')\<lparr>bf_argument := arg, bf_format := fd_format f\<rparr>
      in
        if shown f \<and> \<not> format_matches_abi t (fd_format f)
        then only_findings [(plain_finding ''FIELD_FORMAT_MISMATCH'')
               \<lparr>bf_path := fd_path f, bf_abi_type := Some t, bf_format := fd_format f\<rparr>]
        else if shown f \<and> t = ''address'' \<and> fd_format f \<noteq> Some ''addressName''
        then only_findings [(plain_finding ''RAW_ADDRESS_PRESENTATION'')\<lparr>bf_argument := arg\<rparr>]
        else if shown f \<and> fd_format f \<in> Some ` set UNVERIFIED_FIELD_FORMATS then only_findings [unsupported]
        else if shown f \<and> has_params f then only_findings [unsupported]
        else if shown f \<and> length segs = 1
          \<and> (case map_of roles (hd segs) of None \<Rightarrow> False | Some r \<Rightarrow> \<not> label_matches_role r (field_label f))
        then only_findings [(plain_finding ''ROLE_LABEL_MISMATCH'')\<lparr>bf_argument := arg\<rparr>]
        else (only_findings [])\<lparr>fe_path := (if shown f then Some segs else None)\<rparr>)"

definition bind_field :: "abi_function \<Rightarrow> field \<Rightarrow> field_effect" where
  "bind_field fn f =
     (let mismatch = (plain_finding ''FIELD_FORMAT_MISMATCH'')\<lparr>bf_format := fd_format f\<rparr> in
      if fd_path f \<in> {Some ''@.from'', Some ''@.to''} then
        only_findings
          ((if shown f \<and> fd_format f \<noteq> Some ''addressName''
            then [mismatch\<lparr>bf_abi_type := Some ''address''\<rparr>] else [])
           @ role_label_check f (if fd_path f = Some ''@.from'' then Sender else Contract))
      else if fd_path f = Some ''@.value'' then
        (if shown f \<and> fd_format f \<noteq> Some ''amount''
         then only_findings [mismatch\<lparr>bf_path := fd_path f, bf_abi_type := Some ''uint256''\<rparr>]
         else if shown f then (only_findings (role_label_check f NativeValue))\<lparr>fe_value := Some f\<rparr>
         else only_findings [])
      else if (case fd_path f of None \<Rightarrow> True | Some p \<Rightarrow> \<not> py_startswith p ''#.'')
      then only_findings [(plain_finding ''UNSUPPORTED_FIELD_PATH'')\<lparr>bf_path := fd_path f\<rparr>]
      else
        let segs = py_split CHR ''.'' (drop 2 (path_of f)); root = hd segs;
            target = (case input_by_name fn root of None \<Rightarrow> None | Some i \<Rightarrow> path_target i (tl segs))
        in case target of
             None \<Rightarrow> only_findings [(plain_finding ''FIELD_PATH_UNRESOLVED'')\<lparr>bf_path := fd_path f\<rparr>]
           | Some t \<Rightarrow> bind_argument (expected_roles fn) f segs t)"

definition path_findings :: "pystr list list \<Rightarrow> pystr list \<Rightarrow> binding_finding list" where
  "path_findings visible p =
     (if p \<in> set visible then
        (if length p = 1 then []
         else [(plain_finding (if ''[]'' \<in> set p then ''COLLECTION_NOT_EXPANDED'' else ''STRUCTURED_VALUE_UNSUPPORTED''))
                 \<lparr>bf_argument := Some (py_join ''.'' p)\<rparr>])
      else [(plain_finding ''ARGUMENT_NOT_VISIBLE'')\<lparr>bf_argument := Some (py_join ''.'' p)\<rparr>])"

definition input_findings :: "pystr list list \<Rightarrow> abi_input \<Rightarrow> binding_finding list" where
  "input_findings visible i =
     (if input_name i \<noteq> [] then concat (map (path_findings visible) (abi_leaf_paths i [input_name i]))
      else [plain_finding ''ARGUMENT_NOT_VISIBLE''])"

text \<open>The stack loop over a decoded value: the last item of a list is handled first.\<close>

fun opaque_codes :: "pyval \<Rightarrow> pystr list" where
  "opaque_codes (PList xs) = concat (rev (map opaque_codes xs))"
| "opaque_codes (PDict d) = (if dget d ''truncated'' = PBool True then [''OPAQUE_VALUE_TRUNCATED''] else [])"
| "opaque_codes (PStr s) = (if 256 < length s then [''OPAQUE_VALUE_TOO_LONG''] else [])"
| "opaque_codes _ = []"

definition opaque_findings :: "decoded_arg list \<Rightarrow> binding_finding list" where
  "opaque_findings decoded =
     concat (map (\<lambda>a. map (\<lambda>cd. (plain_finding cd)\<lparr>bf_argument := Some (da_name a)\<rparr>) (opaque_codes (da_value a))) decoded)"

record binding =
  pb_complete :: bool
  pb_findings :: "binding_finding list"

definition presentation_binding ::
  "abi_function \<Rightarrow> fmt option \<Rightarrow> int \<Rightarrow> decoded_arg list option \<Rightarrow> binding" where
  "presentation_binding fn fm value decoded =
     (case fm of
        None \<Rightarrow> \<lparr>pb_complete = False, pb_findings = []\<rparr>
      | Some fm \<Rightarrow>
          let effects = map (bind_field fn) (fm_fields fm);
              visible = List.map_filter fe_path effects;
              value_fields = List.map_filter fe_value effects;
              findings =
                (if intent_matches fn fm decoded then [] else [plain_finding ''INTENT_ACTION_MISMATCH''])
                @ concat (map fe_findings effects)
                @ concat (map (input_findings visible) (fn_inputs fn))
                @ (if 0 < value \<and> \<not> list_ex (\<lambda>f. fd_visible f = Some ''always'' \<and> fd_format f = Some ''amount'') value_fields
                   then [(plain_finding ''VALUE_NOT_VISIBLE'')\<lparr>bf_path := Some ''@.value''\<rparr>] else [])
                @ (case decoded of None \<Rightarrow> [] | Some d \<Rightarrow> opaque_findings d)
          in \<lparr>pb_complete = (findings = []), pb_findings = findings\<rparr>)"

end
