(* ===== verification/Presentation_Facts.thy ===== *)
theory Presentation_Facts
  imports Presentation
begin

text \<open>
  What a complete presentation binding proves: each field that binds an argument, the
  cover of the signed values by fields, and the opaque values it rules out.
\<close>

section \<open>Splitting a path\<close>

lemma py_split_acc_not_Nil [simp]: "py_split_acc x acc s \<noteq> []"
  by (induction s arbitrary: acc) auto

lemma py_split_acc_single: "py_split_acc x acc s = [n] \<Longrightarrow> n = rev acc @ s \<and> x \<notin> set s"
proof (induction s arbitrary: acc)
  case (Cons c s)
  then show ?case using Cons.IH [of "c # acc"] by (simp split: if_splits)
qed simp

lemma py_split_single: "py_split x s = [n] \<Longrightarrow> n = s"
  using py_split_acc_single [of x "[]" s n] by (simp add: py_split_def)

lemma find_SomeD: "find P xs = Some x \<Longrightarrow> x \<in> set xs \<and> P x"
  by (induction xs) (auto split: if_splits)

section \<open>One field\<close>

lemmas finding_defs = only_findings_def plain_finding_def

text \<open>What a field of a signed argument's screen has to be.\<close>

definition binds_argument :: "abi_function \<Rightarrow> abi_input \<Rightarrow> field \<Rightarrow> bool" where
  "binds_argument fn i f \<longleftrightarrow> shown f \<and> fd_path f = Some (''#.'' @ input_name i)
     \<and> format_matches_abi (ai_type i) (fd_format f)
     \<and> (ai_type i = ''address'' \<longrightarrow> fd_format f = Some ''addressName'')
     \<and> fd_format f \<notin> Some ` set UNVERIFIED_FIELD_FORMATS \<and> \<not> has_params f
     \<and> (\<forall>r. map_of (expected_roles fn) (input_name i) = Some r \<longrightarrow> label_matches_role r (field_label f))"

lemma bind_argument_path:
  assumes "fe_path (bind_argument roles f segs t) = Some p"
  shows "p = segs \<and> shown f \<and> format_matches_abi (ai_type t) (fd_format f)
    \<and> (ai_type t = ''address'' \<longrightarrow> fd_format f = Some ''addressName'')
    \<and> fd_format f \<notin> Some ` set UNVERIFIED_FIELD_FORMATS \<and> \<not> has_params f
    \<and> (length segs = 1 \<longrightarrow> (\<forall>r. map_of roles (hd segs) = Some r \<longrightarrow> label_matches_role r (field_label f)))"
  using assms
  by (simp add: bind_argument_def Let_def only_findings_def split: if_splits option.splits)

lemma bind_argument_value [simp]: "fe_value (bind_argument roles f segs t) = None"
  by (simp add: bind_argument_def Let_def only_findings_def)

lemma only_findings_simps [simp]:
  "fe_findings (only_findings fs) = fs" "fe_path (only_findings fs) = None"
  "fe_value (only_findings fs) = None"
  by (simp_all add: only_findings_def)

lemma bind_field_path:
  assumes "fe_path (bind_field fn f) = Some p"
  shows "\<exists>q i t. fd_path f = Some (''#.'' @ q) \<and> p = py_split CHR ''.'' q
    \<and> input_by_name fn (hd p) = Some i \<and> path_target i (tl p) = Some t
    \<and> fe_path (bind_argument (expected_roles fn) f p t) = Some p"
proof -
  have "\<exists>q. fd_path f = Some (''#.'' @ q)"
    using assms by (auto simp: bind_field_def Let_def py_startswith_def prefix_def
        split: if_splits option.splits)
  then obtain q where q: "fd_path f = Some (''#.'' @ q)" by blast
  let ?segs = "py_split CHR ''.'' q"
  have e: "bind_field fn f =
      (case (case input_by_name fn (hd ?segs) of None \<Rightarrow> None | Some i \<Rightarrow> path_target i (tl ?segs)) of
         None \<Rightarrow> only_findings [(plain_finding ''FIELD_PATH_UNRESOLVED'')\<lparr>bf_path := fd_path f\<rparr>]
       | Some t \<Rightarrow> bind_argument (expected_roles fn) f ?segs t)"
    by (simp add: bind_field_def Let_def q py_startswith_def path_of_def cong: option.case_cong)
  then obtain i t where it: "input_by_name fn (hd ?segs) = Some i" "path_target i (tl ?segs) = Some t"
    and b: "fe_path (bind_argument (expected_roles fn) f ?segs t) = Some p"
    using assms by (auto split: option.splits)
  from bind_argument_path [OF b] have "p = ?segs" by simp
  with q it b show ?thesis by blast
qed

lemma bind_field_value:
  assumes "fe_value (bind_field fn f) = Some g"
  shows "g = f \<and> shown f \<and> fd_path f = Some ''@.value'' \<and> fd_format f = Some ''amount''
    \<and> fe_findings (bind_field fn f) = role_label_check f NativeValue"
proof -
  have "fd_path f = Some ''@.value''"
    using assms by (auto simp: bind_field_def Let_def split: if_splits option.splits)
  then show ?thesis
    using assms by (auto simp: bind_field_def Let_def split: if_splits)
qed

section \<open>The cover of the inputs\<close>

lemma leaf_paths_nonempty: "abi_leaf_paths i pre \<noteq> []"
proof (induction i pre rule: abi_leaf_paths.induct)
  case (1 nm t comps pre)
  show ?case
  proof (cases "array_element t")
    case (Some u)
    then show ?thesis using "1.IH"(2) [OF Some] by (subst abi_leaf_paths.simps) simp
  next
    case None
    show ?thesis
    proof (cases "py_startswith t ''tuple'' \<and> comps \<noteq> []")
      case True
      then obtain c cs where "comps = c # cs" by (auto simp: neq_Nil_conv)
      then have in_zip: "(0, c) \<in> set (zip [0..<length comps] comps)"
        by (simp add: upt_rec)
      then show ?thesis
        using "1.IH"(1) [OF None _ _ in_zip refl] True None by (subst abi_leaf_paths.simps) force
    next
      case False
      then show ?thesis using None by (subst abi_leaf_paths.simps) auto
    qed
  qed
qed

lemma leaf_paths_length: "p \<in> set (abi_leaf_paths i pre) \<Longrightarrow> length pre \<le> length p"
proof (induction i pre rule: abi_leaf_paths.induct)
  case (1 nm t comps pre)
  show ?case
  proof (cases "array_element t")
    case (Some u)
    then show ?thesis using "1.IH"(2) [OF Some] "1.prems" by (subst (asm) abi_leaf_paths.simps) simp
  next
    case None
    then show ?thesis using "1.IH"(1) [OF None] "1.prems"
      by (subst (asm) abi_leaf_paths.simps) (fastforce split: if_splits)
  qed
qed

text \<open>An input whose only leaf path is its own name is itself a leaf.\<close>

lemma short_leaf_paths:
  assumes "\<forall>p\<in>set (abi_leaf_paths i pre). length p = length pre"
  shows "is_leaf i \<and> abi_leaf_paths i pre = [pre]"
proof (cases i)
  case (AbiInput nm t comps)
  obtain p where p: "p \<in> set (abi_leaf_paths i pre)"
    using leaf_paths_nonempty [of i pre] by (cases "abi_leaf_paths i pre") auto
  have no_array: "array_element t = None"
  proof (rule ccontr)
    assume "array_element t \<noteq> None"
    then obtain u where "array_element t = Some u" by blast
    with p leaf_paths_length [of p "AbiInput nm u comps" "pre @ [''[]'']"] assms show False
      by (auto simp: AbiInput abi_leaf_paths.simps [of nm t])
  qed
  have no_tuple: "\<not> (py_startswith t ''tuple'' \<and> comps \<noteq> [])"
  proof
    assume tup: "py_startswith t ''tuple'' \<and> comps \<noteq> []"
    then obtain j c where "p \<in> set (abi_leaf_paths c (pre @ [component_name j c]))"
      using p no_array by (auto simp: AbiInput abi_leaf_paths.simps [of nm t])
    with leaf_paths_length [of p c "pre @ [component_name j c]"] p assms show False by auto
  qed
  show ?thesis using no_array no_tuple
    by (auto simp: AbiInput is_leaf_def abi_leaf_paths.simps [of nm t])
qed

lemma path_findings_Nil: "path_findings visible p = [] \<longleftrightarrow> p \<in> set visible \<and> length p = 1"
  by (simp add: path_findings_def)

lemma input_findings_Nil:
  assumes "input_findings visible i = []"
  shows "input_name i \<noteq> [] \<and> is_leaf i \<and> [input_name i] \<in> set visible"
proof -
  have n: "input_name i \<noteq> []"
    and all: "\<forall>p\<in>set (abi_leaf_paths i [input_name i]). p \<in> set visible \<and> length p = 1"
    using assms by (auto simp: input_findings_def path_findings_Nil split: if_splits)
  from short_leaf_paths [of i "[input_name i]"] all
  have "is_leaf i" "abi_leaf_paths i [input_name i] = [[input_name i]]" by auto
  with n all show ?thesis by simp
qed

lemma input_by_name_distinct:
  assumes "distinct (map ai_name (fn_inputs fn))" "i \<in> set (fn_inputs fn)" "input_name i \<noteq> []"
    and "input_by_name fn (input_name i) = Some j"
  shows "j = i"
proof -
  from assms(4) have j: "j \<in> set (fn_inputs fn)" "ai_name j = Some (input_name i)"
    unfolding input_by_name_def by (auto dest: find_SomeD)
  moreover have "ai_name i = Some (input_name i)"
    using assms(3) by (cases "ai_name i") (auto simp: input_name_def)
  ultimately show ?thesis using assms(1,2) by (metis distinct_map inj_onD)
qed

section \<open>Opaque values\<close>

text \<open>A decoded value every part of which the rendering shows in full, within the limit.\<close>

fun whole :: "(pyval \<Rightarrow> pystr) \<Rightarrow> pyval \<Rightarrow> bool" where
  "whole str_of (PBytes b) \<longleftrightarrow> length b \<le> 64"
| "whole str_of (PStr s) \<longleftrightarrow> length s \<le> 256"
| "whole str_of (PInt i) \<longleftrightarrow> length (int_str i) \<le> 256"
| "whole str_of (PList xs) \<longleftrightarrow> list_all (whole str_of) xs"
| "whole str_of (PTuple xs) \<longleftrightarrow> list_all (whole str_of) xs"
| "whole str_of (PBool b) \<longleftrightarrow> True"
| "whole str_of PNone \<longleftrightarrow> True"
| "whole str_of v \<longleftrightarrow> length (str_of v) \<le> 256"

lemma opaque_codes_json_safe:
  "opaque_codes (json_safe sha256 str_of v) = [] \<longleftrightarrow> whole str_of v"
proof (induction sha256 str_of v rule: json_safe.induct)
  case (1 sha256 str_of b)
  show ?case
  proof (cases "length b \<le> 64")
    case True
    then show ?thesis by (simp add: MAX_BYTES_PREVIEW_def)
  next
    case False
    have "opaque_codes (json_safe sha256 str_of (PBytes b)) = [''OPAQUE_VALUE_TRUNCATED'']"
      using False by (simp add: MAX_BYTES_PREVIEW_def)
    then show ?thesis using False by simp
  qed
qed (auto simp: list_all_iff)

lemma opaque_findings_Nil:
  "opaque_findings args = [] \<longleftrightarrow> (\<forall>a\<in>set args. opaque_codes (da_value a) = [])"
  by (simp add: opaque_findings_def)

section \<open>The whole binding\<close>

lemma binding_complete_parts:
  assumes "pb_complete (presentation_binding fn (Some fm) value decoded)"
  shows "intent_matches fn fm decoded
    \<and> (\<forall>f\<in>set (fm_fields fm). fe_findings (bind_field fn f) = [])
    \<and> (\<forall>i\<in>set (fn_inputs fn).
         input_findings (List.map_filter fe_path (map (bind_field fn) (fm_fields fm))) i = [])
    \<and> (0 < value \<longrightarrow> (\<exists>f\<in>set (List.map_filter fe_value (map (bind_field fn) (fm_fields fm))).
         fd_visible f = Some ''always'' \<and> fd_format f = Some ''amount''))
    \<and> (case decoded of None \<Rightarrow> True | Some d \<Rightarrow> opaque_findings d = [])"
  using assms
  by (simp add: presentation_binding_def Let_def list_ex_iff split: if_splits option.splits)

lemma map_filter_mem: "y \<in> set (List.map_filter g (map h xs)) \<Longrightarrow> \<exists>x\<in>set xs. g (h x) = Some y"
  by (induction xs) (auto simp: map_filter_simps split: option.splits)

lemma visible_binds:
  assumes "distinct (map ai_name (fn_inputs fn))" "i \<in> set (fn_inputs fn)" "input_name i \<noteq> []"
    and "[input_name i] \<in> set (List.map_filter fe_path (map (bind_field fn) (fm_fields fm)))"
  shows "\<exists>f\<in>set (fm_fields fm). binds_argument fn i f"
proof -
  from map_filter_mem [OF assms(4)] obtain f where f: "f \<in> set (fm_fields fm)"
    and p: "fe_path (bind_field fn f) = Some [input_name i]" by blast
  from bind_field_path [OF p] obtain q j t where q: "fd_path f = Some (''#.'' @ q)"
    and n: "py_split CHR ''.'' q = [input_name i]"
    and j: "input_by_name fn (input_name i) = Some j" and t: "j = t"
    and b: "fe_path (bind_argument (expected_roles fn) f [input_name i] t) = Some [input_name i]"
    by auto
  have "j = i" by (rule input_by_name_distinct [OF assms(1-3) j])
  with bind_argument_path [OF b] t q py_split_single [OF n] f show ?thesis
    by (intro bexI [of _ f]) (simp_all add: binds_argument_def)
qed

lemma binding_fields:
  assumes "pb_complete (presentation_binding fn (Some fm) value decoded)"
    and "validate_selected_function fn = Inr ()"
  shows "(\<forall>i\<in>set (fn_inputs fn). is_leaf i \<and> (\<exists>f\<in>set (fm_fields fm). binds_argument fn i f))
    \<and> (0 < value \<longrightarrow> (\<exists>f\<in>set (fm_fields fm). fd_path f = Some ''@.value'' \<and> fd_visible f = Some ''always''
         \<and> fd_format f = Some ''amount'' \<and> label_matches_role NativeValue (field_label f)))"
proof -
  note parts = binding_complete_parts [OF assms(1)]
  have dist: "distinct (map ai_name (fn_inputs fn))"
    using validate_selected_function_ok [OF assms(2)] by simp
  have inputs: "is_leaf i \<and> (\<exists>f\<in>set (fm_fields fm). binds_argument fn i f)" if i: "i \<in> set (fn_inputs fn)" for i
    using parts i input_findings_Nil visible_binds [OF dist i] by blast
  have native: "\<exists>f\<in>set (fm_fields fm). fd_path f = Some ''@.value'' \<and> fd_visible f = Some ''always''
         \<and> fd_format f = Some ''amount'' \<and> label_matches_role NativeValue (field_label f)" if "0 < value"
  proof -
    from parts that obtain f where "f \<in> set (List.map_filter fe_value (map (bind_field fn) (fm_fields fm)))"
      and f: "fd_visible f = Some ''always''" "fd_format f = Some ''amount''" by blast
    from map_filter_mem [OF this(1)] obtain g where g: "g \<in> set (fm_fields fm)"
      and v: "fe_value (bind_field fn g) = Some f" by blast
    have "fe_findings (bind_field fn g) = []" using parts g by blast
    with bind_field_value [OF v] f g show ?thesis
      by (intro bexI [of _ g]) (auto simp: role_label_check_def split: if_splits)
  qed
  from inputs native show ?thesis by blast
qed

lemma binding_sound:
  assumes "pb_complete (presentation_binding fn (Some fm) value (Some args))"
    and "validate_selected_function fn = Inr ()"
    and "map da_value args = map (json_safe sha256 str_of) vals"
  shows "(\<forall>i\<in>set (fn_inputs fn). is_leaf i \<and> (\<exists>f\<in>set (fm_fields fm). binds_argument fn i f))
    \<and> (0 < value \<longrightarrow> (\<exists>f\<in>set (fm_fields fm). fd_path f = Some ''@.value'' \<and> fd_visible f = Some ''always''
         \<and> fd_format f = Some ''amount'' \<and> label_matches_role NativeValue (field_label f)))
    \<and> intent_matches fn fm (Some args) \<and> list_all (whole str_of) vals"
proof -
  note parts = binding_complete_parts [OF assms(1)]
  have "\<forall>v\<in>set (map da_value args). opaque_codes v = []"
    using parts by (auto simp: opaque_findings_Nil)
  then have "list_all (whole str_of) vals"
    by (simp add: assms(3) opaque_codes_json_safe list_all_iff)
  with binding_fields [OF assms(1,2)] parts show ?thesis by blast
qed

text \<open>
  C2: A complete binding means what it says. Every input of the selected function is a
  scalar leaf, and an always-visible field with exactly its path shows it: in a format
  that fits its ABI type and needs no outside resolution or parameters, as
  \<open>addressName\<close> for an address, under a label of its transaction role where it has one.
  A non-zero native value has a field that is always visible as an amount under a
  native-value label. The intent is one of the closed set for a known action and these
  arguments, and every decoded value is shown whole: bytes up to 64, text up to 256.
\<close>

theorem binding_complete:
  assumes "pb_complete (presentation_binding fn (Some fm) value (Some args))"
    and "validate_selected_function fn = Inr ()"
    and "map da_value args = map (json_safe sha256 str_of) vals"
  shows "(\<forall>i\<in>set (fn_inputs fn). is_leaf i \<and> (\<exists>f\<in>set (fm_fields fm). binds_argument fn i f))
    \<and> (0 < value \<longrightarrow> (\<exists>f\<in>set (fm_fields fm). fd_path f = Some ''@.value'' \<and> fd_visible f = Some ''always''
         \<and> fd_format f = Some ''amount'' \<and> label_matches_role NativeValue (field_label f)))
    \<and> intent_matches fn fm (Some args) \<and> list_all (whole str_of) vals"
  by (rule binding_sound [OF assms])

definition toy_transfer_format :: fmt where
  "toy_transfer_format = \<lparr>fm_fields =
     [\<lparr>fd_path = Some ''#.to'', fd_label = Some ''To'', fd_format = Some ''addressName'',
        fd_visible = None, fd_params = None\<rparr>,
      \<lparr>fd_path = Some ''#.amount'', fd_label = Some ''Amount'', fd_format = Some ''raw'',
        fd_visible = Some ''always'', fd_params = None\<rparr>],
     fm_intent = Some ''Send tokens'', fm_interpolated = Some ''Send {amount} to {to}'', fm_empty = False\<rparr>"

definition toy_transfer_args :: "decoded_arg list" where
  "toy_transfer_args =
     [\<lparr>da_name = ''to'', da_type = ''address'', da_value = PStr ''0x07''\<rparr>,
      \<lparr>da_name = ''amount'', da_type = ''uint256'', da_value = PStr ''5''\<rparr>]"

lemma toy_transfer_binding:
  "presentation_binding toy_transfer (Some toy_transfer_format) 0 (Some toy_transfer_args)
   = \<lparr>pb_complete = True, pb_findings = []\<rparr>"
  by code_simp

theorem binding_complete_witness:
  "\<exists>f\<in>set (fm_fields toy_transfer_format).
     binds_argument toy_transfer (AbiInput (Some ''to'') ''address'' []) f"
proof -
  have "pb_complete (presentation_binding toy_transfer (Some toy_transfer_format) 0 (Some toy_transfer_args))"
    by (simp add: toy_transfer_binding)
  moreover have "validate_selected_function toy_transfer = Inr ()" by code_simp
  moreover have "map da_value toy_transfer_args = map (json_safe id (\<lambda>_. [])) [PStr ''0x07'', PInt 5]"
    by code_simp
  ultimately show ?thesis
    using binding_complete [of toy_transfer toy_transfer_format 0 toy_transfer_args id "\<lambda>_. []" "[PStr ''0x07'', PInt 5]"]
    by (simp add: toy_transfer_def)
qed

section \<open>Interpolated intents\<close>

text \<open>
  \<open>_normalize_ui_text\<close> lower-cases the descriptor's text, but the placeholders it is
  compared with keep the case of the ABI's names.
\<close>

lemma py_words_acc_all:
  "list_all P acc \<Longrightarrow> list_all P s \<Longrightarrow> w \<in> set (py_words_acc acc s) \<Longrightarrow> list_all P w"
  by (induction acc s rule: py_words_acc.induct) (auto simp: list_all_iff split: if_splits)

lemma py_join_all: "list_all P sep \<Longrightarrow> list_all (list_all P) xs \<Longrightarrow> list_all P (py_join sep xs)"
  by (induction sep xs rule: py_join.induct) auto

lemma py_lower_fixed: "list_all (\<lambda>c. lower_char c = c) s \<longleftrightarrow> py_lower s = s"
  by (induction s) auto

lemma normalize_ui_text_lower: "py_lower (normalize_ui_text s) = normalize_ui_text s"
proof -
  have "list_all (\<lambda>c. lower_char c = c) (py_lower (py_strip s))" by (simp add: py_lower_fixed)
  then have "list_all (list_all (\<lambda>c. lower_char c = c)) (py_words (py_lower (py_strip s)))"
    using py_words_acc_all [of "\<lambda>c. lower_char c = c" "[]"] by (auto simp: py_words_def list_all_iff)
  moreover have "list_all (\<lambda>c. lower_char c = c) '' ''" by code_simp
  ultimately show ?thesis
    unfolding normalize_ui_text_def py_lower_fixed [symmetric] by (intro py_join_all)
qed

lemma interpolation_needs_lower_case:
  assumes "allowed_texts fn decoded = Inr (intents, texts)" "fm_interpolated fm = Some t"
    and "list_all (\<lambda>p. py_lower p \<noteq> p) texts"
  shows "\<not> intent_matches fn fm decoded"
  using assms normalize_ui_text_lower [of t] by (auto simp: intent_matches_def list_all_iff)

definition nft_approve :: abi_function where
  "nft_approve = \<lparr>fn_name = ''approve'', fn_inputs = [AbiInput (Some ''to'') ''address'' [],
     AbiInput (Some ''tokenId'') ''uint256'' []], fn_mutability = Some ''nonpayable'', fn_payable = None\<rparr>"

lemma nft_approve_interpolation_rejected:
  assumes "fm_interpolated fm = Some t"
  shows "\<not> intent_matches nft_approve fm decoded"
proof (rule interpolation_needs_lower_case [OF _ assms])
  show "allowed_texts nft_approve decoded = Inr ([''approve nft''], [''approve {to} for token {tokenId}''])"
    by code_simp
  show "list_all (\<lambda>p. py_lower p \<noteq> p) [''approve {to} for token {tokenId}'']" by code_simp
qed

end
