(* ===== verification/Preflight.thy ===== *)
theory Preflight
  imports Presentation_Facts
begin

text \<open>
  The policy of \<open>lucent/preflight.py\<close>: the gates over the analyses, the refinements that
  depend on the decoded arguments, and the four entry points \<open>preflight_transaction\<close>,
  \<open>check_descriptor\<close>, \<open>explain_signature\<close> and \<open>scan_contract\<close>. Reports keep every
  computed part; the constant parts of a report (\<open>assurance\<close>, \<open>limitations\<close>, version
  tags) and the fixed \<open>reason\<close> prose of a verdict are left out.
\<close>

section \<open>Verdicts\<close>

datatype gate = SafeToPresent | Review | Block

text \<open>\<open>vd_reason\<close>: the comprehension's reason, for the one verdict that repeats it.\<close>

record verdict =
  vd_gate :: gate
  vd_code :: pystr
  vd_reason :: "reason option"

definition verdict_for :: "gate \<Rightarrow> pystr \<Rightarrow> verdict" where
  "verdict_for g cd = \<lparr>vd_gate = g, vd_code = cd, vd_reason = None\<rparr>"

definition severity_present :: "severity list \<Rightarrow> severity list \<Rightarrow> bool" where
  "severity_present found levels = list_ex (\<lambda>s. s \<in> set levels) found"

definition audit_severities :: "audit_report \<Rightarrow> severity list" where
  "audit_severities r = map af_severity (ar_findings r)"

definition overall_verdict :: "audit_report \<Rightarrow> danger_report \<Rightarrow> comprehension_report \<Rightarrow> verdict" where
  "overall_verdict audit_r danger_r comp_r =
     (let a = audit_severities audit_r; d = map df_severity (dr_findings danger_r) in
      if dr_signable danger_r = 0 then verdict_for Block ''NO_SIGNABLE_FUNCTIONS''
      else if severity_present a [CRITICAL] then verdict_for Block ''PRESENTATION_CRITICAL''
      else if severity_present d [CRITICAL] then verdict_for Block ''DANGER_CRITICAL''
      else if severity_present a [HIGH, MEDIUM] then verdict_for Review ''PRESENTATION_REVIEW''
      else if cr_worst comp_r \<in> {CRITICAL, HIGH} then verdict_for Review ''COMPREHENSION_REVIEW''
      else if severity_present d [HIGH, MEDIUM] then verdict_for Review ''DANGER_REVIEW''
      else verdict_for SafeToPresent ''PRESENTATION_CLEAR'')"

definition call_verdict ::
  "audit_report \<Rightarrow> comprehension \<Rightarrow> danger_finding list \<Rightarrow> bool \<Rightarrow> verdict" where
  "call_verdict audit_r compr danger has_format =
     (let a = audit_severities audit_r; d = map df_severity danger in
      if \<not> has_format then verdict_for Block ''MISSING_CLEAR_SIGNING_FORMAT''
      else if severity_present a [CRITICAL] then verdict_for Block ''PRESENTATION_CRITICAL''
      else if severity_present d [CRITICAL] then verdict_for Block ''DANGER_CRITICAL''
      else if cp_tier compr \<in> {CRITICAL, HIGH}
      then \<lparr>vd_gate = Review,
             vd_code = (if cp_unlimited compr then ''UNLIMITED_APPROVAL'' else ''COMPREHENSION_REVIEW''),
             vd_reason = Some (cp_reason compr)\<rparr>
      else if severity_present a [HIGH, MEDIUM] then verdict_for Review ''PRESENTATION_REVIEW''
      else if severity_present d [HIGH, MEDIUM] then verdict_for Review ''DANGER_REVIEW''
      else verdict_for SafeToPresent ''PRESENTATION_CLEAR'')"

definition binding_verdict :: "binding \<Rightarrow> verdict option" where
  "binding_verdict b =
     (if pb_findings b = [] then None else Some (verdict_for Block ''PRESENTATION_UNBOUND''))"

definition accepts_value :: "abi_function \<Rightarrow> bool" where
  "accepts_value fn =
     (case fn_mutability fn of Some m \<Rightarrow> m = ''payable'' | None \<Rightarrow> fn_payable fn = Some True)"

definition value_verdict :: "abi_function \<Rightarrow> int \<Rightarrow> verdict option" where
  "value_verdict fn value =
     (if value = 0 \<or> accepts_value fn then None
      else Some (verdict_for Block ''NONPAYABLE_WITH_VALUE''))"

section \<open>What the arguments change\<close>

definition first_arg :: "(decoded_arg \<Rightarrow> bool) \<Rightarrow> decoded_arg list \<Rightarrow> decoded_arg option" where
  "first_arg P decoded = find P decoded"

definition arg_name_or :: "pystr \<Rightarrow> decoded_arg option \<Rightarrow> pystr" where
  "arg_name_or deflt a = (case a of None \<Rightarrow> deflt | Some a \<Rightarrow> da_name a)"

text \<open>The first boolean is the approval of \<open>setApprovalForAll\<close>; the value \<open>false\<close> revokes.\<close>

definition revokes_operator :: "decoded_arg list \<Rightarrow> bool" where
  "revokes_operator decoded =
     (case first_arg (\<lambda>a. da_type a = ''bool'') decoded of
        None \<Rightarrow> False | Some a \<Rightarrow> da_value a = PBool False)"

definition apply_call_dependent_comprehension ::
  "abi_function \<Rightarrow> decoded_arg list \<Rightarrow> comprehension \<Rightarrow> comprehension" where
  "apply_call_dependent_comprehension fn decoded c =
     (let name = py_lower (fn_name fn);
          address = first_arg (\<lambda>a. da_type a = ''address'') decoded in
      if name = ''setapprovalforall'' then
        (if revokes_operator decoded
         then c\<lparr>cp_tier := LOW, cp_revocation := True, cp_reason := RemovesOperator,
               cp_sentence := RevokeOperator (arg_name_or ''operator'' address)\<rparr>
         else c)
      else if name \<noteq> ''approve'' then c
      else
        (case first_arg (\<lambda>a. py_startswith (da_type a) ''uint'') decoded of
           None \<Rightarrow> c
         | Some amount \<Rightarrow>
             if py_in ''tokenid'' (py_lower (da_name amount)) then c
             else if da_value amount = PStr ''0'' then
               (let spender = (case find (\<lambda>a. py_lower (da_name a) = ''spender'') (rev decoded) of
                                 Some a \<Rightarrow> da_name a | None \<Rightarrow> arg_name_or ''spender'' address)
                in c\<lparr>cp_tier := LOW, cp_revocation := True, cp_reason := ZeroAllowance,
                     cp_sentence := RevokeAllowance spender\<rparr>)
             else if da_value amount \<noteq> PStr (int_str UINT256_MAX) then c
             else c\<lparr>cp_tier := CRITICAL, cp_unlimited := True, cp_reason := MaximumAllowance\<rparr>))"

definition apply_call_dependent_danger ::
  "abi_function \<Rightarrow> decoded_arg list \<Rightarrow> danger_finding list \<Rightarrow> danger_finding list" where
  "apply_call_dependent_danger fn decoded fs =
     (if py_lower (fn_name fn) = ''setapprovalforall'' \<and> revokes_operator decoded
      then filter (\<lambda>f. df_primitive f \<noteq> ''unbounded-delegation'') fs else fs)"

section \<open>One transaction\<close>

text \<open>\<open>_selected_descriptor\<close>: the one function, and its format under its signature.\<close>

definition selected_descriptor ::
  "abi_function \<Rightarrow> pystr \<Rightarrow> fmt option \<Rightarrow> abi_entry list \<times> (pystr \<times> fmt) list" where
  "selected_descriptor fn sig fm =
     ([FunctionEntry fn], case fm of None \<Rightarrow> [] | Some f \<Rightarrow> [(sig, f)])"

record preflight_report =
  pr_fingerprint :: pystr
  pr_chain :: int
  pr_from :: pystr
  pr_to :: pystr
  pr_selector :: pystr
  pr_function :: pystr
  pr_value :: pystr
  pr_decoded :: "decoded_arg list"
  pr_verdict :: verdict
  pr_audit :: audit_report
  pr_comprehension :: comprehension
  pr_binding :: binding
  pr_worst :: "severity option"
  pr_danger :: "danger_finding list"

definition uncaught :: "py_exn + 'a \<Rightarrow> pf_failure + 'a" where
  "uncaught m = (case m of Inl e \<Rightarrow> Inl (Uncaught e) | Inr x \<Rightarrow> Inr x)"

text \<open>\<open>except ValueError\<close>: the exception becomes an input error with its text.\<close>

definition as_input_error :: "pystr \<Rightarrow> py_exn + 'a \<Rightarrow> pf_failure + 'a" where
  "as_input_error cd m = (case m of Inl e \<Rightarrow> input_error cd (py_exn_text e) | Inr x \<Rightarrow> Inr x)"

text \<open>The least key outside the allowed ones is named in the error.\<close>

definition reject_unknown :: "pystr \<Rightarrow> pystr \<Rightarrow> pystr list \<Rightarrow> (pystr \<times> pyval) list \<Rightarrow> pf_failure + unit" where
  "reject_unknown cd msg allowed d =
     (case sort_items (filter (\<lambda>kv. fst kv \<notin> set allowed) d) of
        [] \<Rightarrow> Inr ()
      | kv # _ \<Rightarrow> input_error cd (msg @ fst kv))"

text \<open>The analyses and the verdict of one decoded call.\<close>

definition assess_call ::
  "abi_function \<Rightarrow> pystr \<Rightarrow> fmt option \<Rightarrow> int \<Rightarrow> decoded_arg list \<Rightarrow>
   pf_failure + (audit_report \<times> comprehension \<times> danger_finding list \<times> binding \<times> verdict)" where
  "assess_call fn sig fm value decoded =
     res_bind (uncaught (audit (fst (selected_descriptor fn sig fm)) (snd (selected_descriptor fn sig fm))))
     (\<lambda>audit_r. res_bind (uncaught (classify fn fm))
     (\<lambda>c0.
       let compr = apply_call_dependent_comprehension fn decoded c0;
           danger = sort_findings (apply_call_dependent_danger fn decoded (assess fn));
           bound = presentation_binding fn fm value (Some decoded);
           analyzer = call_verdict audit_r compr danger (fm \<noteq> None);
           verdict =
             (case value_verdict fn value of
                Some v \<Rightarrow> v
              | None \<Rightarrow> if vd_gate analyzer = Block then analyzer
                        else (case binding_verdict bound of Some v \<Rightarrow> v | None \<Rightarrow> analyzer))
       in Inr (audit_r, compr, danger, bound, verdict)))"

definition normalized_request :: "int \<Rightarrow> pystr \<Rightarrow> pystr \<Rightarrow> bytes \<Rightarrow> int \<Rightarrow> pyval \<Rightarrow> pyval" where
  "normalized_request chain sender addr calldata value desc =
     PDict [(''transaction'', PDict
              [(''chain_id'', PInt chain), (''from'', PStr sender), (''to'', PStr addr),
               (''data'', PStr (''0x'' @ bytes_hex calldata)), (''value'', PStr (nat_hex (nat value)))]),
            (''descriptor'', desc)]"

text \<open>The parsed transaction: chain, sender, target, calldata, value.\<close>

definition parse_transaction ::
  "(pystr \<times> pyval) list \<Rightarrow> pf_failure + (int \<times> pystr \<times> pystr \<times> bytes \<times> int)" where
  "parse_transaction tx =
     res_bind (as_input_error ''INVALID_TRANSACTION'' (normalize_chain_id (dget tx ''chain_id'')))
     (\<lambda>chain. res_bind (as_input_error ''INVALID_TRANSACTION'' (normalize_address (dget tx ''from'')))
     (\<lambda>sender. res_bind (as_input_error ''INVALID_TRANSACTION'' (normalize_address (dget tx ''to'')))
     (\<lambda>addr. res_bind (parse_calldata (dget tx ''data''))
     (\<lambda>calldata. res_bind (parse_value (dget_or tx ''value'' (PStr ''0x0'')))
     (\<lambda>value. Inr (chain, sender, addr, calldata, value))))))"

definition has_inline_abi :: "pyval \<Rightarrow> bool" where
  "has_inline_abi desc =
     (case index (index (Some desc) ''context'') ''contract'' of
        Some (PDict c) \<Rightarrow> is_list (dget c ''abi'') | _ \<Rightarrow> False)"

text \<open>The code outside the repository and the host: each component is one function.\<close>

record pf_env =
  env_float_text :: "rat \<Rightarrow> pystr"
  env_encodable :: "pystr \<Rightarrow> bool"
  env_abi_cache :: "int \<Rightarrow> pystr \<Rightarrow> (py_exn + pyval) option"
  env_keccak :: "bytes \<Rightarrow> bytes"
  env_sha256 :: "bytes \<Rightarrow> bytes"
  env_str :: "pyval \<Rightarrow> pystr"
  env_decode :: "pystr list \<Rightarrow> bytes \<Rightarrow> pyval list option"
  env_encode :: "pystr list \<Rightarrow> pyval list \<Rightarrow> bytes"

definition check_request :: "pyval \<Rightarrow> pf_failure + ((pystr \<times> pyval) list \<times> (pystr \<times> pyval) list)" where
  "check_request args =
     (case args of
        PDict d \<Rightarrow>
          res_bind (reject_unknown ''UNKNOWN_REQUEST_FIELD'' ''unsupported request field: ''
                      [''transaction'', ''descriptor''] d)
          (\<lambda>_. case dget d ''transaction'' of
             PDict tx \<Rightarrow>
               res_bind (reject_unknown ''UNKNOWN_TRANSACTION_FIELD'' ''unsupported transaction field: ''
                           [''chain_id'', ''from'', ''to'', ''data'', ''value''] tx)
               (\<lambda>_. Inr (d, tx))
           | _ \<Rightarrow> input_error ''INVALID_TRANSACTION'' ''transaction must be a JSON object'')
      | _ \<Rightarrow> input_error ''INVALID_REQUEST'' ''request must be a JSON object'')"

definition validated_descriptor ::
  "pf_env \<Rightarrow> pyval \<Rightarrow> pf_failure + (abi_entry list \<times> (pystr \<times> fmt) list)" where
  "validated_descriptor env =
     validate_descriptor (env_float_text env) (env_encodable env) (env_abi_cache env)"

definition decode_call ::
  "pf_env \<Rightarrow> abi_entry list \<Rightarrow> bytes \<Rightarrow> pf_failure + (abi_function \<times> pystr \<times> decoded_arg list)" where
  "decode_call env abi calldata =
     res_bind (resolve_call (env_keccak env) abi calldata)
     (\<lambda>(fn, sig). res_bind (validate_selected_function fn)
     (\<lambda>_. res_bind (decode_arguments (env_sha256 env) (env_str env) (env_decode env) (env_encode env) fn calldata)
     (\<lambda>decoded. Inr (fn, sig, decoded))))"

definition preflight_transaction :: "pf_env \<Rightarrow> pyval \<Rightarrow> pf_failure + preflight_report" where
  "preflight_transaction env args =
     res_bind (check_request args)
     (\<lambda>(d, tx). res_bind (parse_transaction tx)
     (\<lambda>(chain, sender, addr, calldata, value).
       let desc = dget d ''descriptor'' in
       res_bind (validated_descriptor env desc)
       (\<lambda>(abi, formats).
         if \<not> has_inline_abi desc
         then input_error ''INLINE_ABI_REQUIRED'' ''v1 transaction preflight requires context.contract.abi inline''
         else if \<not> deployment_matches desc chain addr
         then input_error ''DEPLOYMENT_MISMATCH''
                ''descriptor deployments do not bind to transaction chain_id and to address''
         else
           res_bind (decode_call env abi calldata)
           (\<lambda>(fn, sig, decoded). res_bind (assess_call fn sig (map_of formats sig) value decoded)
           (\<lambda>(audit_r, compr, danger, bound, verdict). res_bind
             (pf_fingerprint (env_sha256 env) (env_float_text env)
                (normalized_request chain sender addr calldata value desc))
           (\<lambda>fingerprint. Inr
             \<lparr>pr_fingerprint = fingerprint, pr_chain = chain, pr_from = sender, pr_to = addr,
              pr_selector = ''0x'' @ bytes_hex (take 4 calldata), pr_function = sig,
              pr_value = nat_hex (nat value), pr_decoded = decoded, pr_verdict = verdict,
              pr_audit = audit_r, pr_comprehension = compr, pr_binding = bound,
              pr_worst = (case danger of [] \<Rightarrow> None | f # _ \<Rightarrow> Some (df_severity f)),
              pr_danger = danger\<rparr>))))))"

section \<open>A whole descriptor\<close>

text \<open>The binding of one function, or the error of its names as a finding.\<close>

definition function_binding ::
  "(pystr \<times> fmt) list \<Rightarrow> abi_function \<Rightarrow> pf_failure + (pystr \<times> binding)" where
  "function_binding formats fn =
     (let potential_value = (if is_payable fn \<or> fn_payable fn = Some True then 1 else 0) in
      case validate_selected_function fn of
        Inr _ \<Rightarrow> Inr (signature fn, presentation_binding fn (map_of formats (signature fn)) potential_value None)
      | Inl (InputError cd msg) \<Rightarrow>
          Inr (signature fn, \<lparr>pb_complete = False, pb_findings = [plain_finding cd]\<rparr>)
      | Inl e \<Rightarrow> Inl e)"

record descriptor_report =
  de_verdict :: verdict
  de_audit :: audit_report
  de_comprehension :: comprehension_report
  de_danger :: danger_report
  de_bindings :: "(pystr \<times> binding) list"

definition check_descriptor :: "pf_env \<Rightarrow> pyval \<Rightarrow> pf_failure + descriptor_report" where
  "check_descriptor env args =
     (case args of
        PDict d \<Rightarrow>
          (case map_of d ''descriptor'' of
             None \<Rightarrow> input_error ''MISSING_DESCRIPTOR'' ''descriptor is required''
           | Some desc \<Rightarrow>
               res_bind (validated_descriptor env desc)
               (\<lambda>(abi, formats). res_bind (uncaught (audit abi formats))
               (\<lambda>audit_r. res_bind (uncaught (comprehend abi formats))
               (\<lambda>comp_r. res_bind (res_map (function_binding formats) (signable_functions abi))
               (\<lambda>bindings.
                 let danger_r = scan_abi abi;
                     verdict = (if list_ex (\<lambda>b. pb_findings (snd b) \<noteq> []) bindings
                                then verdict_for Block ''PRESENTATION_UNBOUND''
                                else overall_verdict audit_r danger_r comp_r)
                 in Inr \<lparr>de_verdict = verdict, de_audit = audit_r, de_comprehension = comp_r,
                         de_danger = danger_r, de_bindings = bindings\<rparr>)))))
      | _ \<Rightarrow> input_error ''MISSING_DESCRIPTOR'' ''descriptor is required'')"

text \<open>\<open>item[key] == value\<close> for a text item.\<close>

definition text_is :: "pyval \<Rightarrow> pystr \<Rightarrow> bool" where
  "text_is v s \<longleftrightarrow> v = PStr s"

datatype explanation =
    Explained function_report
  | Overloaded "pystr list"
  | NotFound "pystr list"

definition explain_signature :: "pf_env \<Rightarrow> pyval \<Rightarrow> pf_failure + explanation" where
  "explain_signature env args =
     (case args of
        PDict d \<Rightarrow>
          res_bind (validated_descriptor env (dget d ''descriptor''))
          (\<lambda>(abi, formats). res_bind (uncaught (comprehend abi formats))
          (\<lambda>comp_r.
            let matches = (if truthy (dget d ''signature'')
                           then filter (\<lambda>r. text_is (dget d ''signature'') (fr_signature r)) (cr_functions comp_r)
                           else filter (\<lambda>r. text_is (dget d ''function'') (fr_function r)) (cr_functions comp_r))
            in case matches of
                 [] \<Rightarrow> Inr (NotFound (map fr_signature (cr_functions comp_r)))
               | [r] \<Rightarrow> Inr (Explained r)
               | _ \<Rightarrow> Inr (Overloaded (map fr_signature matches))))
      | _ \<Rightarrow> input_error ''INVALID_REQUEST'' ''arguments must be a JSON object'')"

section \<open>A contract by address\<close>

text \<open>
  What \<open>_get_json\<close> gives for a Sourcify URL: the parsed body, an HTTP status error, or any
  other exception (network, size, media type, JSON).
\<close>

datatype remote = RemoteJson pyval | RemoteHttp nat | RemoteFails

datatype remote_error = HTTPError nat | OtherError

definition sourcify_abi ::
  "pf_env \<Rightarrow> (int \<Rightarrow> pystr \<Rightarrow> remote) \<Rightarrow> int \<Rightarrow> pystr \<Rightarrow> remote_error + abi_entry list option" where
  "sourcify_abi env remote chain addr =
     (case remote chain addr of
        RemoteJson (PDict d) \<Rightarrow>
          if dget d ''abi'' = PNone then Inr None
          else (case validate_abi (env_float_text env) (env_encodable env) (dget d ''abi'') of
                  Inl e \<Rightarrow> Inl OtherError | Inr abi \<Rightarrow> Inr (Some abi))
      | RemoteJson _ \<Rightarrow> Inl OtherError
      | RemoteHttp cd \<Rightarrow> if cd \<in> {400, 404} then Inr None else Inl (HTTPError cd)
      | RemoteFails \<Rightarrow> Inl OtherError)"

datatype contract_report =
    SourceUnavailable int pystr
  | NoVerifiedAbi int pystr
  | Matched int pystr danger_report

text \<open>An ABI that \<open>sourcify_abi\<close> returns is validated, so the second validation passes.\<close>

definition scan_contract :: "pf_env \<Rightarrow> (int \<Rightarrow> pystr \<Rightarrow> remote) \<Rightarrow> pyval \<Rightarrow> pf_failure + contract_report" where
  "scan_contract env remote args =
     (case args of
        PDict d \<Rightarrow>
          res_bind (as_input_error ''INVALID_CONTRACT'' (normalize_chain_id (dget_or d ''chain_id'' (PInt 1))))
          (\<lambda>chain. res_bind (as_input_error ''INVALID_CONTRACT'' (normalize_address (dget d ''address'')))
          (\<lambda>addr. case sourcify_abi env remote chain addr of
              Inl _ \<Rightarrow> Inr (SourceUnavailable chain addr)
            | Inr None \<Rightarrow> Inr (NoVerifiedAbi chain addr)
            | Inr (Some abi) \<Rightarrow> if abi = [] then Inr (NoVerifiedAbi chain addr)
                               else Inr (Matched chain addr (scan_abi abi))))
      | _ \<Rightarrow> input_error ''INVALID_REQUEST'' ''arguments must be a JSON object'')"

end
