(* ===== verification/Preflight_Facts.thy ===== *)
theory Preflight_Facts
  imports Preflight
begin

text \<open>
  What the verdicts of \<open>lucent/preflight.py\<close> guarantee: the characterisation of the gate,
  the evidence behind a clear verdict, the grading of allowances, the codes the API may
  see, and the errors that can leave the entry points.
\<close>

section \<open>Inversion of the entry points\<close>

lemma uncaught_simps [simp]: "uncaught (Inr x) = Inr x" "uncaught (Inl e) = Inl (Uncaught e)"
  by (simp_all add: uncaught_def)

lemma uncaught_Inr [simp]: "uncaught m = Inr x \<longleftrightarrow> m = Inr x"
  by (cases m) (simp_all add: uncaught_def)

lemma as_input_error_Inr [simp]: "as_input_error cd m = Inr x \<longleftrightarrow> m = Inr x"
  by (cases m) (simp_all add: as_input_error_def input_error_def)

lemma if_input_error_Inr [simp]:
  "(if b then input_error cd m else e) = Inr x \<longleftrightarrow> \<not> b \<and> e = Inr x"
  by (simp add: input_error_def)

lemma decode_call_Inr:
  "decode_call env abi calldata = Inr (fn, sig, decoded) \<longleftrightarrow>
     resolve_call (env_keccak env) abi calldata = Inr (fn, sig)
     \<and> validate_selected_function fn = Inr ()
     \<and> decode_arguments (env_sha256 env) (env_str env) (env_decode env) (env_encode env) fn calldata
         = Inr decoded"
  by (auto simp: decode_call_def res_bind_Inr_iff)

text \<open>The verdict of a call from its parts.\<close>

definition final_verdict :: "abi_function \<Rightarrow> int \<Rightarrow> binding \<Rightarrow> verdict \<Rightarrow> verdict" where
  "final_verdict fn value bound analyzer =
     (case value_verdict fn value of
        Some v \<Rightarrow> v
      | None \<Rightarrow> if vd_gate analyzer = Block then analyzer
                else (case binding_verdict bound of Some v \<Rightarrow> v | None \<Rightarrow> analyzer))"

lemma assess_call_Inr:
  "assess_call fn sig fm value decoded = Inr (audit_r, c, danger, bound, v) \<longleftrightarrow>
     audit [FunctionEntry fn] (case fm of None \<Rightarrow> [] | Some f \<Rightarrow> [(sig, f)]) = Inr audit_r
     \<and> (\<exists>c0. classify fn fm = Inr c0 \<and> c = apply_call_dependent_comprehension fn decoded c0)
     \<and> danger = sort_findings (apply_call_dependent_danger fn decoded (assess fn))
     \<and> bound = presentation_binding fn fm value (Some decoded)
     \<and> v = final_verdict fn value bound (call_verdict audit_r c danger (fm \<noteq> None))"
  unfolding assess_call_def selected_descriptor_def final_verdict_def res_bind_Inr_iff Let_def
    uncaught_Inr fst_conv snd_conv sum.inject prod.inject
  by blast

lemma preflight_transaction_Inr:
  assumes "preflight_transaction env args = Inr r"
  shows "\<exists>d tx calldata value abi formats fn.
     check_request args = Inr (d, tx)
     \<and> parse_transaction tx = Inr (pr_chain r, pr_from r, pr_to r, calldata, value)
     \<and> validated_descriptor env (dget d ''descriptor'') = Inr (abi, formats)
     \<and> deployment_matches (dget d ''descriptor'') (pr_chain r) (pr_to r)
     \<and> decode_call env abi calldata = Inr (fn, pr_function r, pr_decoded r)
     \<and> assess_call fn (pr_function r) (map_of formats (pr_function r)) value (pr_decoded r)
         = Inr (pr_audit r, pr_comprehension r, pr_danger r, pr_binding r, pr_verdict r)
     \<and> pf_fingerprint (env_sha256 env) (env_float_text env)
         (normalized_request (pr_chain r) (pr_from r) (pr_to r) calldata value (dget d ''descriptor''))
         = Inr (pr_fingerprint r)"
proof -
  from assms obtain d tx where req: "check_request args = Inr (d, tx)"
    and rest: "(case (d, tx) of (d, tx) \<Rightarrow> res_bind (parse_transaction tx)
      (\<lambda>(chain, sender, addr, calldata, value).
        let desc = dget d ''descriptor'' in
        res_bind (validated_descriptor env desc)
        (\<lambda>(abi, formats).
          if \<not> has_inline_abi desc
          then input_error ''INLINE_ABI_REQUIRED'' ''v1 transaction preflight requires context.contract.abi inline''
          else if \<not> deployment_matches desc chain addr
          then input_error ''DEPLOYMENT_MISMATCH''
                 ''descriptor deployments do not bind to transaction chain_id and to address''
          else
            res_bind (decode_call env abi calldata)
            (\<lambda>(fn, sig, decoded). res_bind (assess_call fn sig (map_of formats sig) value decoded)
            (\<lambda>(audit_r, compr, danger, bound, verdict). res_bind
              (pf_fingerprint (env_sha256 env) (env_float_text env)
                 (normalized_request chain sender addr calldata value desc))
            (\<lambda>fingerprint. Inr
              \<lparr>pr_fingerprint = fingerprint, pr_chain = chain, pr_from = sender, pr_to = addr,
               pr_selector = ''0x'' @ bytes_hex (take 4 calldata), pr_function = sig,
               pr_value = nat_hex (nat value), pr_decoded = decoded, pr_verdict = verdict,
               pr_audit = audit_r, pr_comprehension = compr, pr_binding = bound,
               pr_worst = (case danger of [] \<Rightarrow> None | f # _ \<Rightarrow> Some (df_severity f)),
               pr_danger = danger\<rparr>)))))) = Inr r"
    unfolding preflight_transaction_def res_bind_Inr_iff by auto
  from rest show ?thesis
    by (simp only: prod.case res_bind_Inr_iff Let_def if_input_error_Inr split_paired_Ex sum.inject)
      (use req in auto)
qed

text \<open>A JSON value has a fingerprint.\<close>

lemma pf_fingerprint_defined: "succeeds (pf_fingerprint sha256 fr v) \<longleftrightarrow> json_ok v"
  using json_text_defined [of fr True False v]
  by (cases "json_text fr True False v")
    (auto simp: pf_fingerprint_def canonical_json_def canonical_bytes_def input_error_def)

section \<open>The gate\<close>

lemma severity_present_iff [simp]: "severity_present fs ls \<longleftrightarrow> (\<exists>s\<in>set fs. s \<in> set ls)"
  by (simp add: severity_present_def list_ex_iff)

lemma verdict_for_simps [simp]:
  "vd_gate (verdict_for g cd) = g" "vd_code (verdict_for g cd) = cd"
  by (simp_all add: verdict_for_def)

lemma call_verdict_Block:
  "vd_gate (call_verdict audit_r c danger hf) = Block \<longleftrightarrow>
     \<not> hf \<or> CRITICAL \<in> set (audit_severities audit_r) \<or> CRITICAL \<in> df_severity ` set danger"
  by (auto simp: call_verdict_def Let_def)

lemma not_serious: "s \<notin> {CRITICAL, HIGH, MEDIUM} \<longleftrightarrow> s \<in> {LOW, INFO}" "s \<notin> {CRITICAL, HIGH} \<longleftrightarrow> s \<in> {MEDIUM, LOW, INFO}"
  by (cases s; simp)+

lemma call_verdict_Safe:
  "vd_gate (call_verdict audit_r c danger hf) = SafeToPresent \<longleftrightarrow>
     hf \<and> (\<forall>s\<in>set (audit_severities audit_r). s \<notin> {CRITICAL, HIGH, MEDIUM})
     \<and> (\<forall>f\<in>set danger. df_severity f \<notin> {CRITICAL, HIGH, MEDIUM}) \<and> cp_tier c \<notin> {CRITICAL, HIGH}"
  by (simp add: call_verdict_def Let_def) force

lemma apply_danger_subset: "set (apply_call_dependent_danger fn decoded fs) \<subseteq> set fs"
  by (auto simp: apply_call_dependent_danger_def)

lemma assess_call_danger:
  assumes "assess_call fn sig fm value decoded = Inr (audit_r, c, danger, bound, v)" "f \<in> set danger"
  shows "f \<in> set (assess fn) \<and> df_severity f \<in> {CRITICAL, HIGH, MEDIUM}"
  using assms apply_danger_subset [of fn decoded "assess fn"] assess_severity [of f fn]
  by (auto simp: assess_call_Inr)

lemma binding_complete_iff:
  "pb_complete (presentation_binding fn fm value decoded) \<longleftrightarrow>
     fm \<noteq> None \<and> pb_findings (presentation_binding fn fm value decoded) = []"
  by (simp add: presentation_binding_def Let_def split: option.split)

lemma gate_characterised:
  assumes "assess_call fn sig fm value decoded = Inr (audit_r, c, danger, bound, v)"
  shows "(vd_gate v = Block \<longleftrightarrow> (value \<noteq> 0 \<and> \<not> accepts_value fn) \<or> fm = None
        \<or> CRITICAL \<in> set (audit_severities audit_r) \<or> CRITICAL \<in> df_severity ` set danger
        \<or> pb_findings bound \<noteq> [])
    \<and> (vd_gate v = SafeToPresent \<longleftrightarrow> (value = 0 \<or> accepts_value fn) \<and> pb_complete bound
        \<and> set (audit_severities audit_r) \<subseteq> {LOW, INFO} \<and> cp_tier c \<in> {MEDIUM, LOW, INFO} \<and> danger = [])
    \<and> (value \<noteq> 0 \<and> \<not> accepts_value fn \<longrightarrow> vd_code v = ''NONPAYABLE_WITH_VALUE'')"
proof -
  let ?a = "call_verdict audit_r c danger (fm \<noteq> None)"
  from assms have v: "v = final_verdict fn value bound ?a"
    and b: "bound = presentation_binding fn fm value (Some decoded)"
    by (simp_all add: assess_call_Inr)
  have d: "(\<forall>f\<in>set danger. df_severity f \<notin> {CRITICAL, HIGH, MEDIUM}) \<longleftrightarrow> danger = []"
    using assess_call_danger [OF assms] by (cases danger) auto
  have complete: "pb_complete bound \<longleftrightarrow> fm \<noteq> None \<and> pb_findings bound = []"
    unfolding b by (rule binding_complete_iff)
  have blocked: "vd_gate v = Block \<longleftrightarrow> (value \<noteq> 0 \<and> \<not> accepts_value fn) \<or> vd_gate ?a = Block \<or> pb_findings bound \<noteq> []"
    by (simp add: v final_verdict_def value_verdict_def binding_verdict_def)
  have clear: "vd_gate v = SafeToPresent \<longleftrightarrow>
      (value = 0 \<or> accepts_value fn) \<and> vd_gate ?a = SafeToPresent \<and> pb_findings bound = []"
    by (auto simp: v final_verdict_def value_verdict_def binding_verdict_def)
  show ?thesis
    unfolding blocked clear call_verdict_Block call_verdict_Safe d complete
    unfolding not_serious
    by (auto simp: v final_verdict_def value_verdict_def)
qed

lemma gate_clear_parts:
  assumes "assess_call fn sig fm value decoded = Inr (audit_r, c, danger, bound, v)"
    and "vd_gate v = SafeToPresent"
  shows "(value = 0 \<or> accepts_value fn) \<and> pb_complete bound \<and> danger = []
    \<and> cp_tier c \<notin> {CRITICAL, HIGH}"
  using gate_characterised [OF assms(1)] assms(2) by auto

text \<open>
  C4: The gate is exactly the policy. A call is blocked if and only if it sends value to
  a function not declared payable, or its function has no format, or the audit or the
  danger scan has a critical finding, or the binding has any finding; it is safe to
  present if and only if none of that holds, the audit has no high or medium finding
  either, the tier is at most medium and the danger scan found nothing at all; and native
  value to a non-payable function is the reason given before every other.
\<close>

theorem verdict_characterised:
  assumes "assess_call fn sig fm value decoded = Inr (audit_r, c, danger, bound, v)"
  shows "(vd_gate v = Block \<longleftrightarrow> (value \<noteq> 0 \<and> \<not> accepts_value fn) \<or> fm = None
        \<or> CRITICAL \<in> set (audit_severities audit_r) \<or> CRITICAL \<in> df_severity ` set danger
        \<or> pb_findings bound \<noteq> [])
    \<and> (vd_gate v = SafeToPresent \<longleftrightarrow> (value = 0 \<or> accepts_value fn) \<and> pb_complete bound
        \<and> set (audit_severities audit_r) \<subseteq> {LOW, INFO} \<and> cp_tier c \<in> {MEDIUM, LOW, INFO} \<and> danger = [])
    \<and> (value \<noteq> 0 \<and> \<not> accepts_value fn \<longrightarrow> vd_code v = ''NONPAYABLE_WITH_VALUE'')"
  by (rule gate_characterised [OF assms])

lemma toy_assess:
  "\<exists>audit_r c danger bound v. assess_call toy_transfer ''transfer(address,uint256)'' (Some toy_transfer_format)
     3 toy_transfer_args = Inr (audit_r, c, danger, bound, v)"
proof -
  have "succeeds (assess_call toy_transfer ''transfer(address,uint256)'' (Some toy_transfer_format) 3 toy_transfer_args)"
    by code_simp
  then show ?thesis by (auto simp: succeeds_def)
qed

theorem verdict_characterised_witness:
  "\<exists>audit_r c danger bound v. assess_call toy_transfer ''transfer(address,uint256)'' (Some toy_transfer_format)
     3 toy_transfer_args = Inr (audit_r, c, danger, bound, v) \<and> vd_code v = ''NONPAYABLE_WITH_VALUE''
     \<and> vd_gate v = Block"
proof -
  from toy_assess obtain audit_r c danger bound v where
    r: "assess_call toy_transfer ''transfer(address,uint256)'' (Some toy_transfer_format) 3 toy_transfer_args
      = Inr (audit_r, c, danger, bound, v)" by blast
  have "\<not> accepts_value toy_transfer" by code_simp
  with verdict_characterised [OF r] r show ?thesis by auto
qed

section \<open>A clear call\<close>

lemma revocation_or_moves:
  assumes "classify fn fm = Inr c0" "cp_tier (apply_call_dependent_comprehension fn decoded c0) \<notin> {CRITICAL, HIGH}"
  shows "moves_value fn \<or> cp_revocation (apply_call_dependent_comprehension fn decoded c0)"
proof (cases "cp_tier c0 \<in> {CRITICAL, HIGH}")
  case True
  then have "apply_call_dependent_comprehension fn decoded c0 \<noteq> c0"
    using assms(2) by auto
  then show ?thesis using assms(2) True
    by (auto simp: apply_call_dependent_comprehension_def Let_def split: option.splits if_splits)
next
  case False
  then show ?thesis using classify_cases [OF assms(1)] by auto
qed

text \<open>
  C1: What stands behind \<open>safe_to_present\<close>. When a preflight of one unsigned call ends
  clear, the descriptor names this chain and address as a deployment; the whole calldata
  is the selector of one signable function of its ABI followed by the canonical encoding
  of the decoded values; the function may receive the value sent; its format exists under
  the exact signature; every input is a scalar bound to an always-visible field, native
  value is visible, the intent belongs to the action and no value is shown abbreviated;
  no danger primitive was found; and the call is a transfer of value or a revocation.
\<close>

theorem clear_call_evidence:
  assumes "preflight_transaction env args = Inr r" and "vd_gate (pr_verdict r) = SafeToPresent"
  shows "\<exists>d tx calldata value abi formats fn fm vals.
     check_request args = Inr (d, tx)
     \<and> parse_transaction tx = Inr (pr_chain r, pr_from r, pr_to r, calldata, value)
     \<and> deployment_matches (dget d ''descriptor'') (pr_chain r) (pr_to r)
     \<and> validated_descriptor env (dget d ''descriptor'') = Inr (abi, formats)
     \<and> FunctionEntry fn \<in> set abi \<and> is_signable fn \<and> map_of formats (signature fn) = Some fm
     \<and> calldata = take 4 (env_keccak env (utf8 (signature fn)))
                  @ env_encode env (map canonical_type (fn_inputs fn)) vals
     \<and> (value = 0 \<or> accepts_value fn)
     \<and> (\<forall>i\<in>set (fn_inputs fn). is_leaf i \<and> (\<exists>f\<in>set (fm_fields fm). binds_argument fn i f))
     \<and> (0 < value \<longrightarrow> (\<exists>f\<in>set (fm_fields fm). fd_path f = Some ''@.value'' \<and> fd_visible f = Some ''always''
          \<and> fd_format f = Some ''amount'' \<and> label_matches_role NativeValue (field_label f)))
     \<and> intent_matches fn fm (Some (pr_decoded r)) \<and> list_all (whole (env_str env)) vals
     \<and> pr_danger r = [] \<and> (moves_value fn \<or> cp_revocation (pr_comprehension r))"
proof -
  from preflight_transaction_Inr [OF assms(1)] obtain d tx calldata wei abi formats fn where
    req: "check_request args = Inr (d, tx)"
      "parse_transaction tx = Inr (pr_chain r, pr_from r, pr_to r, calldata, wei)"
      "validated_descriptor env (dget d ''descriptor'') = Inr (abi, formats)"
      "deployment_matches (dget d ''descriptor'') (pr_chain r) (pr_to r)"
    and dec: "decode_call env abi calldata = Inr (fn, pr_function r, pr_decoded r)"
    and call: "assess_call fn (pr_function r) (map_of formats (pr_function r)) wei (pr_decoded r)
       = Inr (pr_audit r, pr_comprehension r, pr_danger r, pr_binding r, pr_verdict r)"
    by blast
  from dec have sel: "resolve_call (env_keccak env) abi calldata = Inr (fn, pr_function r)"
    and names: "validate_selected_function fn = Inr ()"
    and args: "decode_arguments (env_sha256 env) (env_str env) (env_decode env) (env_encode env) fn calldata
      = Inr (pr_decoded r)" by (simp_all add: decode_call_Inr)
  note s = resolve_call_Inr [OF sel]
  from decode_arguments_Inr [OF args] obtain vals where
    v: "env_encode env (map canonical_type (fn_inputs fn)) vals = drop 4 calldata"
      "length vals = length (fn_inputs fn)"
      "pr_decoded r = map (\<lambda>(i, item, v). \<lparr>da_name = argument_name i item, da_type = canonical_type item,
                  da_value = json_safe (env_sha256 env) (env_str env) v\<rparr>)
         (zip [0..<length vals] (zip (fn_inputs fn) vals))" by blast
  have rendered: "map da_value (pr_decoded r) = map (json_safe (env_sha256 env) (env_str env)) vals"
    using v(2) by (auto simp: v(3) intro!: nth_equalityI)
  have clear: "wei = 0 \<or> accepts_value fn" "pb_complete (pr_binding r)" "pr_danger r = []"
      "cp_tier (pr_comprehension r) \<notin> {CRITICAL, HIGH}"
    using gate_clear_parts [OF call assms(2)] by blast+
  from call obtain c0 where c0: "classify fn (map_of formats (pr_function r)) = Inr c0"
    "pr_comprehension r = apply_call_dependent_comprehension fn (pr_decoded r) c0"
    and b: "pr_binding r = presentation_binding fn (map_of formats (pr_function r)) wei (Some (pr_decoded r))"
    by (auto simp: assess_call_Inr)
  from clear(2) obtain fm where fm: "map_of formats (signature fn) = Some fm"
    using s unfolding b binding_complete_iff by auto
  have bound: "pb_complete (presentation_binding fn (Some fm) wei (Some (pr_decoded r)))"
    using clear(2) fm s unfolding b by simp
  have "calldata = take 4 (env_keccak env (utf8 (signature fn)))
      @ env_encode env (map canonical_type (fn_inputs fn)) vals"
    using s v(1) by (metis append_take_drop_id)
  moreover have "moves_value fn \<or> cp_revocation (pr_comprehension r)"
    using revocation_or_moves [OF c0(1)] clear(4) unfolding c0(2) by blast
  ultimately show ?thesis
    using req s fm clear binding_sound [OF bound names rendered] by blast
qed

text \<open>A small environment and a token transfer in it.\<close>

definition toy_env :: pf_env where
  "toy_env = \<lparr>env_float_text = (\<lambda>_. []), env_encodable = (\<lambda>t. t \<in> {''address'', ''uint256''}),
     env_abi_cache = (\<lambda>_ _. None), env_keccak = toy_keccak, env_sha256 = take 32, env_str = (\<lambda>_. []),
     env_decode = (\<lambda>ts b. if length ts = 2 then Some [PStr ''0x07'', PInt 5] else None), env_encode = (\<lambda>ts vs. [7])\<rparr>"

definition toy_address :: pystr where
  "toy_address = ''0x'' @ replicate 40 CHR ''a''"

definition toy_transfer_abi :: pyval where
  "toy_transfer_abi = PList [PDict
     [(''type'', PStr ''function''), (''name'', PStr ''transfer''), (''stateMutability'', PStr ''nonpayable''),
      (''inputs'', PList [PDict [(''name'', PStr ''to''), (''type'', PStr ''address'')],
                          PDict [(''name'', PStr ''amount''), (''type'', PStr ''uint256'')]])]]"

definition toy_descriptor_for :: "pyval \<Rightarrow> pyval" where
  "toy_descriptor_for path = PDict
     [(''context'', PDict [(''contract'', PDict
        [(''abi'', toy_transfer_abi),
         (''deployments'', PList [PDict [(''chainId'', PInt 1), (''address'', PStr toy_address)]])])]),
      (''display'', PDict [(''formats'', PDict
        [(''transfer(address,uint256)'', PDict [(''intent'', PStr ''Send tokens''),
            (''interpolatedIntent'', PStr ''Send {amount} to {to}''), (''fields'', PList
           [PDict [(''path'', path), (''label'', PStr ''To''), (''format'', PStr ''addressName'')],
            PDict [(''path'', PStr ''#.amount''), (''label'', PStr ''Amount''), (''format'', PStr ''raw''),
                   (''visible'', PStr ''always'')]])])])])]"

definition toy_transfer_descriptor :: pyval where
  "toy_transfer_descriptor = toy_descriptor_for (PStr ''#.to'')"

definition toy_request_for :: "pyval \<Rightarrow> pyval" where
  "toy_request_for desc = PDict
     [(''transaction'', PDict [(''chain_id'', PInt 1), (''from'', PStr toy_address), (''to'', PStr toy_address),
        (''data'', PStr ''0x7472616e07'')]),
      (''descriptor'', desc)]"

definition toy_request :: pyval where
  "toy_request = toy_request_for toy_transfer_descriptor"

lemma toy_validated:
  "validated_descriptor toy_env toy_transfer_descriptor
   = Inr ([FunctionEntry toy_transfer], [(''transfer(address,uint256)'', toy_transfer_format)])"
  by code_simp

lemma toy_json_ok: "json_ok toy_transfer_descriptor"
  by code_simp

lemma toy_parsed:
  "check_request (toy_request_for desc) = Inr (dict_items (toy_request_for desc),
     dict_items (dget (dict_items (toy_request_for desc)) ''transaction''))"
  "parse_transaction (dict_items (dget (dict_items (toy_request_for desc)) ''transaction''))
   = Inr (1, toy_address, toy_address, [116, 114, 97, 110, 7], 0)"
  by code_simp+

lemma toy_bound:
  "has_inline_abi toy_transfer_descriptor" "deployment_matches toy_transfer_descriptor 1 toy_address"
  by code_simp+

lemma toy_decoded:
  "decode_call toy_env [FunctionEntry toy_transfer] [116, 114, 97, 110, 7]
   = Inr (toy_transfer, ''transfer(address,uint256)'', toy_transfer_args)"
  by code_simp

lemma toy_verdict:
  "map_sum id (\<lambda>(a, c, d, b, v). vd_gate v)
     (assess_call toy_transfer ''transfer(address,uint256)'' (Some toy_transfer_format) 0 toy_transfer_args)
   = Inr SafeToPresent"
  by code_simp

lemma toy_preflight:
  "\<exists>r. preflight_transaction toy_env toy_request = Inr r \<and> vd_gate (pr_verdict r) = SafeToPresent
     \<and> pr_decoded r = toy_transfer_args"
proof -
  obtain a c d b v where call: "assess_call toy_transfer ''transfer(address,uint256)'' (Some toy_transfer_format)
      0 toy_transfer_args = Inr (a, c, d, b, v)" and v: "vd_gate v = SafeToPresent"
    using toy_verdict
    by (cases "assess_call toy_transfer ''transfer(address,uint256)'' (Some toy_transfer_format) 0 toy_transfer_args")
      auto
  have desc: "dget (dict_items toy_request) ''descriptor'' = toy_transfer_descriptor"
    by (simp add: toy_request_def toy_request_for_def dict_items_def)
  obtain fp where fp: "pf_fingerprint (env_sha256 toy_env) (env_float_text toy_env)
      (normalized_request 1 toy_address toy_address [116, 114, 97, 110, 7] 0 toy_transfer_descriptor) = Inr fp"
    using pf_fingerprint_defined [of _ _ "normalized_request 1 toy_address toy_address [116, 114, 97, 110, 7] 0 toy_transfer_descriptor"]
      toy_json_ok by (auto simp: normalized_request_def succeeds_def)
  obtain r where r: "preflight_transaction toy_env toy_request = Inr r" and "pr_verdict r = v" "pr_decoded r = toy_transfer_args"
    by (simp add: preflight_transaction_def toy_parsed [of toy_transfer_descriptor, folded toy_request_def] desc toy_validated toy_bound toy_decoded call fp Let_def)
  with v r show ?thesis by auto
qed

theorem clear_call_evidence_witness:
  "\<exists>r. preflight_transaction toy_env toy_request = Inr r \<and> vd_gate (pr_verdict r) = SafeToPresent
     \<and> (\<exists>fn. is_signable fn \<and> (moves_value fn \<or> cp_revocation (pr_comprehension r)))"
proof -
  from toy_preflight obtain r where r: "preflight_transaction toy_env toy_request = Inr r"
    and v: "vd_gate (pr_verdict r) = SafeToPresent" by blast
  from clear_call_evidence [OF r v] r v show ?thesis by blast
qed

end
