(* ===== verification/Preflight_Policy.thy ===== *)
theory Preflight_Policy
  imports Preflight_Facts
begin

text \<open>
  The policy of \<open>lucent/preflight.py\<close> for approvals, the codes a verdict may carry, the
  errors that leave \<open>preflight_transaction\<close>, and what \<open>check_descriptor\<close> and
  \<open>explain_signature\<close> promise about a whole descriptor.
\<close>

section \<open>Decimal texts\<close>

lemma nat_str_inj: "nat_str m = nat_str n \<longleftrightarrow> m = n"
proof
  assume eq: "nat_str m = nat_str n"
  have inj: "inj_on (\<lambda>d::nat. char_of (48 + d) :: char) {d. d < 10}"
  proof (rule inj_onI)
    fix d e :: nat
    assume "d \<in> {d. d < 10}" "e \<in> {d. d < 10}" "(char_of (48 + d) :: char) = char_of (48 + e)"
    then have "code (char_of (48 + d)) = code (char_of (48 + e))" "d < 10" "e < 10" by simp_all
    then show "d = e" by simp
  qed
  have "set (nat_digits 10 m) \<union> set (nat_digits 10 n) \<subseteq> {d. d < 10}"
    by (auto dest: nat_digits_less [of 10, simplified])
  with eq have d: "nat_digits 10 m = nat_digits 10 n"
    unfolding nat_str_def using inj_on_map_eq_map [OF inj_on_subset [OF inj]] by blast
  have "m = foldl (\<lambda>n d. 10 * n + d) 0 (nat_digits 10 m)" by (rule nat_digits_foldl [symmetric]) simp
  also have "\<dots> = n" unfolding d by (rule nat_digits_foldl) simp
  finally show "m = n" .
qed simp

lemma int_str_inj: "0 \<le> m \<Longrightarrow> 0 \<le> n \<Longrightarrow> int_str m = int_str n \<longleftrightarrow> m = n"
  by (simp add: int_str_def nat_str_inj eq_nat_nat_iff)

section \<open>The analyses of a named function\<close>

lemma names_ok_keys: "list_all names_ok is \<Longrightarrow> list_all (\<lambda>i. ai_name i \<noteq> None) is"
  using names_ok_name by (fastforce simp: list_all_iff)

lemma input_type_dict_named: "list_all (\<lambda>i. ai_name i \<noteq> None) is \<Longrightarrow> succeeds (input_type_dict is)"
  by (induction "is") (auto simp: name_key_def intro!: succeeds_bind split: option.splits)

lemma res_map_succeeds: "(\<And>x. x \<in> set xs \<Longrightarrow> succeeds (f x)) \<Longrightarrow> succeeds (res_map f xs)"
  by (induction xs) (auto intro!: succeeds_bind)

lemma audit_named:
  assumes "\<And>fn. fn \<in> set (signable_functions abi) \<Longrightarrow> list_all (\<lambda>i. ai_name i \<noteq> None) (fn_inputs fn)"
  shows "succeeds (audit abi formats)"
proof -
  have mem: "fn \<in> set (signable_functions abi)" if "(sig, fn) \<in> set (signable_dict abi)" for sig fn
    using signable_dict_fold that unfolding signable_dict_def by fastforce
  have one: "succeeds (function_findings nc formats (sig, fn))" if "(sig, fn) \<in> set (signable_dict abi)" for nc sig fn
  proof -
    have "succeeds (screen_findings sig fn fm)" for fm
      unfolding screen_findings_def Let_def
      by (rule succeeds_bind [OF input_type_dict_named [OF assms [OF mem [OF that]]]]) simp
    then show ?thesis by (simp add: function_findings_def split: option.split)
  qed
  have "succeeds (res_map (function_findings nc formats) (signable_dict abi))" for nc
    by (rule res_map_succeeds) (metis one surj_pair)
  then show ?thesis unfolding audit_def Let_def by (rule succeeds_bind) simp
qed

lemma uncaught_succeeds [simp]: "succeeds (uncaught m) = succeeds m"
  by (cases m) (simp_all add: uncaught_def)

lemma assess_call_succeeds:
  assumes "list_all names_ok (fn_inputs fn)"
  shows "succeeds (assess_call fn sig fm value decoded)"
proof -
  have named: "list_all (\<lambda>i. ai_name i \<noteq> None) (fn_inputs fn)" by (rule names_ok_keys [OF assms])
  then have "succeeds (audit [FunctionEntry fn] fs)" for fs by (auto intro!: audit_named split: if_splits)
  moreover have "succeeds (classify fn fm)" using named by (intro classify_named) (simp add: named_inputs_def)
  ultimately show ?thesis
    unfolding assess_call_def Let_def selected_descriptor_def by (simp add: succeeds_bind)
qed

section \<open>Approvals\<close>

lemma classify_approval:
  assumes "py_lower (fn_name fn) = ''approve''" "classify fn fm = Inr c"
  shows "cp_tier c = HIGH \<and> \<not> cp_revocation c \<and> \<not> cp_unlimited c"
proof -
  have "\<not> is_grant_all fn" "is_approve_name ''approve''"
    by (simp_all add: is_grant_all_def assms(1) is_approve_name_def)
  then have "classify_approve fn = Inr c" using assms by (simp add: classify_def)
  then show ?thesis
    by (auto simp: classify_approve_def Let_def res_bind_Inr_iff verdict_of_def split: if_splits)
qed

lemma not_clear_tier:
  assumes "assess_call fn sig fm value decoded = Inr (audit_r, c, danger, bound, v)" "cp_tier c \<in> {CRITICAL, HIGH}"
  shows "vd_gate v \<noteq> SafeToPresent"
  using gate_clear_parts [OF assms(1)] assms(2) by blast

text \<open>
  C31: An ERC-20 allowance is graded by the exact amount in the calldata. A zero amount
  is a revocation of low tier; the maximum of uint256, and only that, is an unlimited
  approval of critical tier; any other amount keeps the high tier; and neither a grant
  nor an unlimited approval is ever safe to present.
\<close>

theorem allowance_graded:
  assumes "assess_call fn sig fm value decoded = Inr (audit_r, c, danger, bound, v)"
    and "py_lower (fn_name fn) = ''approve''"
    and "first_arg (\<lambda>a. py_startswith (da_type a) ''uint'') decoded = Some a"
    and "\<not> py_in ''tokenid'' (py_lower (da_name a))"
    and "da_value a = json_safe sha256 str_of (PInt n)" and "0 \<le> n"
  shows "(n = 0 \<longrightarrow> cp_tier c = LOW \<and> cp_revocation c)
    \<and> (cp_unlimited c \<longleftrightarrow> n = UINT256_MAX) \<and> (cp_revocation c \<longleftrightarrow> n = 0)
    \<and> (n = UINT256_MAX \<longrightarrow> cp_tier c = CRITICAL)
    \<and> (0 < n \<and> n \<noteq> UINT256_MAX \<longrightarrow> cp_tier c = HIGH)
    \<and> (0 < n \<longrightarrow> vd_gate v \<noteq> SafeToPresent)"
proof -
  from assms(1) obtain c0 where c0: "classify fn fm = Inr c0"
    and c: "c = apply_call_dependent_comprehension fn decoded c0" by (auto simp: assess_call_Inr)
  note cl = classify_approval [OF assms(2) c0]
  have z: "''0'' = int_str 0" by code_simp
  have eqs: "da_value a = PStr ''0'' \<longleftrightarrow> n = 0" "da_value a = PStr (int_str UINT256_MAX) \<longleftrightarrow> n = UINT256_MAX"
    using assms(5,6) int_str_inj [of n 0] int_str_inj [of n UINT256_MAX] by (simp_all add: z UINT256_MAX_def)
  have "UINT256_MAX \<noteq> 0" by (simp add: UINT256_MAX_def)
  then have facts: "(n = 0 \<longrightarrow> cp_tier c = LOW \<and> cp_revocation c)"
      "cp_unlimited c \<longleftrightarrow> n = UINT256_MAX" "cp_revocation c \<longleftrightarrow> n = 0"
      "n = UINT256_MAX \<longrightarrow> cp_tier c = CRITICAL" "0 < n \<and> n \<noteq> UINT256_MAX \<longrightarrow> cp_tier c = HIGH"
    using cl eqs assms(2,4)
    by (auto simp: c apply_call_dependent_comprehension_def Let_def assms(3))
  then have "0 < n \<longrightarrow> vd_gate v \<noteq> SafeToPresent"
    using not_clear_tier [OF assms(1)] by (cases "n = UINT256_MAX") auto
  with facts show ?thesis by blast
qed

definition toy_approve :: abi_function where
  "toy_approve = \<lparr>fn_name = ''approve'', fn_inputs = [AbiInput (Some ''spender'') ''address'' [],
     AbiInput (Some ''amount'') ''uint256'' []], fn_mutability = Some ''nonpayable'', fn_payable = None\<rparr>"

definition toy_approve_args :: "decoded_arg list" where
  "toy_approve_args =
     [\<lparr>da_name = ''spender'', da_type = ''address'', da_value = PStr ''0x07''\<rparr>,
      \<lparr>da_name = ''amount'', da_type = ''uint256'', da_value = PStr ''5''\<rparr>]"

lemma toy_approve_assess:
  "\<exists>audit_r c danger bound v. assess_call toy_approve ''approve(address,uint256)'' None 0 toy_approve_args
     = Inr (audit_r, c, danger, bound, v)"
proof -
  have "list_all names_ok (fn_inputs toy_approve)" by (simp add: toy_approve_def) code_simp
  from assess_call_succeeds [OF this]
  have "succeeds (assess_call toy_approve ''approve(address,uint256)'' None 0 toy_approve_args)" .
  then show ?thesis by (auto simp: succeeds_def)
qed

theorem allowance_graded_witness:
  "\<exists>audit_r c danger bound v. assess_call toy_approve ''approve(address,uint256)'' None 0 toy_approve_args
     = Inr (audit_r, c, danger, bound, v) \<and> cp_tier c = HIGH \<and> vd_gate v \<noteq> SafeToPresent"
proof -
  from toy_approve_assess obtain audit_r c danger bound v where
    r: "assess_call toy_approve ''approve(address,uint256)'' None 0 toy_approve_args
      = Inr (audit_r, c, danger, bound, v)" by blast
  have n: "py_lower (fn_name toy_approve) = ''approve''" by code_simp
  have a: "first_arg (\<lambda>a. py_startswith (da_type a) ''uint'') toy_approve_args
      = Some \<lparr>da_name = ''amount'', da_type = ''uint256'', da_value = PStr ''5''\<rparr>" by code_simp
  have t: "\<not> py_in ''tokenid'' (py_lower (da_name \<lparr>da_name = ''amount'', da_type = ''uint256'', da_value = PStr ''5''\<rparr>))"
    by code_simp
  have v5: "da_value \<lparr>da_name = ''amount'', da_type = ''uint256'', da_value = PStr ''5''\<rparr>
      = json_safe id (\<lambda>_. []) (PInt 5)" by code_simp
  from allowance_graded [OF r n a t v5] r show ?thesis by (auto simp: UINT256_MAX_def)
qed

lemma classify_operator:
  assumes "py_lower (fn_name fn) = ''setapprovalforall''" "classify fn fm = Inr c"
  shows "cp_tier c = CRITICAL"
  using assms by (auto simp: classify_def Let_def is_grant_all_def res_bind_Inr_iff verdict_of_def)

text \<open>
  A collection-wide operator approval is graded by its boolean. Revoking is of low
  tier and carries no delegation finding; anything else keeps the critical tier and the
  delegation finding and is never safe to present.
\<close>

theorem operator_graded:
  assumes "assess_call fn sig fm value decoded = Inr (audit_r, c, danger, bound, v)"
    and "py_lower (fn_name fn) = ''setapprovalforall''"
  shows "(revokes_operator decoded \<longrightarrow> cp_tier c = LOW \<and> cp_revocation c
           \<and> (\<forall>f\<in>set danger. df_primitive f \<noteq> ''unbounded-delegation''))
    \<and> (\<not> revokes_operator decoded \<longrightarrow> cp_tier c = CRITICAL \<and> vd_gate v \<noteq> SafeToPresent
           \<and> (\<exists>f\<in>set danger. df_primitive f = ''unbounded-delegation'' \<and> df_severity f = HIGH))"
proof -
  from assms(1) obtain c0 where c0: "classify fn fm = Inr c0"
    and c: "c = apply_call_dependent_comprehension fn decoded c0"
    and d: "danger = sort_findings (apply_call_dependent_danger fn decoded (assess fn))"
    by (auto simp: assess_call_Inr)
  have "\<exists>f\<in>set (assess fn). df_primitive f = ''unbounded-delegation'' \<and> df_severity f = HIGH"
    by (simp add: assess_def Let_def assms(2))
  then show ?thesis
    using not_clear_tier [OF assms(1)] classify_operator [OF assms(2) c0]
    by (simp add: c d apply_call_dependent_comprehension_def apply_call_dependent_danger_def assms(2) Let_def)
qed

definition toy_operator :: abi_function where
  "toy_operator = \<lparr>fn_name = ''setApprovalForAll'', fn_inputs = [AbiInput (Some ''operator'') ''address'' [],
     AbiInput (Some ''approved'') ''bool'' []], fn_mutability = Some ''nonpayable'', fn_payable = None\<rparr>"

theorem operator_graded_witness:
  "\<exists>audit_r c danger bound v. assess_call toy_operator ''setApprovalForAll(address,bool)'' None 0
     [\<lparr>da_name = ''approved'', da_type = ''bool'', da_value = PBool True\<rparr>] = Inr (audit_r, c, danger, bound, v)
     \<and> cp_tier c = CRITICAL"
proof -
  have "list_all names_ok (fn_inputs toy_operator)" by (simp add: toy_operator_def) code_simp
  from assess_call_succeeds [OF this] obtain audit_r c danger bound v where
    r: "assess_call toy_operator ''setApprovalForAll(address,bool)'' None 0
      [\<lparr>da_name = ''approved'', da_type = ''bool'', da_value = PBool True\<rparr>] = Inr (audit_r, c, danger, bound, v)"
    unfolding succeeds_def by (metis prod_cases5)
  have "py_lower (fn_name toy_operator) = ''setapprovalforall''" by code_simp
  moreover have "\<not> revokes_operator [\<lparr>da_name = ''approved'', da_type = ''bool'', da_value = PBool True\<rparr>]"
    by code_simp
  ultimately show ?thesis using operator_graded [OF r] r by blast
qed

section \<open>The codes of a verdict\<close>

text \<open>\<open>VerdictCode\<close> of \<open>lucent/api.py\<close>, which the response model validates against.\<close>

definition VERDICT_CODES :: "pystr list" where
  "VERDICT_CODES = [''PRESENTATION_CLEAR'', ''MISSING_CLEAR_SIGNING_FORMAT'', ''PRESENTATION_CRITICAL'',
     ''DANGER_CRITICAL'', ''COMPREHENSION_REVIEW'', ''UNLIMITED_APPROVAL'', ''PRESENTATION_REVIEW'',
     ''DANGER_REVIEW'', ''NONPAYABLE_WITH_VALUE'', ''PRESENTATION_UNBOUND'']"

definition gate_of_code :: "pystr \<Rightarrow> gate" where
  "gate_of_code cd =
     (if cd = ''PRESENTATION_CLEAR'' then SafeToPresent
      else if cd \<in> {''COMPREHENSION_REVIEW'', ''UNLIMITED_APPROVAL'', ''PRESENTATION_REVIEW'', ''DANGER_REVIEW''}
      then Review else Block)"

lemma call_verdict_code:
  "vd_code (call_verdict a c d hf) \<in> set VERDICT_CODES
   \<and> vd_gate (call_verdict a c d hf) = gate_of_code (vd_code (call_verdict a c d hf))"
  by (simp add: call_verdict_def Let_def VERDICT_CODES_def gate_of_code_def)

lemma final_verdict_cases:
  "final_verdict fn value b v \<in> {v, verdict_for Block ''PRESENTATION_UNBOUND'', verdict_for Block ''NONPAYABLE_WITH_VALUE''}"
  by (simp add: final_verdict_def value_verdict_def binding_verdict_def)

lemma final_verdict_code:
  assumes "v = final_verdict fn value b (call_verdict a c d hf)"
  shows "vd_code v \<in> set VERDICT_CODES \<and> vd_gate v = gate_of_code (vd_code v)"
proof -
  have blocks: "vd_code w \<in> set VERDICT_CODES \<and> vd_gate w = gate_of_code (vd_code w)"
    if "w \<in> {verdict_for Block ''PRESENTATION_UNBOUND'', verdict_for Block ''NONPAYABLE_WITH_VALUE''}" for w
    using that by (auto simp: VERDICT_CODES_def gate_of_code_def)
  show ?thesis
    using final_verdict_cases [of fn "value" b "call_verdict a c d hf"] call_verdict_code [of a c d hf] blocks [of v]
    unfolding assms [symmetric] insert_iff by metis
qed

text \<open>
  C32: Every verdict of \<open>preflight_transaction\<close> carries a code of the API's enumeration,
  so the response model accepts it, and the code alone determines the gate.
\<close>

theorem verdict_codes:
  assumes "preflight_transaction env args = Inr r"
  shows "vd_code (pr_verdict r) \<in> set VERDICT_CODES
    \<and> vd_gate (pr_verdict r) = gate_of_code (vd_code (pr_verdict r))"
proof -
  from preflight_transaction_Inr [OF assms] obtain fn wei formats where
    "assess_call fn (pr_function r) (map_of formats (pr_function r)) wei (pr_decoded r)
       = Inr (pr_audit r, pr_comprehension r, pr_danger r, pr_binding r, pr_verdict r)" by blast
  then show ?thesis by (intro final_verdict_code) (auto simp: assess_call_Inr)
qed

theorem verdict_codes_witness:
  "\<exists>r. preflight_transaction toy_env toy_request = Inr r \<and> vd_code (pr_verdict r) \<in> set VERDICT_CODES"
  using toy_preflight verdict_codes by blast

end
