(* ===== verification/Preflight_Entry.thy ===== *)
theory Preflight_Entry
  imports Preflight_Policy
begin

text \<open>
  The entry points of \<open>lucent/preflight.py\<close> as a whole: which exceptions can leave
  \<open>preflight_transaction\<close>, and what \<open>check_descriptor\<close>, \<open>explain_signature\<close> and
  \<open>scan_contract\<close> promise.
\<close>

section \<open>Exceptions that leave an operation\<close>

text \<open>An operation whose failures are all \<open>PreflightInputError\<close>s.\<close>

definition caught :: "pf_failure + 'a \<Rightarrow> bool" where
  "caught m \<longleftrightarrow> (\<forall>e. m \<noteq> Inl (Uncaught e))"

lemma caught_simps [simp]:
  "caught (Inr x)" "caught (input_error cd msg)" "caught (Inl (InputError cd msg))"
  "caught (bad_descriptor msg)" "caught (unbindable msg)"
  by (simp_all add: caught_def input_error_def bad_descriptor_def unbindable_def)

lemma caught_bind: "caught m \<Longrightarrow> (\<And>x. m = Inr x \<Longrightarrow> caught (f x)) \<Longrightarrow> caught (res_bind m f)"
  by (cases m) (auto simp: caught_def)

lemma caught_all: "(\<And>x. x \<in> set xs \<Longrightarrow> caught (f x)) \<Longrightarrow> caught (res_all f xs)"
  by (induction xs) (auto intro!: caught_bind)

lemma caught_map: "(\<And>x. x \<in> set xs \<Longrightarrow> caught (f x)) \<Longrightarrow> caught (res_map f xs)"
  by (induction xs) (auto intro!: caught_bind)

lemma caught_as_input_error [simp]: "caught (as_input_error cd m)"
  by (cases m) (simp_all add: as_input_error_def)

lemma caught_succeeds: "succeeds m \<Longrightarrow> caught m"
  by (auto simp: succeeds_def)

lemma caught_reject_unknown [simp]: "caught (reject_unknown cd msg allowed d)"
  by (simp add: reject_unknown_def split: list.split)

lemma caught_check_request [simp]: "caught (check_request args)"
  by (cases args) (auto simp: check_request_def intro!: caught_bind split: pyval.split)

lemma caught_parse_calldata [simp]: "caught (parse_calldata v)"
  by (cases v) (simp_all add: parse_calldata_def Let_def)

lemma caught_parse_value [simp]: "caught (parse_value v)"
  by (cases v) (simp_all add: parse_value_def Let_def)

lemma caught_parse_transaction [simp]: "caught (parse_transaction tx)"
  unfolding parse_transaction_def by (intro caught_bind) simp_all

lemma caught_resolve_call [simp]: "caught (resolve_call keccak abi calldata)"
  by (simp add: resolve_call_def Let_def split: list.split)

lemma caught_check_input_names [simp]: "caught (check_input_names scope i)"
proof (induction scope i rule: check_input_names.induct)
  case (1 scope nm t comps)
  then show ?case
    by (auto simp: unique_names_def intro!: caught_bind caught_all split: option.split)
qed

lemma caught_validate_selected_function [simp]: "caught (validate_selected_function fn)"
  by (auto simp: validate_selected_function_def unique_names_def intro!: caught_bind caught_all)

lemma caught_pf_fingerprint [simp]: "caught (pf_fingerprint sha256 fr v)"
  by (auto simp: pf_fingerprint_def canonical_json_def intro!: caught_bind split: option.split)

text \<open>\<open>eth_abi.decode\<close> gives one value per type.\<close>

definition decodes_all :: "pf_env \<Rightarrow> bool" where
  "decodes_all env \<longleftrightarrow> (\<forall>ts b vals. env_decode env ts b = Some vals \<longrightarrow> length vals = length ts)"

lemma caught_decode_arguments:
  assumes "decodes_all env"
  shows "caught (decode_arguments sha256 str_of (env_decode env) enc fn calldata)"
  using assms by (auto simp: decode_arguments_def Let_def decodes_all_def split: option.split)

lemma caught_decode_call: "decodes_all env \<Longrightarrow> caught (decode_call env abi calldata)"
  unfolding decode_call_def
  by (intro caught_bind) (auto intro!: caught_bind caught_decode_arguments)

text \<open>The two exceptions \<open>validate_descriptor\<close> does not turn into an input error.\<close>

definition escape :: "py_exn \<Rightarrow> bool" where
  "escape e \<longleftrightarrow> e = TypeError ''unhashable type'' \<or> e = AttributeError ''object has no attribute lower''"

definition mostly_caught :: "pf_failure + 'a \<Rightarrow> bool" where
  "mostly_caught m \<longleftrightarrow> (\<forall>e. m = Inl (Uncaught e) \<longrightarrow> escape e)"

lemma mostly_caught: "caught m \<Longrightarrow> mostly_caught m"
  by (simp add: caught_def mostly_caught_def)

lemma mostly_caught_simps [simp]:
  "mostly_caught (Inr x)" "mostly_caught (input_error cd msg)" "mostly_caught (bad_descriptor msg)"
  by (simp_all add: mostly_caught)

lemma mostly_caught_bind:
  "mostly_caught m \<Longrightarrow> (\<And>x. m = Inr x \<Longrightarrow> mostly_caught (f x)) \<Longrightarrow> mostly_caught (res_bind m f)"
  by (cases m) (auto simp: mostly_caught_def)

lemma mostly_caught_map: "(\<And>x. x \<in> set xs \<Longrightarrow> mostly_caught (f x)) \<Longrightarrow> mostly_caught (res_map f xs)"
  by (induction xs) (auto intro!: mostly_caught_bind)

lemma caught_walk_text [simp]: "caught (walk_text v)"
  by (induction v rule: walk_text.induct)
    (auto simp: check_text_def intro!: caught_all caught_bind)

lemma caught_validate_field: "caught (validate_field sig d)"
proof -
  have "caught (check_key_types sig d)"
    unfolding check_key_types_def by (rule caught_all) (simp split: option.split pyval.split)
  moreover have "caught (check_visible_field sig d)" by (simp add: check_visible_field_def)
  moreover have "caught (check_params d)"
    by (auto simp: check_params_def Let_def intro!: caught_bind split: option.split)
  ultimately show ?thesis by (auto simp: validate_field_def intro!: caught_bind)
qed

lemma visible_labels_escape: "mostly_caught (visible_labels fds)"
  unfolding visible_labels_def
  by (rule mostly_caught_map) (auto simp: mostly_caught_def escape_def split: pyval.split)

lemma intent_checks_caught:
  "caught (res_all (\<lambda>k. case map_of d k of None \<Rightarrow> Inr () | Some (PStr _) \<Rightarrow> Inr ()
     | Some _ \<Rightarrow> bad_descriptor (m k)) ks)"
  by (intro caught_all) (simp split: option.split pyval.split)

lemma validate_format_escape: "mostly_caught (validate_format sf)"
proof (cases "\<exists>d vs. snd sf = PDict d \<and> dget_or d ''fields'' (PList []) = PList vs")
  case True
  then obtain d vs where "snd sf = PDict d" "dget_or d ''fields'' (PList []) = PList vs" by blast
  moreover have "mostly_caught (Inl (Uncaught (TypeError ''unhashable type'')))"
    by (simp add: mostly_caught_def escape_def)
  ultimately show ?thesis
    unfolding validate_format_def Let_def
    by (auto intro!: mostly_caught_bind visible_labels_escape mostly_caught [OF caught_map]
        mostly_caught [OF intent_checks_caught] caught_validate_field simp del: res_all.simps)
next
  case False
  show ?thesis
  proof (cases "snd sf")
    case (PDict d)
    then show ?thesis
      using False by (cases "dget_or d ''fields'' (PList [])") (simp_all add: validate_format_def)
  qed (simp_all add: validate_format_def)
qed

lemma mostly_caught_if:
  "(\<not> b \<Longrightarrow> mostly_caught e) \<Longrightarrow> mostly_caught (if b then input_error cd msg else e)"
  by simp

lemma validate_display_escape:
  "mostly_caught
    (case v of
       PDict display \<Rightarrow>
         (case dget display ''formats'' of
            PDict formats \<Rightarrow>
              if MAX_FORMATS < int (length formats) then input_error cd msg
              else res_bind (res_map validate_format formats) (\<lambda>fs. Inr (abi, fs))
          | _ \<Rightarrow> bad_descriptor m1)
     | _ \<Rightarrow> bad_descriptor m2)"
proof (cases v)
  case (PDict display)
  show ?thesis
  proof (cases "dget display ''formats''")
    case inner: (PDict formats)
    show ?thesis unfolding PDict pyval.case inner
      by (intro mostly_caught_if mostly_caught_bind mostly_caught_map validate_format_escape) simp
  qed (simp_all add: PDict)
qed simp_all

lemma validate_descriptor_escape: "mostly_caught (validate_descriptor fr encodable cache desc)"
proof (cases desc)
  case (PDict d)
  have canon: "caught (canonical_json fr v)" for v by (simp add: canonical_json_def split: option.split)
  have abi: "mostly_caught (case r of Inl e \<Rightarrow> bad_descriptor (py_exn_text e) | Inr abi \<Rightarrow> Inr abi)"
    for r :: "py_exn + abi_entry list"
    by (cases r) simp_all
  show ?thesis
    unfolding validate_descriptor_def PDict pyval.case
    by (intro mostly_caught_bind mostly_caught_if mostly_caught [OF canon] mostly_caught [OF caught_walk_text]
        abi validate_display_escape)
qed (simp_all add: validate_descriptor_def)


definition toy_bad_descriptor :: pyval where
  "toy_bad_descriptor = toy_descriptor_for (PList [])"

lemma toy_unhashable:
  "preflight_transaction toy_env (toy_request_for toy_bad_descriptor) = Inl (Uncaught (TypeError ''unhashable type''))"
proof -
  have "validated_descriptor toy_env toy_bad_descriptor = Inl (Uncaught (TypeError ''unhashable type''))"
    by code_simp
  moreover have "dget (dict_items (toy_request_for toy_bad_descriptor)) ''descriptor'' = toy_bad_descriptor"
    by (simp add: toy_request_for_def dict_items_def)
  ultimately show ?thesis by (simp add: preflight_transaction_def toy_parsed Let_def)
qed


section \<open>A whole descriptor\<close>

lemma audit_uncovered:
  assumes "audit abi formats = Inr r" "fn \<in> set (signable_functions abi)" "map_of formats (signature fn) = None"
  shows "HIGH \<in> set (audit_severities r)"
proof -
  from audit_Inr [OF assms(1)] obtain fss where
    fss: "res_map (function_findings (noncanonical_keys (signable_dict abi) formats) formats) (signable_dict abi) = Inr fss"
    and fs: "set (ar_findings r) = set (orphan_findings (signable_dict abi) formats) \<union> \<Union> (set ` set fss)" by blast
  have "signature fn \<in> fst ` set (signable_dict abi)"
    using assms(2) by (simp add: signable_dict_def signable_dict_keys)
  then obtain gn where "(signature fn, gn) \<in> set (signable_dict abi)" by force
  from res_map_Inr_mem [OF fss this] obtain f where "[f] \<in> set fss" "af_severity f = HIGH"
    by (auto simp: function_findings_def assms(3) finding_def split: if_splits)
  then show ?thesis unfolding audit_severities_def fs set_map by force
qed

lemma function_binding_Inr:
  assumes "function_binding formats fn = Inr b" "pb_findings (snd b) = []"
  shows "validate_selected_function fn = Inr ()
    \<and> b = (signature fn, presentation_binding fn (map_of formats (signature fn))
             (if is_payable fn \<or> fn_payable fn = Some True then 1 else 0) None)"
  using assms by (auto simp: function_binding_def Let_def split: sum.splits pf_failure.splits)

lemma overall_verdict_Safe:
  "vd_gate (overall_verdict a d c) = SafeToPresent \<longleftrightarrow>
     dr_signable d \<noteq> 0 \<and> (\<forall>s\<in>set (audit_severities a). s \<notin> {CRITICAL, HIGH, MEDIUM})
     \<and> (\<forall>f\<in>set (dr_findings d). df_severity f \<notin> {CRITICAL, HIGH, MEDIUM}) \<and> cr_worst c \<notin> {CRITICAL, HIGH}"
  by (simp add: overall_verdict_def Let_def) force

lemma scan_findings: "f \<in> set (dr_findings (scan_abi abi)) \<Longrightarrow> df_severity f \<in> {CRITICAL, HIGH, MEDIUM}"
  using assess_severity by (auto simp: scan_abi_def Let_def)

lemma check_descriptor_Inr:
  assumes "check_descriptor env (PDict d) = Inr r"
  shows "\<exists>desc abi formats. map_of d ''descriptor'' = Some desc
     \<and> validated_descriptor env desc = Inr (abi, formats) \<and> audit abi formats = Inr (de_audit r)
     \<and> comprehend abi formats = Inr (de_comprehension r) \<and> de_danger r = scan_abi abi
     \<and> res_map (function_binding formats) (signable_functions abi) = Inr (de_bindings r)
     \<and> de_verdict r = (if list_ex (\<lambda>b. pb_findings (snd b) \<noteq> []) (de_bindings r)
                       then verdict_for Block ''PRESENTATION_UNBOUND''
                       else overall_verdict (de_audit r) (de_danger r) (de_comprehension r))"
proof (cases "map_of d ''descriptor''")
  case None
  then show ?thesis using assms by (simp add: check_descriptor_def)
next
  case (Some desc)
  then show ?thesis using assms
    by (auto simp: check_descriptor_def res_bind_Inr_iff Let_def)
qed

text \<open>
  C34: A descriptor that \<open>check_descriptor\<close> finds safe to present is safe as a whole: it has
  a signable function; every signable function has a format under its exact signature,
  in which every input is a scalar shown by an always-visible field with its path and, if
  the function can receive value, that value is always visible; no danger finding and no
  audit finding above low remains.
\<close>

theorem descriptor_clear:
  assumes "check_descriptor env (PDict d) = Inr r" and "vd_gate (de_verdict r) = SafeToPresent"
  shows "\<exists>desc abi formats. map_of d ''descriptor'' = Some desc
     \<and> validated_descriptor env desc = Inr (abi, formats) \<and> signable_functions abi \<noteq> []
     \<and> dr_findings (de_danger r) = [] \<and> set (audit_severities (de_audit r)) \<subseteq> {LOW, INFO}
     \<and> (\<forall>fn\<in>set (signable_functions abi). \<exists>fm. map_of formats (signature fn) = Some fm
          \<and> (\<forall>i\<in>set (fn_inputs fn). is_leaf i \<and> (\<exists>f\<in>set (fm_fields fm). binds_argument fn i f))
          \<and> (accepts_value fn \<longrightarrow> (\<exists>f\<in>set (fm_fields fm). fd_path f = Some ''@.value''
               \<and> fd_visible f = Some ''always'' \<and> fd_format f = Some ''amount'')))"
proof -
  from check_descriptor_Inr [OF assms(1)] obtain desc abi formats where
    desc: "map_of d ''descriptor'' = Some desc" "validated_descriptor env desc = Inr (abi, formats)"
    and au: "audit abi formats = Inr (de_audit r)" and dr: "de_danger r = scan_abi abi"
    and bs: "res_map (function_binding formats) (signable_functions abi) = Inr (de_bindings r)"
    and v: "de_verdict r = (if list_ex (\<lambda>b. pb_findings (snd b) \<noteq> []) (de_bindings r)
                       then verdict_for Block ''PRESENTATION_UNBOUND''
                       else overall_verdict (de_audit r) (de_danger r) (de_comprehension r))" by blast
  have unbound: "\<forall>b\<in>set (de_bindings r). pb_findings (snd b) = []"
    using assms(2) unfolding v by (auto simp: list_ex_iff split: if_splits)
  have overall: "vd_gate (overall_verdict (de_audit r) (de_danger r) (de_comprehension r)) = SafeToPresent"
    using assms(2) unfolding v by (auto split: if_splits)
  note clear = overall [unfolded overall_verdict_Safe]
  have no_danger: "dr_findings (de_danger r) = []"
    using clear scan_findings [of _ abi] unfolding dr by (cases "dr_findings (scan_abi abi)") auto
  have some: "signable_functions abi \<noteq> []" using clear by (auto simp: dr scan_abi_def Let_def)
  have each: "\<exists>fm. map_of formats (signature fn) = Some fm
      \<and> (\<forall>i\<in>set (fn_inputs fn). is_leaf i \<and> (\<exists>f\<in>set (fm_fields fm). binds_argument fn i f))
      \<and> (accepts_value fn \<longrightarrow> (\<exists>f\<in>set (fm_fields fm). fd_path f = Some ''@.value''
           \<and> fd_visible f = Some ''always'' \<and> fd_format f = Some ''amount''))"
    if fn: "fn \<in> set (signable_functions abi)" for fn
  proof -
    obtain fm where fm: "map_of formats (signature fn) = Some fm"
      using audit_uncovered [OF au fn] clear by fastforce
    from res_map_Inr_mem [OF bs fn] unbound obtain b where
      "function_binding formats fn = Inr b" "pb_findings (snd b) = []" by blast
    from function_binding_Inr [OF this] this(2) fm have
      ok: "validate_selected_function fn = Inr ()"
      and c: "pb_complete (presentation_binding fn (Some fm)
                (if is_payable fn \<or> fn_payable fn = Some True then 1 else 0) None)"
      by (auto simp: binding_complete_iff)
    have "accepts_value fn \<longrightarrow> is_payable fn \<or> fn_payable fn = Some True"
      by (auto simp: accepts_value_def is_payable_def split: option.splits)
    with binding_fields [OF c ok] fm show ?thesis by auto
  qed
  have "set (audit_severities (de_audit r)) \<subseteq> {LOW, INFO}" using clear not_serious(1) by blast
  with desc some no_danger each show ?thesis by blast
qed

lemma toy_check:
  "\<exists>r. check_descriptor toy_env (PDict [(''descriptor'', toy_transfer_descriptor)]) = Inr r
     \<and> vd_gate (de_verdict r) = SafeToPresent"
proof -
  let ?abi = "[FunctionEntry toy_transfer]" and ?fs = "[(''transfer(address,uint256)'', toy_transfer_format)]"
  have "map_sum id (\<lambda>r. set (audit_severities r) \<subseteq> {LOW}) (audit ?abi ?fs) = Inr True" by code_simp
  then obtain a where a: "audit ?abi ?fs = Inr a" "set (audit_severities a) \<subseteq> {LOW}"
    by (cases "audit ?abi ?fs") auto
  have "map_sum id cr_worst (comprehend ?abi ?fs) = Inr MEDIUM" by code_simp
  then obtain c where c: "comprehend ?abi ?fs = Inr c" "cr_worst c = MEDIUM"
    by (cases "comprehend ?abi ?fs") auto
  have b: "res_map (function_binding ?fs) (signable_functions ?abi)
      = Inr [(''transfer(address,uint256)'', \<lparr>pb_complete = True, pb_findings = []\<rparr>)]" by code_simp
  have d: "dr_findings (scan_abi ?abi) = []" "dr_signable (scan_abi ?abi) = 1" by code_simp+
  have "vd_gate (overall_verdict a (scan_abi ?abi) c) = SafeToPresent"
    using a(2) by (auto simp: overall_verdict_Safe c(2) d)
  then show ?thesis
    by (simp add: check_descriptor_def toy_validated a(1) c(1) b Let_def del: signable_functions.simps)
qed

theorem descriptor_clear_witness:
  "\<exists>r. check_descriptor toy_env (PDict [(''descriptor'', toy_transfer_descriptor)]) = Inr r
     \<and> dr_findings (de_danger r) = []"
  using toy_check descriptor_clear by blast

text \<open>
  An input without a name passes \<open>validate_abi\<close>, but the audit of its function indexes
  \<open>i["name"]\<close>: the \<open>KeyError\<close> leaves \<open>check_descriptor\<close>.
\<close>

lemma unnamed_input_escapes:
  "audit [FunctionEntry \<lparr>fn_name = ''f'', fn_inputs = [AbiInput None ''address'' []],
     fn_mutability = None, fn_payable = None\<rparr>] [(''f(address)'', toy_fmt)] = Inl (KeyError ''name'')"
  by code_simp

section \<open>Explaining one signature\<close>

lemma comprehend_functions:
  assumes "comprehend abi formats = Inr c"
  shows "\<exists>rs. res_map (\<lambda>fn. res_bind (classify fn (map_of formats (signature fn)))
          (\<lambda>c. Inr \<lparr>fr_function = fn_name fn, fr_signature = signature fn, fr_result = c\<rparr>))
         (signable_functions abi) = Inr rs \<and> set (cr_functions c) = set rs"
  using assms by (auto simp: comprehend_def res_bind_Inr_iff Let_def)

lemma comprehend_function_iff:
  assumes "comprehend abi formats = Inr c"
  shows "fr \<in> set (cr_functions c) \<longrightarrow> (\<exists>fn\<in>set (signable_functions abi). fr_signature fr = signature fn
           \<and> fr_function fr = fn_name fn \<and> classify fn (map_of formats (signature fn)) = Inr (fr_result fr))"
    and "fn \<in> set (signable_functions abi) \<longrightarrow> signature fn \<in> fr_signature ` set (cr_functions c)"
proof -
  from comprehend_functions [OF assms] obtain rs where
    rs: "res_map (\<lambda>fn. res_bind (classify fn (map_of formats (signature fn)))
          (\<lambda>c. Inr \<lparr>fr_function = fn_name fn, fr_signature = signature fn, fr_result = c\<rparr>))
         (signable_functions abi) = Inr rs" and set_rs: "set (cr_functions c) = set rs" by blast
  show "fr \<in> set (cr_functions c) \<longrightarrow> (\<exists>fn\<in>set (signable_functions abi). fr_signature fr = signature fn
           \<and> fr_function fr = fn_name fn \<and> classify fn (map_of formats (signature fn)) = Inr (fr_result fr))"
    using res_map_Inr_set [OF rs, of fr] unfolding set_rs by (force simp: res_bind_Inr_iff)
  show "fn \<in> set (signable_functions abi) \<longrightarrow> signature fn \<in> fr_signature ` set (cr_functions c)"
    using res_map_Inr_mem [OF rs, of fn] unfolding set_rs by (force simp: res_bind_Inr_iff)
qed

text \<open>
  \<open>explain_signature\<close> answers for exactly the signature asked: an explanation is the
  classification of a signable function of the ABI with that signature under that
  signature's format; a signature is reported as not found only if no signable function
  has it, and the available signatures listed are then all the signable ones.
\<close>

theorem explain_signature_exact:
  assumes "explain_signature env (PDict d) = Inr x" and "dget d ''signature'' = PStr sig" and "sig \<noteq> []"
  shows "\<exists>abi formats. validated_descriptor env (dget d ''descriptor'') = Inr (abi, formats)
    \<and> (\<forall>fr. x = Explained fr \<longrightarrow> fr_signature fr = sig
         \<and> (\<exists>fn\<in>set (signable_functions abi). signature fn = sig \<and> fr_function fr = fn_name fn
              \<and> classify fn (map_of formats sig) = Inr (fr_result fr)))
    \<and> (\<forall>sigs. x = NotFound sigs \<longrightarrow> sig \<notin> signature ` set (signable_functions abi)
         \<and> set sigs = signature ` set (signable_functions abi))"
proof -
  from assms obtain abi formats c where
    v: "validated_descriptor env (dget d ''descriptor'') = Inr (abi, formats)"
    and c: "comprehend abi formats = Inr c"
    and x: "(case filter (\<lambda>r. text_is (PStr sig) (fr_signature r)) (cr_functions c) of
               [] \<Rightarrow> Inr (NotFound (map fr_signature (cr_functions c)))
             | [r] \<Rightarrow> Inr (Explained r)
             | _ # _ # _ \<Rightarrow> Inr (Overloaded (map fr_signature
                 (filter (\<lambda>r. text_is (PStr sig) (fr_signature r)) (cr_functions c))))) = (Inr x :: pf_failure + explanation)"
    by (auto simp: explain_signature_def res_bind_Inr_iff Let_def)
  note iff = comprehend_function_iff [OF c]
  have sigs: "fr_signature ` set (cr_functions c) = signature ` set (signable_functions abi)"
    using iff by force
  have found: "fr \<in> set (cr_functions c) \<and> fr_signature fr = sig" if "x = Explained fr" for fr
  proof -
    have "filter (\<lambda>r. text_is (PStr sig) (fr_signature r)) (cr_functions c) = [fr]"
      using x that by (auto split: list.splits)
    then have "fr \<in> set (filter (\<lambda>r. text_is (PStr sig) (fr_signature r)) (cr_functions c))" by simp
    then show ?thesis by (simp add: text_is_def)
  qed
  have missing: "sig \<notin> fr_signature ` set (cr_functions c) \<and> set l = fr_signature ` set (cr_functions c)"
    if "x = NotFound l" for l
    using x that by (auto simp: text_is_def filter_empty_conv split: list.splits)
  show ?thesis using v found missing iff(1) unfolding sigs by metis
qed

theorem explain_signature_exact_witness:
  "\<exists>x. explain_signature toy_env (PDict [(''descriptor'', toy_transfer_descriptor), (''signature'', PStr ''f()'')])
      = Inr x \<and> (\<forall>fr. x \<noteq> Explained fr)"
proof -
  let ?abi = "[FunctionEntry toy_transfer]" and ?fs = "[(''transfer(address,uint256)'', toy_transfer_format)]"
  have "succeeds (comprehend ?abi ?fs)" by code_simp
  then obtain c where c: "comprehend ?abi ?fs = Inr c" by (auto simp: succeeds_def)
  have "\<exists>x. explain_signature toy_env (PDict [(''descriptor'', toy_transfer_descriptor), (''signature'', PStr ''f()'')]) = Inr x"
    by (simp add: explain_signature_def toy_validated c Let_def split: list.split)
  then obtain x where x: "explain_signature toy_env
      (PDict [(''descriptor'', toy_transfer_descriptor), (''signature'', PStr ''f()'')]) = Inr x" by blast
  have "x \<noteq> Explained fr" for fr
  proof
    assume "x = Explained fr"
    with explain_signature_exact [OF x, of "''f()''"] toy_validated have "signature toy_transfer = ''f()''"
      by (auto simp: toy_transfer_def is_signable_def VIEW_def)
    moreover have "signature toy_transfer = ''transfer(address,uint256)''" by code_simp
    ultimately show False by simp
  qed
  with x show ?thesis by blast
qed

end
