(* ===== verification/Bounded_Http.thy ===== *)
theory Bounded_Http
  imports Hex_Text
begin

text \<open>
  The bounded HTTP and JSON-RPC clients of \<open>lucent/verified_source.py\<close>. The transport,
  the clock and \<open>json.loads\<close> are parameters: the transport answers the n-th request of a
  resolution, the clock gives the time left at it, and \<open>loads\<close> is the decoding of the
  body with the two hooks, \<open>None\<close> for any exception it raises. The state counts requests
  and calls.
\<close>

section \<open>Errors and limits\<close>

datatype vs_failure = VsError (vs_code: pystr) (vs_message: pystr)

definition vs_error :: "pystr \<Rightarrow> pystr \<Rightarrow> vs_failure + 'a" where
  "vs_error cd msg = Inl (VsError cd msg)"

definition MAX_CODE_BYTES :: int where "MAX_CODE_BYTES = 128 * 1024"
definition MAX_ABI_BYTES :: int where "MAX_ABI_BYTES = 1024 * 1024"
definition VS_MAX_JSON_DEPTH :: int where "VS_MAX_JSON_DEPTH = 24"
definition MAX_JSON_NODES :: int where "MAX_JSON_NODES = 100000"
definition MAX_JSON_STRING_LENGTH :: int where "MAX_JSON_STRING_LENGTH = 2 * MAX_CODE_BYTES + 2"
definition MAX_HTTP_REQUESTS :: int where "MAX_HTTP_REQUESTS = 32"
definition MAX_RPC_CALLS :: int where "MAX_RPC_CALLS = 28"
definition RPC_RESPONSE_BYTES :: int where "RPC_RESPONSE_BYTES = 2 * MAX_CODE_BYTES + 64 * 1024"
definition SOURCIFY_RESPONSE_BYTES :: int where
  "SOURCIFY_RESPONSE_BYTES = MAX_ABI_BYTES + 2 * MAX_CODE_BYTES + 256 * 1024"
definition REQUEST_TIMEOUT_SECONDS :: rat where "REQUEST_TIMEOUT_SECONDS = 4"

definition RPC_ENDPOINTS :: "(int \<times> pystr) list" where
  "RPC_ENDPOINTS = [(1, ''https://ethereum-rpc.publicnode.com''), (8453, ''https://mainnet.base.org'')]"

section \<open>The shape of a JSON value\<close>

text \<open>The nodes of a value, object keys included.\<close>

fun json_nodes :: "pyval \<Rightarrow> nat" where
  "json_nodes (PList xs) = Suc (sum_list (map json_nodes xs))"
| "json_nodes (PDict kvs) = Suc (sum_list (map (\<lambda>kv. Suc (json_nodes (snd kv))) kvs))"
| "json_nodes v = 1"

definition pushed_items :: "int \<Rightarrow> (pystr \<times> pyval) list \<Rightarrow> (pyval \<times> int) list" where
  "pushed_items depth kvs = rev (concat (map (\<lambda>kv. [(PStr (fst kv), depth + 1), (snd kv, depth + 1)]) kvs))"

definition pushed_children :: "int \<Rightarrow> pyval list \<Rightarrow> (pyval \<times> int) list" where
  "pushed_children depth xs = rev (map (\<lambda>c. (c, depth + 1)) xs)"

definition stack_nodes :: "(pyval \<times> int) list \<Rightarrow> nat" where
  "stack_nodes st = sum_list (map (\<lambda>x. json_nodes (fst x)) st)"

lemma stack_nodes_simps [simp]:
  "stack_nodes [] = 0" "stack_nodes (x # st) = json_nodes (fst x) + stack_nodes st"
  "stack_nodes (st @ st') = stack_nodes st + stack_nodes st'" "stack_nodes (rev st) = stack_nodes st"
  by (simp_all add: stack_nodes_def rev_map [symmetric] sum_list_rev)

lemma stack_nodes_pushed [simp]:
  "stack_nodes (pushed_items d kvs) = sum_list (map (\<lambda>kv. Suc (json_nodes (snd kv))) kvs)"
  "stack_nodes (pushed_children d xs) = sum_list (map json_nodes xs)"
  by (induction kvs) (simp_all add: pushed_items_def pushed_children_def stack_nodes_def comp_def
      rev_map [symmetric] sum_list_rev)

text \<open>The loop of \<open>_validate_json_shape\<close>; \<open>False\<close> is \<open>ValueError\<close>. The stack's top comes first.\<close>

function shape_loop :: "int \<Rightarrow> (pyval \<times> int) list \<Rightarrow> bool" where
  "shape_loop nodes [] = True"
| "shape_loop nodes ((item, depth) # stack) =
     (let n = nodes + 1 in
      if MAX_JSON_NODES < n \<or> VS_MAX_JSON_DEPTH < depth then False
      else
        (case item of
           PStr s \<Rightarrow> if MAX_JSON_STRING_LENGTH < int (length s) then False else shape_loop n stack
         | PDict kvs \<Rightarrow> shape_loop n (pushed_items depth kvs @ stack)
         | PList xs \<Rightarrow> shape_loop n (pushed_children depth xs @ stack)
         | PNone \<Rightarrow> shape_loop n stack
         | PBool b \<Rightarrow> shape_loop n stack
         | PInt i \<Rightarrow> shape_loop n stack
         | _ \<Rightarrow> False))"
  by pat_completeness auto
termination
  by (relation "measure (\<lambda>(n, st). stack_nodes st)") simp_all

declare shape_loop.simps(2) [simp del]

definition validate_json_shape :: "pyval \<Rightarrow> bool" where
  "validate_json_shape v = shape_loop 0 [(v, 0)]"

section \<open>The HTTP client\<close>

record http_request =
  hq_method :: pystr
  hq_url :: pystr
  hq_headers :: "(pystr \<times> pystr) list"
  hq_body :: "bytes option"
  hq_timeout :: rat
  hq_limit :: int

text \<open>Headers and body are absent when the transport's objects are not a mapping or bytes.\<close>

record http_response =
  hr_status :: pyval
  hr_headers :: "(pystr \<times> pystr) list option"
  hr_body :: "bytes option"

datatype reply = Reply http_response | NotAResponse | TransportLimit | TransportFails

record vs_env =
  ve_transport :: "nat \<Rightarrow> http_request \<Rightarrow> reply"
  ve_remaining :: "nat \<Rightarrow> rat"
  ve_loads :: "bytes \<Rightarrow> pyval option"
  ve_float_text :: "rat \<Rightarrow> pystr"
  ve_keccak :: "bytes \<Rightarrow> bytes"
  ve_sha256 :: "bytes \<Rightarrow> bytes"

record vs_state =
  vs_requests :: nat
  vs_calls :: nat
  vs_next_id :: int

definition fresh_client :: vs_state where
  "fresh_client = \<lparr>vs_requests = 0, vs_calls = 0, vs_next_id = 1\<rparr>"

type_synonym 'a vs = "(vs_state, vs_failure, 'a) st"

definition vs_raise :: "pystr \<Rightarrow> pystr \<Rightarrow> 'a vs" where
  "vs_raise cd msg = st_raise (VsError cd msg)"

definition vs_lift :: "vs_failure + 'a \<Rightarrow> 'a vs" where
  "vs_lift m s = (m, s)"

definition header :: "(pystr \<times> pystr) list \<Rightarrow> pystr \<Rightarrow> pystr option" where
  "header hs name = map_option snd (find (\<lambda>kv. py_lower (fst kv) = py_lower name) hs)"

text \<open>\<open>int(text)\<close>: optional sign, decimal digits with single underscores between, blanks around.\<close>

fun digits_ok :: "bool \<Rightarrow> pystr \<Rightarrow> bool" where
  "digits_ok after [] = after"
| "digits_ok after (c # s) =
     (if is_digit c then digits_ok True s else c = CHR ''_'' \<and> after \<and> digits_ok False s)"

definition digits_value :: "pystr \<Rightarrow> int" where
  "digits_value s = foldl (\<lambda>n c. 10 * n + (int (code c) - 48)) 0 (filter is_digit s)"

text \<open>Python's limit on converting between text and integers, in digits.\<close>

definition MAX_STR_DIGITS :: int where "MAX_STR_DIGITS = 4300"

definition py_int_text :: "pystr \<Rightarrow> int option" where
  "py_int_text t =
     (let s = py_strip t;
          body = (if take 1 s \<in> {''+'', ''-''} then drop 1 s else s) in
      if digits_ok False body \<and> int (length (filter is_digit body)) \<le> MAX_STR_DIGITS
      then Some (if take 1 s = ''-'' then - digits_value body else digits_value body) else None)"

definition invalid_response :: "pystr \<Rightarrow> vs_failure + 'a" where
  "invalid_response msg = vs_error ''INVALID_UPSTREAM_RESPONSE'' msg"

definition load_json :: "vs_env \<Rightarrow> bytes \<Rightarrow> vs_failure + pyval" where
  "load_json env body =
     (case ve_loads env body of
        None \<Rightarrow> invalid_response ''upstream returned invalid bounded JSON''
      | Some v \<Rightarrow> if validate_json_shape v then Inr v
                  else invalid_response ''upstream returned invalid bounded JSON'')"

definition check_length :: "int \<Rightarrow> bytes \<Rightarrow> pystr option \<Rightarrow> vs_failure + unit" where
  "check_length limit body len =
     (case len of
        None \<Rightarrow> Inr ()
      | Some t \<Rightarrow>
          if t = [] then Inr ()
          else
            (case py_int_text t of
               None \<Rightarrow> invalid_response ''upstream returned an invalid content length''
             | Some n \<Rightarrow>
                 if n < 0 \<or> n \<noteq> int (length body) \<or> limit < n
                 then invalid_response ''upstream returned an invalid content length'' else Inr ()))"

definition is_json_type :: "pystr \<Rightarrow> bool" where
  "is_json_type content_type \<longleftrightarrow>
     (let media = py_lower (py_strip (takeWhile (\<lambda>c. c \<noteq> CHR '';'') content_type))
      in media = ''application/json'' \<or> py_endswith media ''+json'')"

text \<open>What the client makes of a response: the checks after the transport returned.\<close>

definition check_response ::
  "vs_env \<Rightarrow> int \<Rightarrow> pystr option \<Rightarrow> http_response \<Rightarrow> vs_failure + pyval" where
  "check_response env limit not_found r =
     (case hr_status r of
        PInt status \<Rightarrow>
          if status = 404 \<and> not_found \<noteq> None
          then vs_error (the not_found) ''no verified runtime source was found''
          else if status \<noteq> 200
          then vs_error ''UPSTREAM_UNAVAILABLE'' ''a required upstream service was unavailable''
          else
            (case (hr_headers r, hr_body r) of
               (Some headers, Some body) \<Rightarrow>
                 if limit < int (length body)
                 then vs_error ''UPSTREAM_RESPONSE_TOO_LARGE'' ''upstream response exceeded its hard size limit''
                 else
                   res_bind (check_length limit body (header headers ''content-length''))
                   (\<lambda>_. case header headers ''content-type'' of
                      None \<Rightarrow> invalid_response ''upstream response was not JSON''
                    | Some t \<Rightarrow> if is_json_type t then load_json env body
                                else invalid_response ''upstream response was not JSON'')
             | _ \<Rightarrow> invalid_response ''transport returned an invalid response'')
      | _ \<Rightarrow> invalid_response ''transport returned an invalid status'')"

definition http_json ::
  "vs_env \<Rightarrow> pystr \<Rightarrow> pystr \<Rightarrow> bytes option \<Rightarrow> int \<Rightarrow> pystr option \<Rightarrow> pyval vs" where
  "http_json env meth url body limit not_found s =
     (let n = Suc (vs_requests s); s1 = s\<lparr>vs_requests := n\<rparr>; remaining = ve_remaining env n in
      if MAX_HTTP_REQUESTS < int n \<or> remaining \<le> 0
      then (vs_error ''UPSTREAM_TIMEOUT'' ''verified resolution exceeded its hard deadline'', s1)
      else
        let request = \<lparr>hq_method = meth, hq_url = url,
              hq_headers = [(''Accept'', ''application/json''), (''User-Agent'', ''lucent-verified-source/0.2'')]
                @ (if body \<noteq> None then [(''Content-Type'', ''application/json'')] else []),
              hq_body = body, hq_timeout = min REQUEST_TIMEOUT_SECONDS remaining, hq_limit = limit\<rparr>
        in
          (case ve_transport env n request of
             TransportLimit \<Rightarrow> vs_error ''UPSTREAM_RESPONSE_TOO_LARGE'' ''upstream response exceeded its hard size limit''
           | TransportFails \<Rightarrow> vs_error ''UPSTREAM_UNAVAILABLE'' ''a required upstream service was unavailable''
           | NotAResponse \<Rightarrow> invalid_response ''transport returned an invalid response''
           | Reply r \<Rightarrow> check_response env limit not_found r, s1))"

section \<open>The JSON-RPC client\<close>

definition rpc_body :: "vs_env \<Rightarrow> int \<Rightarrow> pystr \<Rightarrow> pyval list \<Rightarrow> bytes option" where
  "rpc_body env i meth params =
     map_option utf8 (json_text (ve_float_text env) False True
       (PDict [(''jsonrpc'', PStr ''2.0''), (''id'', PInt i), (''method'', PStr meth), (''params'', PList params)]))"

definition rpc_result :: "int \<Rightarrow> pyval \<Rightarrow> vs_failure + pyval" where
  "rpc_result i response =
     (let err = vs_error ''INVALID_RPC_RESPONSE'' in
      case response of
        PDict d \<Rightarrow>
          if dget d ''jsonrpc'' \<noteq> PStr ''2.0'' then err ''JSON-RPC version was invalid''
          else if dget d ''id'' \<noteq> PInt i then err ''JSON-RPC response id did not match''
          else if map_of d ''error'' \<noteq> None then vs_error ''RPC_REQUEST_FAILED'' ''a required JSON-RPC method failed''
          else (case map_of d ''result'' of
                  None \<Rightarrow> vs_error ''RPC_REQUEST_FAILED'' ''a required JSON-RPC method failed''
                | Some v \<Rightarrow> Inr v)
      | _ \<Rightarrow> err ''JSON-RPC response was not an object'')"

definition rpc_call :: "vs_env \<Rightarrow> int \<Rightarrow> pystr \<Rightarrow> pyval list \<Rightarrow> pyval vs" where
  "rpc_call env chain meth params s =
     (let s1 = s\<lparr>vs_calls := Suc (vs_calls s)\<rparr> in
      if MAX_RPC_CALLS < int (vs_calls s1)
      then (vs_error ''RPC_CALL_LIMIT'' ''verified resolution exceeded its RPC call limit'', s1)
      else
        let i = vs_next_id s1; s2 = s1\<lparr>vs_next_id := i + 1\<rparr> in
        st_bind (http_json env ''POST'' (the (map_of RPC_ENDPOINTS chain)) (rpc_body env i meth params)
                   RPC_RESPONSE_BYTES None)
          (\<lambda>response. vs_lift (rpc_result i response)) s2)"

lemma rpc_call_unfold:
  "rpc_call env chain meth params s =
     (if 28 < int (Suc (vs_calls s))
      then (vs_error ''RPC_CALL_LIMIT'' ''verified resolution exceeded its RPC call limit'', s\<lparr>vs_calls := Suc (vs_calls s)\<rparr>)
      else
        st_bind (http_json env ''POST'' (the (map_of RPC_ENDPOINTS chain)) (rpc_body env (vs_next_id s) meth params)
            RPC_RESPONSE_BYTES None)
          (\<lambda>response. vs_lift (rpc_result (vs_next_id s) response))
          (s\<lparr>vs_calls := Suc (vs_calls s), vs_next_id := vs_next_id s + 1\<rparr>))"
  by (simp add: rpc_call_def Let_def MAX_RPC_CALLS_def)

section \<open>Facts: the shape\<close>

text \<open>The bound on every node by structure: depth, text length, and the kinds allowed.\<close>

fun json_bounded :: "int \<Rightarrow> pyval \<Rightarrow> bool" where
  "json_bounded d (PStr s) \<longleftrightarrow> d \<le> 24 \<and> length s \<le> 262146"
| "json_bounded d (PDict kvs) \<longleftrightarrow> d \<le> 24
     \<and> list_all (\<lambda>kv. length (fst kv) \<le> 262146 \<and> json_bounded (d + 1) (snd kv)) kvs"
| "json_bounded d (PList xs) \<longleftrightarrow> d \<le> 24 \<and> list_all (json_bounded (d + 1)) xs"
| "json_bounded d PNone \<longleftrightarrow> d \<le> 24"
| "json_bounded d (PBool b) \<longleftrightarrow> d \<le> 24"
| "json_bounded d (PInt i) \<longleftrightarrow> d \<le> 24"
| "json_bounded d v \<longleftrightarrow> False"

lemma json_bounded_depth: "json_bounded d v \<Longrightarrow> d \<le> 24"
  by (cases v) auto

lemma pushed_children_all:
  "(\<forall>x\<in>set (pushed_children d xs). json_bounded (snd x) (fst x)) \<longleftrightarrow> list_all (json_bounded (d + 1)) xs"
  by (auto simp: pushed_children_def list_all_iff)

lemma pushed_items_all:
  "(\<forall>x\<in>set (pushed_items d kvs). json_bounded (snd x) (fst x)) \<longleftrightarrow>
     list_all (\<lambda>kv. length (fst kv) \<le> 262146 \<and> json_bounded (d + 1) (snd kv)) kvs"
  using json_bounded_depth [of "d + 1"] by (fastforce simp: pushed_items_def list_all_iff)

lemma shape_loop_bounded:
  "nodes \<le> 100000 \<Longrightarrow> shape_loop nodes st \<longleftrightarrow>
     nodes + int (stack_nodes st) \<le> 100000 \<and> (\<forall>x\<in>set st. json_bounded (snd x) (fst x))"
proof (induction nodes st rule: shape_loop.induct)
  case (1 nodes)
  then show ?case by simp
next
  case (2 nodes item depth stack)
  have pos: "1 \<le> json_nodes item" by (cases item) auto
  show ?case
  proof (cases "100000 < nodes + 1 \<or> 24 < depth")
    case True
    then show ?thesis using pos json_bounded_depth [of depth item]
      by (auto simp: shape_loop.simps(2) MAX_JSON_NODES_def VS_MAX_JSON_DEPTH_def)
  next
    case False
    then have ok: "\<not> (MAX_JSON_NODES < nodes + 1 \<or> VS_MAX_JSON_DEPTH < depth)" "nodes + 1 \<le> 100000" "depth \<le> 24"
      by (auto simp: MAX_JSON_NODES_def VS_MAX_JSON_DEPTH_def)
    note IH = "2.IH" [OF refl ok(1)]
    have step: "shape_loop nodes ((item, depth) # stack) = (case item of
           PStr s \<Rightarrow> if MAX_JSON_STRING_LENGTH < int (length s) then False else shape_loop (nodes + 1) stack
         | PDict kvs \<Rightarrow> shape_loop (nodes + 1) (pushed_items depth kvs @ stack)
         | PList xs \<Rightarrow> shape_loop (nodes + 1) (pushed_children depth xs @ stack)
         | PNone \<Rightarrow> shape_loop (nodes + 1) stack
         | PBool b \<Rightarrow> shape_loop (nodes + 1) stack
         | PInt i \<Rightarrow> shape_loop (nodes + 1) stack
         | _ \<Rightarrow> False)"
      unfolding shape_loop.simps(2) Let_def using ok(1) by simp
    show ?thesis
    proof (cases item)
      case (PStr s)
      then show ?thesis unfolding step using ok IH(4) [OF PStr _ ok(2)]
        by (auto simp: MAX_JSON_STRING_LENGTH_def MAX_CODE_BYTES_def)
    next
      case (PDict kvs)
      then show ?thesis unfolding step using ok IH(6) [OF PDict ok(2)] by (simp add: ball_Un pushed_items_all)
    next
      case (PList xs)
      then show ?thesis unfolding step using ok IH(5) [OF PList ok(2)] by (simp add: ball_Un pushed_children_all)
    qed (unfold step, use ok IH in auto)
  qed
qed

text \<open>
  C26: The iterative shape check is the structural one. The stack loop accepts a decoded
  response exactly if it has at most 100000 nodes, object keys counted, none deeper than
  24 levels, no text or key longer than 262146 characters, and no float.
\<close>

theorem json_shape_exact:
  "validate_json_shape v \<longleftrightarrow> json_nodes v \<le> 100000 \<and> json_bounded 0 v"
  by (simp add: validate_json_shape_def shape_loop_bounded)

end
