(* ===== verification/Evm_Code.thy ===== *)
theory Evm_Code
  imports Py_Json
begin

text \<open>
  Runtime bytecode in \<open>lucent/verified_source.py\<close>: the definite-length CBOR reader, the
  recognition of Solidity's metadata trailer and the scan for dynamic dispatch outside
  PUSH data. A byte is an 8-bit word; the integers the code reads from bytes are
  unbounded as in Python.
\<close>

section \<open>CBOR\<close>

text \<open>\<open>int.from_bytes\<close>, big-endian.\<close>

definition be_nat :: "bytes \<Rightarrow> nat" where
  "be_nat bs = foldl (\<lambda>n b. 256 * n + unat b) 0 bs"

text \<open>The size in bytes of a length that follows the initial byte, and its least value.\<close>

definition length_bytes :: "nat \<Rightarrow> nat option" where
  "length_bytes additional =
     (if additional = 24 then Some 1 else if additional = 25 then Some 2
      else if additional = 26 then Some 4 else None)"

definition least_length :: "nat \<Rightarrow> nat" where
  "least_length k = (if k = 1 then 24 else if k = 2 then 2 ^ 8 else 2 ^ 16)"

definition cbor_length :: "bytes \<Rightarrow> nat \<Rightarrow> nat \<Rightarrow> (nat \<times> nat) option" where
  "cbor_length v offset major =
     (if length v \<le> offset then None
      else
        let initial = unat (v ! offset); additional = take_bit 5 initial; off = offset + 1 in
        if drop_bit 5 initial \<noteq> major then None
        else if additional < 24 then Some (additional, off)
        else
          (case length_bytes additional of
             None \<Rightarrow> None
           | Some k \<Rightarrow>
               if length v < off + k then None
               else
                 let n = be_nat (take k (drop off v)) in
                 if n < least_length k then None else Some (n, off + k)))"

definition cbor_blob :: "bytes \<Rightarrow> nat \<Rightarrow> nat \<Rightarrow> (bytes \<times> nat) option" where
  "cbor_blob v offset major =
     (case cbor_length v offset major of
        None \<Rightarrow> None
      | Some (n, content) \<Rightarrow>
          if length v < content + n then None else Some (take n (drop content v), content + n))"

section \<open>Solidity metadata\<close>

definition SOLIDITY_METADATA_KEYS :: "pystr list" where
  "SOLIDITY_METADATA_KEYS = [''ipfs'', ''bzzr0'', ''bzzr1'', ''experimental'', ''solc'']"

definition ascii_text :: "bytes \<Rightarrow> pystr option" where
  "ascii_text bs = (if list_all (\<lambda>b. unat b < 128) bs then Some (map (\<lambda>b. char_of (unat b)) bs) else None)"

definition prerelease_char :: "byte \<Rightarrow> bool" where
  "prerelease_char b \<longleftrightarrow> (let c = char_of (unat b) in is_digit c \<or> is_letter c \<or> c \<in> {CHR ''.'', CHR ''+'', CHR ''-''})"

definition is_prerelease :: "bytes \<Rightarrow> bool" where
  "is_prerelease bs \<longleftrightarrow> 3 \<le> length bs \<and> length bs \<le> 96 \<and> is_digit (char_of (unat (hd bs)))
     \<and> list_all prerelease_char (tl bs)"

text \<open>The value of one key: the offset after it, and 1 for a source hash.\<close>

definition metadata_value :: "bytes \<Rightarrow> pystr \<Rightarrow> nat \<Rightarrow> (nat \<times> nat) option" where
  "metadata_value p key offset =
     (if key = ''experimental'' then
        (if length p \<le> offset \<or> p ! offset \<noteq> 0xF5 then None else Some (offset + 1, 0))
      else if key = ''solc'' then
        (case cbor_blob p offset 2 of
           Some (v, off) \<Rightarrow>
             if length v = 3 then Some (off, 0)
             else (case cbor_blob p offset 3 of
                     None \<Rightarrow> None | Some (t, off') \<Rightarrow> if is_prerelease t then Some (off', 0) else None)
         | None \<Rightarrow>
             (case cbor_blob p offset 3 of
                None \<Rightarrow> None | Some (t, off') \<Rightarrow> if is_prerelease t then Some (off', 0) else None))
      else
        (case cbor_blob p offset 2 of
           None \<Rightarrow> None
         | Some (h, off) \<Rightarrow>
             if key = ''ipfs''
             then (if length h \<noteq> 34 \<or> take 2 h \<noteq> [0x12, 0x20] then None else Some (off, 1))
             else if length h \<noteq> 32 then None else Some (off, 1)))"

text \<open>The loop over the items; \<open>None\<close> is \<open>return False\<close>.\<close>

fun metadata_items :: "bytes \<Rightarrow> nat \<Rightarrow> nat \<Rightarrow> pystr list \<Rightarrow> nat \<Rightarrow> (nat \<times> pystr list \<times> nat) option" where
  "metadata_items p 0 offset keys sources = Some (offset, keys, sources)"
| "metadata_items p (Suc n) offset keys sources =
     (case cbor_blob p offset 3 of
        None \<Rightarrow> None
      | Some (key_bytes, off) \<Rightarrow>
          (case ascii_text key_bytes of
             None \<Rightarrow> None
           | Some key \<Rightarrow>
               if key \<notin> set SOLIDITY_METADATA_KEYS \<or> key \<in> set keys then None
               else
                 (case metadata_value p key off of
                    None \<Rightarrow> None
                  | Some (off', s) \<Rightarrow> metadata_items p n off' (key # keys) (sources + s))))"

definition is_solidity_metadata :: "bytes \<Rightarrow> bool" where
  "is_solidity_metadata p =
     (case cbor_length p 0 5 of
        None \<Rightarrow> False
      | Some (n, offset) \<Rightarrow>
          if \<not> (1 \<le> n \<and> n \<le> length SOLIDITY_METADATA_KEYS) then False
          else
            (case metadata_items p n offset [] 0 of
               None \<Rightarrow> False
             | Some (off, keys, sources) \<Rightarrow> off = length p \<and> ''solc'' \<in> set keys \<and> sources \<le> 1))"

definition without_solidity_metadata :: "bytes \<Rightarrow> bytes" where
  "without_solidity_metadata bytecode =
     (if length bytecode < 4 then bytecode
      else
        let n = be_nat (drop (length bytecode - 2) bytecode);
            start = int (length bytecode) - int n - 2 in
        if n = 0 \<or> start < 1 \<or> bytecode ! (nat start - 1) \<noteq> 0xFE then bytecode
        else if is_solidity_metadata (take (length bytecode - 2 - nat start) (drop (nat start) bytecode))
        then take (nat start) bytecode else bytecode)"

section \<open>Dynamic dispatch\<close>

definition UNSUPPORTED_DISPATCH_OPCODES :: "byte list" where
  "UNSUPPORTED_DISPATCH_OPCODES = [0xF2, 0xF4]"

definition push_size :: "byte \<Rightarrow> nat" where
  "push_size opcode = (if 0x60 \<le> opcode \<and> opcode \<le> 0x7F then unat opcode - 0x5F else 0)"

function scan_dispatch :: "bytes \<Rightarrow> nat \<Rightarrow> bool" where
  "scan_dispatch bytecode offset =
     (if offset < length bytecode then
        (if bytecode ! offset \<in> set UNSUPPORTED_DISPATCH_OPCODES then True
         else scan_dispatch bytecode (offset + 1 + push_size (bytecode ! offset)))
      else False)"
  by pat_completeness auto
termination
  by (relation "measure (\<lambda>(bytecode, offset). length bytecode - offset)") auto

declare scan_dispatch.simps [simp del]

definition has_unsupported_dispatch :: "bytes \<Rightarrow> bool" where
  "has_unsupported_dispatch bytecode = scan_dispatch (without_solidity_metadata bytecode) 0"

section \<open>Facts: lengths\<close>

text \<open>The one minimal encoding of a length below \<open>2 ^ 32\<close>.\<close>

definition be_bytes :: "nat \<Rightarrow> nat \<Rightarrow> bytes" where
  "be_bytes k n = map (\<lambda>i. of_nat (n div 256 ^ i)) (rev [0..<k])"

definition cbor_header :: "nat \<Rightarrow> nat \<Rightarrow> bytes" where
  "cbor_header major n =
     (if n < 24 then [of_nat (32 * major + n)]
      else if n < 2 ^ 8 then of_nat (32 * major + 24) # be_bytes 1 n
      else if n < 2 ^ 16 then of_nat (32 * major + 25) # be_bytes 2 n
      else of_nat (32 * major + 26) # be_bytes 4 n)"

lemma be_nat_snoc: "be_nat (bs @ [b]) = 256 * be_nat bs + unat b"
  by (simp add: be_nat_def)

lemma be_bytes_Suc: "be_bytes (Suc k) n = be_bytes k (n div 256) @ [of_nat n]"
proof -
  have "rev [0..<Suc k] = map Suc (rev [0..<k]) @ [0]"
    by (metis map_Suc_upt rev.simps(2) rev_map upt_conv_Cons zero_less_Suc)
  then show ?thesis by (simp add: be_bytes_def div_mult2_eq del: upt_Suc)
qed

lemma length_be_bytes [simp]: "length (be_bytes k n) = k"
  by (simp add: be_bytes_def)

lemma unat_of_nat_byte: "unat (of_nat n :: byte) = n mod 256"
  by (simp add: unat_of_nat)

lemma be_nat_bytes: "n < 256 ^ k \<Longrightarrow> be_nat (be_bytes k n) = n"
proof (induction k arbitrary: n)
  case 0
  then show ?case by (simp add: be_nat_def be_bytes_def)
next
  case (Suc k)
  then have "n div 256 < 256 ^ k" by (simp add: less_mult_imp_div_less mult.commute)
  then show ?case using Suc.IH by (simp add: be_bytes_Suc be_nat_snoc unat_of_nat_byte)
qed

lemma be_bytes_nat: "be_bytes (length bs) (be_nat bs) = bs"
proof (induction bs rule: rev_induct)
  case Nil
  then show ?case by (simp add: be_bytes_def)
next
  case (snoc b bs)
  have "unat b < 256" by (rule unat_byte_less)
  then have "(256 * be_nat bs + unat b) div 256 = be_nat bs"
    and "(of_nat (256 * be_nat bs + unat b) :: byte) = b"
    by (simp_all add: word_unat_eq_iff unat_of_nat_byte del: of_nat_add of_nat_mult)
  then show ?case using snoc by (simp add: be_bytes_Suc be_nat_snoc del: of_nat_add of_nat_mult)
qed

lemma be_nat_less: "be_nat bs < 256 ^ length bs"
proof (induction bs rule: rev_induct)
  case Nil
  then show ?case by (simp add: be_nat_def)
next
  case (snoc b bs)
  have "unat b < 256" by (rule unat_byte_less)
  with snoc show ?case by (simp add: be_nat_snoc)
qed

lemma cbor_header_length:
  "length (cbor_header major n) = (if n < 24 then 1 else if n < 2 ^ 8 then 2 else if n < 2 ^ 16 then 3 else 5)"
  by (simp add: cbor_header_def)

lemma initial_byte:
  assumes "major < 8" "a < 32"
  shows "take_bit 5 (unat (of_nat (32 * major + a) :: byte)) = a"
    "drop_bit 5 (unat (of_nat (32 * major + a) :: byte)) = major"
proof -
  have "unat (of_nat (32 * major + a) :: byte) = 32 * major + a"
    using assms unfolding unat_of_nat_byte by simp
  then show "take_bit 5 (unat (of_nat (32 * major + a) :: byte)) = a"
    "drop_bit 5 (unat (of_nat (32 * major + a) :: byte)) = major"
    using assms by (simp_all add: take_bit_eq_mod drop_bit_eq_div del: of_nat_add of_nat_mult)
qed

lemma initial_byte_of:
  fixes b :: byte
  shows "of_nat (32 * drop_bit 5 (unat b) + take_bit 5 (unat b)) = b" "take_bit 5 (unat b) < 32"
proof -
  have "32 * drop_bit 5 (unat b) + take_bit 5 (unat b) = unat b"
    by (simp add: take_bit_eq_mod drop_bit_eq_div)
  then show "of_nat (32 * drop_bit 5 (unat b) + take_bit 5 (unat b)) = b"
    by (simp only: of_nat_unat ucast_id)
  show "take_bit 5 (unat b) < 32" by (simp add: take_bit_eq_mod)
qed

lemma drop_Cons_nth: "offset < length v \<Longrightarrow> drop offset v = v ! offset # drop (offset + 1) v"
  by (simp add: Cons_nth_drop_Suc)

lemma cbor_length_inverse:
  assumes "cbor_length v offset major = Some (m, off)"
  shows "offset < off \<and> off \<le> length v \<and> m < 2 ^ 32 \<and> take (off - offset) (drop offset v) = cbor_header major m"
proof -
  let ?b = "v ! offset"
  have lt: "offset < length v" and mj: "drop_bit 5 (unat ?b) = major"
    using assms by (auto simp: cbor_length_def Let_def split: if_splits)
  note b = initial_byte_of [of ?b, unfolded mj]
  show ?thesis
  proof (cases "take_bit 5 (unat ?b) < 24")
    case True
    then have "m = take_bit 5 (unat ?b)" "off = offset + 1"
      using assms lt mj by (auto simp: cbor_length_def Let_def)
    then show ?thesis using True lt b by (simp add: cbor_header_def drop_Cons_nth del: of_nat_add of_nat_mult)
  next
    case False
    then obtain k where k: "length_bytes (take_bit 5 (unat ?b)) = Some k" and le: "offset + 1 + k \<le> length v"
      and m: "m = be_nat (take k (drop (offset + 1) v))" "least_length k \<le> m" and off: "off = offset + 1 + k"
      using assms lt mj by (auto simp: cbor_length_def Let_def split: option.splits if_splits)
    let ?w = "take k (drop (offset + 1) v)"
    have w: "length ?w = k" using le by simp
    have "m < 256 ^ k" using be_nat_less [of ?w] unfolding w m(1) .
    moreover have "be_bytes k m = ?w" using be_bytes_nat [of ?w] unfolding w m(1) .
    moreover have "take (off - offset) (drop offset v) = ?b # ?w"
      using lt off by (simp add: drop_Cons_nth)
    ultimately show ?thesis
      using k m(2) off le b(1)
      by (auto simp: length_bytes_def least_length_def cbor_header_def split: if_splits)
  qed
qed

text \<open>
  The CBOR length reader is exact. Every length below \<open>2 ^ 32\<close> has one header that it
  reads back, wherever the header stands, and whatever it reads was that header: the
  bytes consumed are the minimal encoding of the length returned, so no metadata item can
  be written in two ways.
\<close>

theorem cbor_length_exact:
  "(major < 8 \<and> n < 2 ^ 32 \<longrightarrow>
      cbor_length (pre @ cbor_header major n @ rest) (length pre) major
        = Some (n, length pre + length (cbor_header major n)))
   \<and> (cbor_length v offset major = Some (m, off) \<longrightarrow>
        offset < off \<and> off \<le> length v \<and> m < 2 ^ 32 \<and> take (off - offset) (drop offset v) = cbor_header major m)"
proof (intro conjI impI)
  assume a: "major < 8 \<and> n < 2 ^ 32"
  have sizes: "n < 2 ^ 8 \<Longrightarrow> be_nat (be_bytes 1 n) = n" "n < 2 ^ 16 \<Longrightarrow> be_nat (be_bytes 2 n) = n"
    "be_nat (be_bytes 4 n) = n"
    using a by (auto intro!: be_nat_bytes)
  show "cbor_length (pre @ cbor_header major n @ rest) (length pre) major
        = Some (n, length pre + length (cbor_header major n))"
    using a sizes initial_byte [of major]
    by (simp add: cbor_length_def cbor_header_def Let_def length_bytes_def least_length_def nth_append
        del: of_nat_add of_nat_mult)
qed (drule cbor_length_inverse, blast)+

theorem cbor_length_exact_witness:
  "cbor_length ([1] @ cbor_header 5 300 @ [7]) (length [1]) 5 = Some (300, 4)"
  using cbor_length_exact [of 5 300 "[1]" "[7]" "[]" 0 0 0] by (simp add: cbor_header_length)

section \<open>Facts: instructions\<close>

text \<open>The reference: the opcodes of straight-line EVM code, PUSH data skipped.\<close>

fun opcodes :: "bytes \<Rightarrow> bytes" where
  "opcodes [] = []"
| "opcodes (b # bs) = b # opcodes (drop (push_size b) bs)"

lemma scan_dispatch_opcodes:
  "scan_dispatch bytecode offset \<longleftrightarrow>
     (\<exists>b\<in>set (opcodes (drop offset bytecode)). b \<in> set UNSUPPORTED_DISPATCH_OPCODES)"
proof (induction bytecode offset rule: scan_dispatch.induct)
  case (1 bytecode offset)
  show ?case
  proof (cases "offset < length bytecode")
    case True
    then have "opcodes (drop offset bytecode)
        = bytecode ! offset # opcodes (drop (offset + 1 + push_size (bytecode ! offset)) bytecode)"
      by (simp add: drop_Cons_nth add.commute)
    then show ?thesis using True "1.IH" by (subst scan_dispatch.simps) auto
  next
    case False
    then show ?thesis by (subst scan_dispatch.simps) simp
  qed
qed

lemma trailer_split:
  assumes "start + n + 2 = length b" "1 \<le> start" "b ! (start - 1) = 0xFE" "be_nat (drop (length b - 2) b) = n"
    and "payload = take (length b - 2 - start) (drop start b)"
  shows "b = take (start - 1) b @ [0xFE] @ payload @ be_bytes 2 (length payload)"
    and "take start b = take (start - 1) b @ [0xFE]"
proof -
  have lp: "length payload = n" using assms(1) by (simp add: assms(5))
  have "length (drop (length b - 2) b) = 2" using assms(1) by simp
  then have tail: "drop (length b - 2) b = be_bytes 2 n"
    using be_bytes_nat [of "drop (length b - 2) b"] assms(4) by simp
  have "length b - 2 = start + (length b - 2 - start)" using assms(1) by simp
  then have "drop start b = payload @ drop (length b - 2) b"
    using append_take_drop_id [of "length b - 2 - start" "drop start b"] unfolding assms(5) drop_drop
    by (metis add.commute)
  moreover show "take start b = take (start - 1) b @ [0xFE]"
    using assms(1-3) take_Suc_conv_app_nth [of "start - 1" b] by simp
  ultimately show "b = take (start - 1) b @ [0xFE] @ payload @ be_bytes 2 (length payload)"
    using append_take_drop_id [of start b] tail lp by simp
qed

lemma metadata_split:
  assumes "without_solidity_metadata bytecode \<noteq> bytecode"
  shows "\<exists>pre payload. bytecode = pre @ [0xFE] @ payload @ be_bytes 2 (length payload)
    \<and> without_solidity_metadata bytecode = pre @ [0xFE] \<and> is_solidity_metadata payload"
proof -
  obtain n start where n: "be_nat (drop (length bytecode - 2) bytecode) = n"
    and start: "nat (int (length bytecode) - int n - 2) = start" by blast
  have st: "1 \<le> int (length bytecode) - int n - 2" and fe: "bytecode ! (start - 1) = 0xFE"
    and meta: "is_solidity_metadata (take (length bytecode - 2 - start) (drop start bytecode))"
    and w: "without_solidity_metadata bytecode = take start bytecode"
    using assms unfolding without_solidity_metadata_def Let_def n start by (auto split: if_splits)
  have "start + n + 2 = length bytecode" "1 \<le> start" using st start by linarith+
  from trailer_split [OF this fe n refl] meta show ?thesis unfolding w by metis
qed

text \<open>
  C25: The scan for dynamic dispatch is the disassembly. It reports exactly the code in
  whose straight-line instructions CALLCODE or DELEGATECALL occurs, where only PUSH data
  is skipped and where at most one thing is left out: a trailer of valid Solidity
  metadata with its exact length, directly after an INVALID opcode that stays in the code.
\<close>

theorem dispatch_scan_exact:
  "(has_unsupported_dispatch bytecode \<longleftrightarrow>
      (\<exists>b\<in>set (opcodes (without_solidity_metadata bytecode)). b \<in> {0xF2, 0xF4}))
   \<and> (without_solidity_metadata bytecode = bytecode
      \<or> (\<exists>pre payload. bytecode = pre @ [0xFE] @ payload @ be_bytes 2 (length payload)
           \<and> without_solidity_metadata bytecode = pre @ [0xFE] \<and> is_solidity_metadata payload))"
  using metadata_split [of bytecode]
  by (auto simp: has_unsupported_dispatch_def scan_dispatch_opcodes UNSUPPORTED_DISPATCH_OPCODES_def)

end
