(* ===== verification/Source_Resolve.thy ===== *)
theory Source_Resolve
  imports Bounded_Http Evm_Code
begin

text \<open>
  Verified-source resolution in \<open>lucent/verified_source.py\<close>: the finalized block, the
  EIP-1967 chain, the Sourcify binding and \<open>resolve_verified_source\<close>, as computations on
  the client state that raise the module's redacted errors.
\<close>

section \<open>Values of the RPC interface\<close>

definition MAX_PROXY_HOPS :: nat where "MAX_PROXY_HOPS = 4"
definition VS_MAX_CHAIN_ID :: int where "VS_MAX_CHAIN_ID = 2 ^ 63 - 1"
definition VS_MAX_ABI_ENTRIES :: int where "VS_MAX_ABI_ENTRIES = 1024"

definition EIP1967_IMPLEMENTATION_SLOT :: pystr where
  "EIP1967_IMPLEMENTATION_SLOT = ''0x360894a13ba1a3210667c828492db98dca3e2076cc3735a920a3ca505d382bbc''"

definition EIP1967_BEACON_SLOT :: pystr where
  "EIP1967_BEACON_SLOT = ''0xa3f0ad74e5423aebfd80d3ef4346578335a9a72aeaee59ff6cb3582b35133d50''"

definition BEACON_IMPLEMENTATION_SELECTOR :: pystr where
  "BEACON_IMPLEMENTATION_SELECTOR = ''0x5c60da1b''"

text \<open>\<open>ADDRESS_RE\<close>, \<open>HASH_RE\<close> and \<open>HEX_DATA_RE\<close>.\<close>

definition is_hex_of :: "nat \<Rightarrow> pystr \<Rightarrow> bool" where
  "is_hex_of n s \<longleftrightarrow> take 2 s = ''0x'' \<and> length s = n + 2 \<and> list_all is_hex (drop 2 s)"

definition is_hex_data :: "pystr \<Rightarrow> bool" where
  "is_hex_data s \<longleftrightarrow> take 2 s = ''0x'' \<and> even (length s) \<and> list_all is_hex (drop 2 s)"

definition vs_normalize_chain_id :: "pyval \<Rightarrow> vs_failure + int" where
  "vs_normalize_chain_id v =
     (case v of
        PInt i \<Rightarrow>
          if i < 1 \<or> VS_MAX_CHAIN_ID < i
          then vs_error ''INVALID_CHAIN_ID'' ''chain_id is outside the supported numeric range''
          else if i \<notin> fst ` set RPC_ENDPOINTS
          then vs_error ''UNSUPPORTED_CHAIN'' ''chain_id is not enabled for verified resolution''
          else Inr i
      | _ \<Rightarrow> vs_error ''INVALID_CHAIN_ID'' ''chain_id must be a positive integer'')"

definition vs_normalize_address :: "pyval \<Rightarrow> vs_failure + pystr" where
  "vs_normalize_address v =
     (case v of
        PStr s \<Rightarrow> if is_hex_of 40 s then Inr (py_lower s)
                  else vs_error ''INVALID_ADDRESS'' ''address must be exactly 20 hexadecimal bytes''
      | _ \<Rightarrow> vs_error ''INVALID_ADDRESS'' ''address must be exactly 20 hexadecimal bytes'')"

definition malformed :: "pystr \<Rightarrow> vs_failure + 'a" where
  "malformed what = vs_error ''INVALID_RPC_RESPONSE'' (''JSON-RPC '' @ what @ '' was malformed'')"

definition rpc_quantity :: "pyval \<Rightarrow> vs_failure + (int \<times> pystr)" where
  "rpc_quantity v =
     (case v of
        PStr s \<Rightarrow>
          if 66 < length s \<or> \<not> is_hex_quantity s then malformed ''quantity''
          else (let n = int_fromhex (drop 2 s) in Inr (n, nat_hex (nat n)))
      | _ \<Rightarrow> malformed ''quantity'')"

definition rpc_hash :: "pyval \<Rightarrow> vs_failure + pystr" where
  "rpc_hash v =
     (case v of PStr s \<Rightarrow> if is_hex_of 64 s then Inr (py_lower s) else malformed ''block hash''
      | _ \<Rightarrow> malformed ''block hash'')"

definition rpc_data :: "int \<Rightarrow> pystr \<Rightarrow> pyval \<Rightarrow> vs_failure + bytes" where
  "rpc_data limit field_name v =
     (case v of
        PStr s \<Rightarrow>
          if \<not> is_hex_data s then malformed field_name
          else
            let raw = bytes_fromhex (drop 2 s) in
            if limit < int (length raw)
            then vs_error ''RPC_RESULT_TOO_LARGE'' (''JSON-RPC '' @ field_name @ '' exceeded its size limit'')
            else Inr raw
      | _ \<Rightarrow> malformed field_name)"

section \<open>Reading the chain\<close>

record block_identity =
  bi_number :: int
  bi_hash :: pystr

record code_identity =
  ci_address :: pystr
  ci_keccak :: pystr
  ci_size :: nat

record proxy_hop =
  ph_proxy :: code_identity
  ph_kind :: pystr
  ph_implementation :: pystr
  ph_beacon :: "code_identity option"

text \<open>\<open>try ... except VerifiedSourceError\<close> around the two fields of a block.\<close>

definition block_fields :: "pystr \<Rightarrow> pystr \<Rightarrow> pyval \<Rightarrow> vs_failure + (int \<times> pystr \<times> pystr)" where
  "block_fields cd msg v =
     (case v of
        PDict d \<Rightarrow>
          (case (rpc_quantity (dget d ''number''), rpc_hash (dget d ''hash'')) of
             (Inr (n, tag), Inr h) \<Rightarrow> Inr (n, tag, h)
           | _ \<Rightarrow> vs_error cd msg)
      | _ \<Rightarrow> vs_error cd msg)"

definition finalized_block :: "vs_env \<Rightarrow> int \<Rightarrow> (block_identity \<times> pystr) vs" where
  "finalized_block env chain =
     st_bind (rpc_call env chain ''eth_getBlockByNumber'' [PStr ''finalized'', PBool False])
     (\<lambda>v. st_bind (vs_lift (block_fields ''FINALIZED_BLOCK_UNAVAILABLE'' ''a finalized block was not available'' v))
     (\<lambda>(n, tag, h). st_return (\<lparr>bi_number = n, bi_hash = h\<rparr>, tag)))"

definition assert_canonical_block :: "vs_env \<Rightarrow> int \<Rightarrow> block_identity \<Rightarrow> pystr \<Rightarrow> unit vs" where
  "assert_canonical_block env chain block tag =
     st_bind (rpc_call env chain ''eth_getBlockByNumber'' [PStr tag, PBool False])
     (\<lambda>v. st_bind (vs_lift (block_fields ''FINALIZED_BLOCK_CHANGED''
              ''the pinned finalized block could not be confirmed'' v))
     (\<lambda>(n, t, h). if n \<noteq> bi_number block \<or> h \<noteq> bi_hash block
        then vs_raise ''FINALIZED_BLOCK_CHANGED'' ''the pinned finalized block changed''
        else st_return ()))"

definition read_code :: "vs_env \<Rightarrow> int \<Rightarrow> pystr \<Rightarrow> pystr \<Rightarrow> (code_identity \<times> bytes) vs" where
  "read_code env chain addr tag =
     st_bind (rpc_call env chain ''eth_getCode'' [PStr addr, PStr tag])
     (\<lambda>v. st_bind (vs_lift (rpc_data MAX_CODE_BYTES ''bytecode'' v))
     (\<lambda>raw. if raw = []
        then vs_raise ''NO_CONTRACT_CODE'' ''contract bytecode was not available at the finalized block''
        else st_return (\<lparr>ci_address = addr, ci_keccak = ''0x'' @ bytes_hex (ve_keccak env raw),
               ci_size = length raw\<rparr>, raw)))"

text \<open>\<open>any(raw)\<close> on bytes.\<close>

definition any_set :: "bytes \<Rightarrow> bool" where
  "any_set bs = list_ex (\<lambda>b. b \<noteq> 0) bs"

definition slot_address :: "vs_env \<Rightarrow> int \<Rightarrow> pystr \<Rightarrow> pystr \<Rightarrow> pystr \<Rightarrow> pystr option vs" where
  "slot_address env chain addr slot tag =
     st_bind (rpc_call env chain ''eth_getStorageAt'' [PStr addr, PStr slot, PStr tag])
     (\<lambda>v. st_bind (vs_lift (rpc_data 32 ''storage word'' v))
     (\<lambda>raw. if length raw \<noteq> 32 \<or> any_set (take 12 raw)
        then vs_raise ''INVALID_PROXY_SLOT'' ''an EIP-1967 address slot was malformed''
        else if \<not> any_set (drop 12 raw) then st_return None
        else st_return (Some (''0x'' @ bytes_hex (drop 12 raw)))))"

definition beacon_implementation :: "vs_env \<Rightarrow> int \<Rightarrow> pystr \<Rightarrow> pystr \<Rightarrow> pystr vs" where
  "beacon_implementation env chain beacon tag =
     st_bind (rpc_call env chain ''eth_call''
       [PDict [(''to'', PStr beacon), (''data'', PStr BEACON_IMPLEMENTATION_SELECTOR)], PStr tag])
     (\<lambda>v. st_bind (vs_lift (rpc_data 32 ''beacon result'' v))
     (\<lambda>raw. if length raw \<noteq> 32 \<or> any_set (take 12 raw) \<or> \<not> any_set (drop 12 raw)
        then vs_raise ''INVALID_PROXY_BEACON'' ''the EIP-1967 beacon returned no implementation''
        else st_return (''0x'' @ bytes_hex (drop 12 raw))))"

section \<open>The proxy chain\<close>

definition proxy_cycle :: "'a vs" where
  "proxy_cycle = vs_raise ''PROXY_CYCLE'' ''the EIP-1967 implementation chain contained a cycle''"

text \<open>The end of one turn of the loop: the hop to the implementation.\<close>

definition follow_proxy ::
  "vs_env \<Rightarrow> int \<Rightarrow> pystr \<Rightarrow> pystr list \<Rightarrow> code_identity \<Rightarrow> pystr option \<Rightarrow> pystr option \<Rightarrow> proxy_hop vs" where
  "follow_proxy env chain tag visited ident impl beacon =
     (case beacon of
        None \<Rightarrow> st_return \<lparr>ph_proxy = ident, ph_kind = ''eip1967_implementation'',
                   ph_implementation = the impl, ph_beacon = None\<rparr>
      | Some b \<Rightarrow>
          if b \<in> set visited then proxy_cycle
          else
            st_bind (read_code env chain b tag)
            (\<lambda>(beacon_ident, beacon_code). st_bind (beacon_implementation env chain b tag)
            (\<lambda>i. if i = b then proxy_cycle
                 else st_return \<lparr>ph_proxy = ident, ph_kind = ''eip1967_beacon'',
                        ph_implementation = i, ph_beacon = Some beacon_ident\<rparr>)))"

lemma st_bind_cong [fundef_cong]:
  "m = m' \<Longrightarrow> (\<And>x. f x = g x) \<Longrightarrow> st_bind m f = st_bind m' g"
  by presburger

function proxy_chain ::
  "vs_env \<Rightarrow> int \<Rightarrow> pystr \<Rightarrow> pystr list \<Rightarrow> proxy_hop list \<Rightarrow> (code_identity \<times> bytes) option \<Rightarrow> pystr \<Rightarrow>
   ((code_identity \<times> bytes) \<times> (code_identity \<times> bytes) \<times> proxy_hop list) vs" where
  "proxy_chain env chain tag visited hops target current =
     (if current \<in> set visited then proxy_cycle
      else
        st_bind (read_code env chain current tag)
        (\<lambda>here. st_bind (slot_address env chain current EIP1967_IMPLEMENTATION_SLOT tag)
        (\<lambda>impl. st_bind (slot_address env chain current EIP1967_BEACON_SLOT tag)
        (\<lambda>beacon.
          let first = (case target of None \<Rightarrow> here | Some t \<Rightarrow> t) in
          if impl \<noteq> None \<and> beacon \<noteq> None
          then vs_raise ''AMBIGUOUS_PROXY'' ''both EIP-1967 implementation mechanisms were populated''
          else if impl = None \<and> beacon = None
          then (if hops = [] \<and> has_unsupported_dispatch (snd first)
                then vs_raise ''UNSUPPORTED_DISPATCH'' ''target bytecode uses an unsupported dynamic dispatch mechanism''
                else st_return (first, here, hops))
          else if MAX_PROXY_HOPS \<le> length hops
          then vs_raise ''PROXY_DEPTH_EXCEEDED'' ''the EIP-1967 proxy chain was too deep''
          else
            st_bind (follow_proxy env chain tag (current # visited) (fst here) impl beacon)
            (\<lambda>hop. proxy_chain env chain tag (current # visited) (hops @ [hop]) (Some first)
                     (ph_implementation hop))))))"
  by pat_completeness auto
termination
  by (relation "measure (\<lambda>(env, chain, tag, visited, hops, target, current). MAX_PROXY_HOPS - length hops)") auto

declare proxy_chain.simps [simp del]

section \<open>The verified ABI\<close>

definition invalid_abi :: "pystr \<Rightarrow> vs_failure + 'a" where
  "invalid_abi msg = vs_error ''INVALID_VERIFIED_ABI'' msg"

definition ABI_KINDS :: "pystr list" where
  "ABI_KINDS = [''constructor'', ''error'', ''event'', ''fallback'', ''function'', ''receive'']"

definition NAMED_ABI_KINDS :: "pystr list" where
  "NAMED_ABI_KINDS = [''error'', ''event'', ''function'']"

definition VERIFIED_MATCHES :: "pystr list" where
  "VERIFIED_MATCHES = [''exact_match'', ''match'']"

function validate_abi_parameter :: "pystr \<Rightarrow> pyval \<Rightarrow> vs_failure + unit" where
  "validate_abi_parameter scope (PDict d) =
     (if \<not> is_str (dget_or d ''name'' (PStr [])) then invalid_abi (scope @ '' name was invalid'')
      else
        (case dget d ''type'' of
           PStr t \<Rightarrow>
             if t = [] \<or> 256 < length t then invalid_abi (scope @ '' type was invalid'')
             else if py_startswith t ''tuple''
             then
               (case dget d ''components'' of
                  PList cs \<Rightarrow>
                    if VS_MAX_ABI_ENTRIES < int (length cs)
                    then invalid_abi (scope @ '' tuple components were invalid'')
                    else res_all (validate_abi_parameter (scope @ '' tuple component'')) cs
                | _ \<Rightarrow> invalid_abi (scope @ '' tuple components were invalid''))
             else Inr ()
         | _ \<Rightarrow> invalid_abi (scope @ '' type was invalid'')))"
| "validate_abi_parameter scope PNone = invalid_abi (scope @ '' was not an object'')"
| "validate_abi_parameter scope (PBool b) = invalid_abi (scope @ '' was not an object'')"
| "validate_abi_parameter scope (PInt i) = invalid_abi (scope @ '' was not an object'')"
| "validate_abi_parameter scope (PFloat f) = invalid_abi (scope @ '' was not an object'')"
| "validate_abi_parameter scope (PStr s) = invalid_abi (scope @ '' was not an object'')"
| "validate_abi_parameter scope (PBytes bs) = invalid_abi (scope @ '' was not an object'')"
| "validate_abi_parameter scope (PList xs) = invalid_abi (scope @ '' was not an object'')"
| "validate_abi_parameter scope (PTuple xs) = invalid_abi (scope @ '' was not an object'')"
  by pat_completeness auto
termination
proof (relation "measure (\<lambda>(scope, v). size v)", goal_cases)
  case 1
  then show ?case by simp
next
  case (2 scope d t cs c)
  then have "size c < size (dget d ''components'')" using size_list_item(1) by metis
  also have "\<dots> < size (PDict d)" using 2 by (intro size_dget) simp
  finally show ?case by simp
qed

definition validate_parameters :: "(pystr \<times> pyval) list \<Rightarrow> pystr \<Rightarrow> vs_failure + unit" where
  "validate_parameters entry field_name =
     (case map_of entry field_name of
        None \<Rightarrow> Inr ()
      | Some (PList ps) \<Rightarrow>
          if VS_MAX_ABI_ENTRIES < int (length ps) then invalid_abi ''verified ABI parameters were invalid''
          else res_all (validate_abi_parameter ''verified ABI parameter'') ps
      | Some _ \<Rightarrow> invalid_abi ''verified ABI parameters were invalid'')"

definition validate_abi_entry :: "pyval \<Rightarrow> vs_failure + unit" where
  "validate_abi_entry v =
     (case v of
        PDict entry \<Rightarrow>
          (case dget entry ''type'' of
             PStr kind \<Rightarrow>
               if kind \<notin> set ABI_KINDS then invalid_abi ''verified ABI entry type was invalid''
               else if kind \<in> set NAMED_ABI_KINDS
                       \<and> (case dget entry ''name'' of PStr n \<Rightarrow> n = [] \<or> 512 < length n | _ \<Rightarrow> True)
               then invalid_abi ''verified ABI entry name was invalid''
               else res_bind (validate_parameters entry ''inputs'') (\<lambda>_. validate_parameters entry ''outputs'')
           | _ \<Rightarrow> invalid_abi ''verified ABI entry type was invalid'')
      | _ \<Rightarrow> invalid_abi ''verified ABI entry was not an object'')"

definition validate_verified_abi :: "vs_env \<Rightarrow> pyval \<Rightarrow> vs_failure + bytes" where
  "validate_verified_abi env v =
     (case v of
        PList entries \<Rightarrow>
          if VS_MAX_ABI_ENTRIES < int (length entries)
          then invalid_abi ''verified ABI was not a bounded array''
          else
            res_bind (res_all validate_abi_entry entries)
            (\<lambda>_. case canonical_bytes (ve_float_text env) v of
               None \<Rightarrow> invalid_abi ''verified ABI was not canonical JSON''
             | Some encoded \<Rightarrow>
                 if MAX_ABI_BYTES < int (length encoded)
                 then invalid_abi ''verified ABI exceeded its encoded size limit'' else Inr encoded)
      | _ \<Rightarrow> invalid_abi ''verified ABI was not a bounded array'')"

section \<open>The Sourcify binding\<close>

definition source_url :: "int \<Rightarrow> pystr \<Rightarrow> pystr" where
  "source_url chain addr = ''https://sourcify.dev/server/v2/contract/'' @ int_str chain @ ''/'' @ addr
     @ ''?fields=abi,runtimeBytecode.onchainBytecode''"

definition identity_mismatch :: "pystr \<Rightarrow> vs_failure + 'a" where
  "identity_mismatch what = vs_error ''SOURCE_IDENTITY_MISMATCH'' (''verified source '' @ what @ '' did not match'')"

definition is_verified_match :: "pyval \<Rightarrow> bool" where
  "is_verified_match v \<longleftrightarrow> (case v of PStr s \<Rightarrow> s \<in> set VERIFIED_MATCHES | _ \<Rightarrow> False)"

text \<open>The checks of a Sourcify answer: the runtime match, the ABI's hash and its JSON.\<close>

definition check_source ::
  "vs_env \<Rightarrow> int \<Rightarrow> code_identity \<Rightarrow> bytes \<Rightarrow> pyval \<Rightarrow> vs_failure + (pystr \<times> pystr \<times> bytes)" where
  "check_source env chain contract runtime_code response =
     (case response of
        PDict d \<Rightarrow>
          if dget d ''chainId'' \<notin> {PInt chain, PStr (int_str chain)}
          then identity_mismatch ''chain identity''
          else
            (case vs_normalize_address (dget d ''address'') of
               Inl e \<Rightarrow> identity_mismatch ''address''
             | Inr addr \<Rightarrow>
                 if addr \<noteq> ci_address contract then identity_mismatch ''address''
                 else
                   (case (dget d ''match'', dget d ''runtimeMatch'') of
                      (m, PStr rm) \<Rightarrow>
                        if \<not> is_verified_match m \<or> rm \<notin> set VERIFIED_MATCHES
                        then vs_error ''SOURCE_NOT_RUNTIME_VERIFIED'' ''source did not have a runtime verification''
                        else
                          (case dget d ''runtimeBytecode'' of
                             PDict runtime \<Rightarrow>
                               res_bind (rpc_data MAX_CODE_BYTES ''verified runtime bytecode''
                                           (dget runtime ''onchainBytecode''))
                               (\<lambda>recorded.
                                 if recorded \<noteq> runtime_code
                                 then vs_error ''SOURCE_CODE_MISMATCH''
                                        ''verified source bytecode did not match the finalized runtime''
                                 else
                                   res_bind (validate_verified_abi env (dget d ''abi''))
                                   (\<lambda>abi_json. Inr (rm, ''sha256:'' @ bytes_hex (ve_sha256 env abi_json), abi_json)))
                           | _ \<Rightarrow> vs_error ''INVALID_SOURCE_RESPONSE'' ''verified runtime bytecode was missing'')
                    | _ \<Rightarrow> vs_error ''SOURCE_NOT_RUNTIME_VERIFIED'' ''source did not have a runtime verification''))
      | _ \<Rightarrow> vs_error ''INVALID_SOURCE_RESPONSE'' ''verified source response was not an object'')"

definition sourcify_binding ::
  "vs_env \<Rightarrow> int \<Rightarrow> code_identity \<Rightarrow> bytes \<Rightarrow> (pystr \<times> pystr \<times> bytes) vs" where
  "sourcify_binding env chain contract runtime_code =
     st_bind (http_json env ''GET'' (source_url chain (ci_address contract)) None SOURCIFY_RESPONSE_BYTES
                (Some ''SOURCE_NOT_VERIFIED''))
     (\<lambda>response. vs_lift (check_source env chain contract runtime_code response))"

section \<open>Resolution\<close>

record verified_source =
  so_chain :: int
  so_address :: pystr
  so_block :: block_identity
  so_target :: code_identity
  so_effective :: code_identity
  so_proxies :: "proxy_hop list"
  so_match :: pystr
  so_abi_hash :: pystr
  so_abi_json :: bytes

definition resolve_on_chain :: "vs_env \<Rightarrow> int \<Rightarrow> pystr \<Rightarrow> verified_source vs" where
  "resolve_on_chain env chain addr =
     st_bind (rpc_call env chain ''eth_chainId'' [])
     (\<lambda>v. st_bind (vs_lift (rpc_quantity v))
     (\<lambda>(reported, hex).
       if reported \<noteq> chain
       then vs_raise ''RPC_CHAIN_MISMATCH'' ''the allowlisted RPC reported a different chain''
       else
         st_bind (finalized_block env chain)
         (\<lambda>(block, tag). st_bind (proxy_chain env chain tag [] [] None addr)
         (\<lambda>(target, effective, hops). st_bind (sourcify_binding env chain (fst effective) (snd effective))
         (\<lambda>(matched, abi_hash, abi_json). st_bind (assert_canonical_block env chain block tag)
         (\<lambda>_. st_return
           \<lparr>so_chain = chain, so_address = addr, so_block = block, so_target = fst target,
            so_effective = fst effective, so_proxies = hops, so_match = matched,
            so_abi_hash = abi_hash, so_abi_json = abi_json\<rparr>))))))"

definition resolve_verified_source ::
  "vs_env \<Rightarrow> pyval \<Rightarrow> pyval \<Rightarrow> (vs_failure + verified_source) \<times> vs_state" where
  "resolve_verified_source env chain_id address =
     (case vs_normalize_chain_id chain_id of
        Inl e \<Rightarrow> (Inl e, fresh_client)
      | Inr chain \<Rightarrow>
          (case vs_normalize_address address of
             Inl e \<Rightarrow> (Inl e, fresh_client)
           | Inr addr \<Rightarrow> resolve_on_chain env chain addr fresh_client))"

end
