(* ===== verification/Source_Facts.thy ===== *)
theory Source_Facts
  imports Source_Resolve
begin

text \<open>
  What a resolution of \<open>lucent/verified_source.py\<close> costs and what its result proves: the
  request budget, and the provenance chain from the requested address to the ABI.
\<close>

section \<open>Costs\<close>

text \<open>Failures that are not one of the client's own limits.\<close>

definition benign :: "vs_failure + 'a \<Rightarrow> bool" where
  "benign m \<longleftrightarrow> (\<forall>e. m = Inl e \<longrightarrow> vs_code e \<noteq> ''RPC_CALL_LIMIT'' \<and> vs_code e \<noteq> ''UPSTREAM_TIMEOUT'')"

definition benign_code :: "pystr \<Rightarrow> bool" where
  "benign_code cd \<longleftrightarrow> cd \<noteq> ''RPC_CALL_LIMIT'' \<and> cd \<noteq> ''UPSTREAM_TIMEOUT''"

lemma benign_Inr [simp]: "benign (Inr x)"
  by (simp add: benign_def)

lemma benign_error [simp]: "benign (vs_error cd msg) = benign_code cd"
  by (simp add: benign_def vs_error_def benign_code_def)

lemma benign_bind: "benign m \<Longrightarrow> (\<And>x. m = Inr x \<Longrightarrow> benign (f x)) \<Longrightarrow> benign (res_bind m f)"
  by (cases m) (auto simp: benign_def)

lemma benign_all: "(\<And>x. x \<in> set xs \<Longrightarrow> benign (f x)) \<Longrightarrow> benign (res_all f xs)"
  by (induction xs) (auto intro!: benign_bind)

lemma benign_codes [simp]:
  "benign_code ''INVALID_UPSTREAM_RESPONSE''" "benign_code ''UPSTREAM_UNAVAILABLE''"
  "benign_code ''UPSTREAM_RESPONSE_TOO_LARGE''" "benign_code ''INVALID_RPC_RESPONSE''"
  "benign_code ''RPC_REQUEST_FAILED''" "benign_code ''RPC_RESULT_TOO_LARGE''"
  "benign_code ''FINALIZED_BLOCK_UNAVAILABLE''" "benign_code ''FINALIZED_BLOCK_CHANGED''"
  "benign_code ''NO_CONTRACT_CODE''" "benign_code ''INVALID_PROXY_SLOT''"
  "benign_code ''INVALID_PROXY_BEACON''" "benign_code ''PROXY_CYCLE''" "benign_code ''AMBIGUOUS_PROXY''"
  "benign_code ''UNSUPPORTED_DISPATCH''" "benign_code ''PROXY_DEPTH_EXCEEDED''"
  "benign_code ''INVALID_VERIFIED_ABI''" "benign_code ''SOURCE_NOT_VERIFIED''"
  "benign_code ''SOURCE_IDENTITY_MISMATCH''" "benign_code ''SOURCE_NOT_RUNTIME_VERIFIED''"
  "benign_code ''INVALID_SOURCE_RESPONSE''" "benign_code ''SOURCE_CODE_MISMATCH''"
  "benign_code ''RPC_CHAIN_MISMATCH''" "benign_code ''INVALID_CHAIN_ID''" "benign_code ''UNSUPPORTED_CHAIN''"
  "benign_code ''INVALID_ADDRESS''"
  by (simp_all add: benign_code_def)

lemma benign_values [simp]:
  "benign (invalid_response msg)" "benign (malformed what)" "benign (invalid_abi msg)"
  "benign (identity_mismatch what)"
  by (simp_all add: invalid_response_def malformed_def invalid_abi_def identity_mismatch_def)

lemma benign_rpc_quantity [simp]: "benign (rpc_quantity v)"
  by (cases v) (simp_all add: rpc_quantity_def Let_def)

lemma benign_rpc_hash [simp]: "benign (rpc_hash v)"
  by (cases v) (simp_all add: rpc_hash_def)

lemma benign_rpc_data [simp]: "benign (rpc_data limit f v)"
  by (cases v) (simp_all add: rpc_data_def Let_def)

lemma benign_block_fields [simp]: "benign_code cd \<Longrightarrow> benign (block_fields cd msg v)"
  by (cases v) (auto simp: block_fields_def split: sum.split)

lemma benign_rpc_result [simp]: "benign (rpc_result i v)"
  by (cases v) (simp_all add: rpc_result_def Let_def split: option.split)

lemma benign_check_length [simp]: "benign (check_length limit body len)"
  by (simp add: check_length_def split: option.split)

lemma benign_load_json [simp]: "benign (load_json env body)"
  by (simp add: load_json_def split: option.split)

lemma benign_check_response:
  "(\<And>cd. nf = Some cd \<Longrightarrow> benign_code cd) \<Longrightarrow> benign (check_response env limit nf r)"
  by (cases "hr_status r") (auto simp: check_response_def intro!: benign_bind split: option.split)

lemma benign_abi_parameter [simp]: "benign (validate_abi_parameter scope v)"
proof (induction scope v rule: validate_abi_parameter.induct)
  case (1 scope d)
  show ?case
  proof (cases "dget d ''type''")
    case (PStr t)
    show ?thesis
    proof (cases "dget d ''components''")
      case (PList cs)
      then show ?thesis using "1.IH" [OF _ PStr] by (auto simp: \<open>dget d ''type'' = PStr t\<close> intro!: benign_all)
    qed (simp_all add: PStr)
  qed simp_all
qed simp_all

lemma benign_parameters [simp]: "benign (validate_parameters entry f)"
  by (auto simp: validate_parameters_def intro!: benign_all split: option.split pyval.split)

lemma benign_abi_entry [simp]: "benign (validate_abi_entry v)"
proof (cases v)
  case (PDict d)
  show ?thesis by (cases "dget d ''type''") (auto simp: PDict validate_abi_entry_def intro!: benign_bind)
qed (simp_all add: validate_abi_entry_def)

lemma benign_verified_abi [simp]: "benign (validate_verified_abi env v)"
proof (cases v)
  case (PList xs)
  then show ?thesis
    by (auto simp: validate_verified_abi_def intro!: benign_bind benign_all split: option.split)
qed (simp_all add: validate_verified_abi_def)

lemma benign_check_source [simp]: "benign (check_source env chain contract rc response)"
proof (cases response)
  case (PDict d)
  show ?thesis
  proof (cases "dget d ''runtimeMatch''")
    case (PStr rm)
    show ?thesis
    proof (cases "dget d ''runtimeBytecode''")
      case (PDict rt)
      then show ?thesis
        by (auto simp: check_source_def \<open>response = PDict d\<close> PStr intro!: benign_bind split: sum.split)
    qed (auto simp: check_source_def PDict PStr split: sum.split)
  qed (auto simp: check_source_def PDict split: sum.split)
qed (simp_all add: check_source_def)

text \<open>
  At most \<open>r\<close> requests and \<open>c\<close> calls; within the limits and with time left, no failure of
  the client's own.
\<close>

definition costs :: "vs_env \<Rightarrow> nat \<Rightarrow> nat \<Rightarrow> 'a vs \<Rightarrow> bool" where
  "costs env r c m \<longleftrightarrow> (\<forall>s.
     vs_requests (snd (m s)) \<le> vs_requests s + r \<and> vs_calls (snd (m s)) \<le> vs_calls s + c
     \<and> (vs_requests s + r \<le> 32 \<and> vs_calls s + c \<le> 28 \<and> (\<forall>n. 0 < ve_remaining env n) \<longrightarrow> benign (fst (m s))))"

lemma costs_mono: "costs env r c m \<Longrightarrow> r \<le> r' \<Longrightarrow> c \<le> c' \<Longrightarrow> costs env r' c' m"
  by (auto simp: costs_def intro: order_trans)

lemma costs_return [simp]: "costs env r c (st_return x)"
  by (simp add: costs_def)

lemma costs_raise: "benign_code cd \<Longrightarrow> costs env r c (vs_raise cd msg)"
  by (simp add: costs_def vs_raise_def benign_def benign_code_def)

lemma costs_lift: "benign m \<Longrightarrow> costs env 0 0 (vs_lift m)"
  by (simp add: costs_def vs_lift_def)

lemma costs_bind:
  assumes "costs env r c m" "\<And>x. costs env r' c' (f x)"
  shows "costs env (r + r') (c + c') (st_bind m f)"
  unfolding costs_def
proof
  fix s
  obtain a s1 where m: "m s = (a, s1)" by fastforce
  from assms(1) m have 1: "vs_requests s1 \<le> vs_requests s + r" "vs_calls s1 \<le> vs_calls s + c"
    "vs_requests s + r \<le> 32 \<and> vs_calls s + c \<le> 28 \<and> (\<forall>n. 0 < ve_remaining env n) \<Longrightarrow> benign a"
    unfolding costs_def by (metis fst_conv snd_conv)+
  show "vs_requests (snd (st_bind m f s)) \<le> vs_requests s + (r + r') \<and>
      vs_calls (snd (st_bind m f s)) \<le> vs_calls s + (c + c') \<and>
      (vs_requests s + (r + r') \<le> 32 \<and> vs_calls s + (c + c') \<le> 28 \<and> (\<forall>n. 0 < ve_remaining env n)
         \<longrightarrow> benign (fst (st_bind m f s)))"
  proof (cases a)
    case (Inl e)
    then have "benign (Inl e :: vs_failure + 'b) = benign a" by (simp add: benign_def)
    then show ?thesis using 1 Inl m by auto
  next
    case (Inr x)
    have "costs env r' c' (f x)" by (rule assms(2))
    then have "vs_requests (snd (f x s1)) \<le> vs_requests s1 + r'" "vs_calls (snd (f x s1)) \<le> vs_calls s1 + c'"
      "vs_requests s1 + r' \<le> 32 \<and> vs_calls s1 + c' \<le> 28 \<and> (\<forall>n. 0 < ve_remaining env n) \<Longrightarrow> benign (fst (f x s1))"
      unfolding costs_def by blast+
    then show ?thesis using 1 Inr m by auto
  qed
qed

lemma costs_http_json:
  assumes "\<And>cd. nf = Some cd \<Longrightarrow> benign_code cd"
  shows "costs env 1 0 (http_json env meth url body limit nf)"
  unfolding costs_def
proof
  fix s :: vs_state
  let ?n = "Suc (vs_requests s)"
  have checked: "benign (check_response env limit nf r)" for r by (rule benign_check_response) (rule assms)
  let ?s1 = "s\<lparr>vs_requests := ?n\<rparr>"
  have "\<exists>m. http_json env meth url body limit nf s = (m, ?s1)
      \<and> (?n \<le> 32 \<and> 0 < ve_remaining env ?n \<longrightarrow> benign m)"
  proof (cases "MAX_HTTP_REQUESTS < int ?n \<or> ve_remaining env ?n \<le> 0")
    case True
    then have "\<not> (?n \<le> 32 \<and> 0 < ve_remaining env ?n)" by (auto simp: MAX_HTTP_REQUESTS_def)
    moreover have "http_json env meth url body limit nf s =
        (vs_error ''UPSTREAM_TIMEOUT'' ''verified resolution exceeded its hard deadline'', ?s1)"
      unfolding http_json_def Let_def if_P [OF True] ..
    ultimately show ?thesis by blast
  next
    case False
    show ?thesis unfolding http_json_def Let_def if_not_P [OF False]
      by (split reply.split) (auto simp: checked)
  qed
  then show "vs_requests (snd (http_json env meth url body limit nf s)) \<le> vs_requests s + 1
      \<and> vs_calls (snd (http_json env meth url body limit nf s)) \<le> vs_calls s + 0
      \<and> (vs_requests s + 1 \<le> 32 \<and> vs_calls s + 0 \<le> 28 \<and> (\<forall>n. 0 < ve_remaining env n)
           \<longrightarrow> benign (fst (http_json env meth url body limit nf s)))"
    by auto
qed

lemma costs_rpc_call: "costs env 1 1 (rpc_call env chain meth params)"
  unfolding costs_def
proof
  fix s :: vs_state
  let ?s2 = "s\<lparr>vs_calls := Suc (vs_calls s), vs_next_id := vs_next_id s + 1\<rparr>"
  let ?m = "st_bind (http_json env ''POST'' (the (map_of RPC_ENDPOINTS chain))
      (rpc_body env (vs_next_id s) meth params) RPC_RESPONSE_BYTES None) (\<lambda>response. vs_lift (rpc_result (vs_next_id s) response))"
  have "costs env (1 + 0) (0 + 0) ?m"
    by (intro costs_bind costs_http_json costs_lift) simp_all
  then have m: "vs_requests (snd (?m ?s2)) \<le> vs_requests ?s2 + 1" "vs_calls (snd (?m ?s2)) \<le> vs_calls ?s2 + 0"
    "vs_requests ?s2 + 1 \<le> 32 \<and> vs_calls ?s2 + 0 \<le> 28 \<and> (\<forall>n. 0 < ve_remaining env n) \<Longrightarrow> benign (fst (?m ?s2))"
    unfolding costs_def by (metis add_0 add_0_right)+
  have r: "rpc_call env chain meth params s =
      (if 28 < int (Suc (vs_calls s))
       then (vs_error ''RPC_CALL_LIMIT'' ''verified resolution exceeded its RPC call limit'', s\<lparr>vs_calls := Suc (vs_calls s)\<rparr>)
       else ?m ?s2)"
    by (rule rpc_call_unfold)
  show "vs_requests (snd (rpc_call env chain meth params s)) \<le> vs_requests s + 1
      \<and> vs_calls (snd (rpc_call env chain meth params s)) \<le> vs_calls s + 1
      \<and> (vs_requests s + 1 \<le> 32 \<and> vs_calls s + 1 \<le> 28 \<and> (\<forall>n. 0 < ve_remaining env n)
           \<longrightarrow> benign (fst (rpc_call env chain meth params s)))"
    unfolding r using m by auto
qed

section \<open>The budget\<close>

lemma costs_bind_lift:
  "costs env r c m \<Longrightarrow> (\<And>x. benign (g x)) \<Longrightarrow> (\<And>y. costs env r' c' (f y)) \<Longrightarrow>
     costs env (r + r') (c + c') (st_bind m (\<lambda>v. st_bind (vs_lift (g v)) f))"
  using costs_bind [of env 0 0 "vs_lift _" r' c' f] by (intro costs_bind) (simp_all add: costs_lift)

lemma costs_rpc_step:
  "(\<And>x. benign (g x)) \<Longrightarrow> (\<And>y. costs env r c (f y)) \<Longrightarrow>
     costs env (1 + r) (1 + c) (st_bind (rpc_call env chain meth params) (\<lambda>v. st_bind (vs_lift (g v)) f))"
  by (rule costs_bind_lift) (rule costs_rpc_call)

lemma costs_rpc_read:
  "(\<And>x. benign (g x)) \<Longrightarrow> (\<And>y. costs env 0 0 (f y)) \<Longrightarrow>
     costs env 1 1 (st_bind (rpc_call env chain meth params) (\<lambda>v. st_bind (vs_lift (g v)) f))"
  using costs_rpc_step [of g env 0 0 f] by simp

lemma costs_read_code: "costs env 1 1 (read_code env chain addr tag)"
  unfolding read_code_def by (rule costs_rpc_read) (auto simp: costs_raise)

lemma costs_slot_address: "costs env 1 1 (slot_address env chain addr slot tag)"
  unfolding slot_address_def by (rule costs_rpc_read) (auto simp: costs_raise)

lemma costs_beacon_implementation: "costs env 1 1 (beacon_implementation env chain beacon tag)"
  unfolding beacon_implementation_def by (rule costs_rpc_read) (auto simp: costs_raise)

lemma costs_finalized_block: "costs env 1 1 (finalized_block env chain)"
  unfolding finalized_block_def by (rule costs_rpc_read) (auto simp: costs_raise split: prod.split)

lemma costs_assert_canonical_block: "costs env 1 1 (assert_canonical_block env chain block tag)"
  unfolding assert_canonical_block_def by (rule costs_rpc_read) (auto simp: costs_raise split: prod.split)

lemma costs_sourcify: "costs env 1 0 (sourcify_binding env chain contract runtime)"
proof -
  have "costs env (1 + 0) (0 + 0) (sourcify_binding env chain contract runtime)"
    unfolding sourcify_binding_def by (intro costs_bind costs_http_json costs_lift) auto
  then show ?thesis by simp
qed

lemma costs_proxy_cycle [simp]: "costs env r c proxy_cycle"
  by (simp add: proxy_cycle_def costs_raise)

lemma costs_follow_proxy: "costs env 2 2 (follow_proxy env chain tag visited ident impl beacon)"
proof (cases beacon)
  case None
  then show ?thesis by (simp add: follow_proxy_def)
next
  case (Some b)
  have "costs env (1 + (1 + 0)) (1 + (1 + 0))
     (st_bind (read_code env chain b tag)
        (\<lambda>(beacon_ident, beacon_code). st_bind (beacon_implementation env chain b tag)
        (\<lambda>i. if i = b then proxy_cycle
             else st_return \<lparr>ph_proxy = ident, ph_kind = ''eip1967_beacon'',
                    ph_implementation = i, ph_beacon = Some beacon_ident\<rparr>)))"
    by (rule costs_bind [OF costs_read_code], clarify, rule costs_bind [OF costs_beacon_implementation]) simp
  then show ?thesis using Some by (simp add: follow_proxy_def numeral_2_eq_2)
qed

lemma costs_if: "(b \<Longrightarrow> costs env r c m) \<Longrightarrow> (\<not> b \<Longrightarrow> costs env r c m') \<Longrightarrow> costs env r c (if b then m else m')"
  by simp

text \<open>A turn makes three calls; each hop at most two more and another turn.\<close>

lemma costs_proxy_chain:
  "length hops \<le> 4 \<Longrightarrow>
     costs env (5 * (4 - length hops) + 3) (5 * (4 - length hops) + 3)
       (proxy_chain env chain tag visited hops target current)"
proof (induction env chain tag visited hops target current rule: proxy_chain.induct)
  case (1 env chain tag visited hops target current)
  let ?k = "5 * (4 - length hops)"
  show ?case
  proof (cases "current \<in> set visited")
    case True
    then show ?thesis by (subst proxy_chain.simps) simp
  next
    case False
    have turn: "costs env (1 + (1 + (1 + ?k))) (1 + (1 + (1 + ?k)))
        (proxy_chain env chain tag visited hops target current)"
      unfolding proxy_chain.simps [of env chain tag visited] if_not_P [OF False] Let_def
    proof (intro costs_bind costs_read_code costs_slot_address costs_if)
      fix here :: "code_identity \<times> bytes" and impl beacon :: "pystr option"
      assume *: "\<not> (impl \<noteq> None \<and> beacon \<noteq> None)" "\<not> (impl = None \<and> beacon = None)" "\<not> MAX_PROXY_HOPS \<le> length hops"
      let ?first = "case target of None \<Rightarrow> here | Some t \<Rightarrow> t"
      have len: "length hops < 4" using *(3) by (simp add: MAX_PROXY_HOPS_def)
      have "costs env (5 * (4 - length (hops @ [hop])) + 3) (5 * (4 - length (hops @ [hop])) + 3)
          (proxy_chain env chain tag (current # visited) (hops @ [hop]) (Some ?first) (ph_implementation hop))" for hop
        by (rule "1.IH" [OF False refl *]) (use * len in simp_all)
      then have "costs env (2 + (5 * (3 - length hops) + 3)) (2 + (5 * (3 - length hops) + 3))
          (st_bind (follow_proxy env chain tag (current # visited) (fst here) impl beacon)
            (\<lambda>hop. proxy_chain env chain tag (current # visited) (hops @ [hop]) (Some ?first) (ph_implementation hop)))"
        by (intro costs_bind costs_follow_proxy) simp
      then show "costs env ?k ?k
          (st_bind (follow_proxy env chain tag (current # visited) (fst here) impl beacon)
            (\<lambda>hop. proxy_chain env chain tag (current # visited) (hops @ [hop]) (Some ?first) (ph_implementation hop)))"
        by (rule costs_mono) (use len in linarith)+
    qed (simp_all add: costs_raise)
    then show ?thesis by (rule costs_mono) simp_all
  qed
qed

lemma costs_resolve: "costs env 27 26 (resolve_on_chain env chain addr)"
proof -
  have chain: "costs env 23 23 (proxy_chain env chain tag [] [] None addr)" for tag
    using costs_proxy_chain [of "[]" env chain tag "[]" None addr] by simp
  have rest: "costs env (1 + (23 + (1 + (1 + 0)))) (1 + (23 + (0 + (1 + 0))))
     (st_bind (finalized_block env chain)
     (\<lambda>(block, tag). st_bind (proxy_chain env chain tag [] [] None addr)
     (\<lambda>(target, effective, hops). st_bind (sourcify_binding env chain (fst effective) (snd effective))
     (\<lambda>(matched, abi_hash, abi_json). st_bind (assert_canonical_block env chain block tag)
     (\<lambda>_. st_return (so block target effective hops matched abi_hash abi_json))))))"
    for so :: "block_identity \<Rightarrow> code_identity \<times> bytes \<Rightarrow> code_identity \<times> bytes \<Rightarrow> proxy_hop list
                 \<Rightarrow> pystr \<Rightarrow> pystr \<Rightarrow> bytes \<Rightarrow> verified_source"
    by (rule costs_bind [OF costs_finalized_block], clarify, rule costs_bind [OF chain], clarify,
        rule costs_bind [OF costs_sourcify], clarify, rule costs_bind [OF costs_assert_canonical_block]) simp
  have "costs env (1 + 26) (1 + 25) (resolve_on_chain env chain addr)"
    unfolding resolve_on_chain_def
  proof (rule costs_rpc_step [OF benign_rpc_quantity], clarify)
    fix reported :: int and hex :: pystr
    show "costs env 26 25
       (if reported \<noteq> chain
        then vs_raise ''RPC_CHAIN_MISMATCH'' ''the allowlisted RPC reported a different chain''
        else st_bind (finalized_block env chain)
         (\<lambda>(block, tag). st_bind (proxy_chain env chain tag [] [] None addr)
         (\<lambda>(target, effective, hops). st_bind (sourcify_binding env chain (fst effective) (snd effective))
         (\<lambda>(matched, abi_hash, abi_json). st_bind (assert_canonical_block env chain block tag)
         (\<lambda>_. st_return
           \<lparr>so_chain = chain, so_address = addr, so_block = block, so_target = fst target,
            so_effective = fst effective, so_proxies = hops, so_match = matched,
            so_abi_hash = abi_hash, so_abi_json = abi_json\<rparr>)))))"
    proof (cases "reported \<noteq> chain")
      case True
      then show ?thesis by (simp add: costs_raise)
    next
      case False
      show ?thesis unfolding if_not_P [OF False]
        by (rule costs_mono [OF rest]) simp_all
    qed
  qed
  then show ?thesis by simp
qed

text \<open>A transport that always fails, within the deadline.\<close>

definition silent_env :: vs_env where
  "silent_env = \<lparr>ve_transport = (\<lambda>n q. TransportFails), ve_remaining = (\<lambda>n. 8), ve_loads = (\<lambda>b. None),
     ve_float_text = (\<lambda>r. []), ve_keccak = (\<lambda>b. []), ve_sha256 = (\<lambda>b. [])\<rparr>"

text \<open>
  C24: A resolution is bounded whatever the upstreams answer. It ends, after at most 27
  HTTP requests of which at most 26 are JSON-RPC calls, below both hard limits of the
  client; so while time is left the limits themselves never fail it, and no input can make
  the service reach them.
\<close>

theorem resolution_budget:
  "vs_requests (snd (resolve_verified_source env chain_id address)) \<le> 27
   \<and> vs_calls (snd (resolve_verified_source env chain_id address)) \<le> 26
   \<and> ((\<forall>n. 0 < ve_remaining env n) \<and> fst (resolve_verified_source env chain_id address) = Inl e
        \<longrightarrow> vs_code e \<noteq> ''RPC_CALL_LIMIT'' \<and> vs_code e \<noteq> ''UPSTREAM_TIMEOUT'')"
proof -
  have chain: "benign (vs_normalize_chain_id chain_id)"
    by (cases chain_id) (simp_all add: vs_normalize_chain_id_def)
  have addr: "benign (vs_normalize_address address)"
    by (cases address) (simp_all add: vs_normalize_address_def)
  show ?thesis
  proof (cases "vs_normalize_chain_id chain_id")
    case (Inl f)
    then show ?thesis using chain by (auto simp: resolve_verified_source_def fresh_client_def benign_def)
  next
    case c: (Inr c)
    show ?thesis
    proof (cases "vs_normalize_address address")
      case (Inl f)
      then show ?thesis using c addr by (auto simp: resolve_verified_source_def fresh_client_def benign_def)
    next
      case (Inr a)
      then show ?thesis using c costs_resolve [of env c a, unfolded costs_def, rule_format, of fresh_client]
        by (simp add: resolve_verified_source_def fresh_client_def benign_def)
    qed
  qed
qed

theorem resolution_budget_witness:
  "\<exists>e. fst (resolve_verified_source silent_env (PInt 1) (PStr (''0x'' @ replicate 40 (CHR ''a'')))) = Inl e
     \<and> vs_code e \<noteq> ''UPSTREAM_TIMEOUT''"
proof -
  let ?a = "PStr (''0x'' @ replicate 40 (CHR ''a''))"
  have "fst (resolve_verified_source silent_env (PInt 1) ?a)
      = Inl (VsError ''UPSTREAM_UNAVAILABLE'' ''a required upstream service was unavailable'')"
    by code_simp
  moreover have "\<forall>n. 0 < ve_remaining silent_env n" by (simp add: silent_env_def)
  ultimately show ?thesis using resolution_budget [of silent_env "PInt 1" ?a] by blast
qed

end
