(* ===== verification/Source_Evidence.thy ===== *)
theory Source_Evidence
  imports Source_Resolve
begin

text \<open>
  What a successful resolution proves: a postcondition calculus for the client's
  computations, the evidence each read leaves behind, and the provenance of the result.
\<close>

section \<open>Postconditions\<close>

definition yields :: "'a vs \<Rightarrow> ('a \<Rightarrow> bool) \<Rightarrow> bool" where
  "yields m Q \<longleftrightarrow> (\<forall>s x. fst (m s) = Inr x \<longrightarrow> Q x)"

lemma yields_bind: "yields m P \<Longrightarrow> (\<And>x. P x \<Longrightarrow> yields (f x) Q) \<Longrightarrow> yields (st_bind m f) Q"
  unfolding yields_def st_bind_def by (auto split: prod.splits sum.splits) (metis fst_conv)

lemma yields_lift: "(\<And>x. m = Inr x \<Longrightarrow> Q x) \<Longrightarrow> yields (vs_lift m) Q"
  by (simp add: yields_def vs_lift_def)

lemma yields_return: "Q x \<Longrightarrow> yields (st_return x) Q"
  by (simp add: yields_def)

lemma yields_raise [simp]: "yields (vs_raise cd msg) Q" "yields proxy_cycle Q"
  by (simp_all add: yields_def vs_raise_def proxy_cycle_def)

lemma yields_mono: "yields m P \<Longrightarrow> (\<And>x. P x \<Longrightarrow> Q x) \<Longrightarrow> yields m Q"
  by (auto simp: yields_def)

lemma yields_if: "(b \<Longrightarrow> yields m Q) \<Longrightarrow> (\<not> b \<Longrightarrow> yields m' Q) \<Longrightarrow> yields (if b then m else m') Q"
  by simp

lemma yields_case: "(\<And>a b. p = (a, b) \<Longrightarrow> yields (f a b) Q) \<Longrightarrow> yields (case p of (a, b) \<Rightarrow> f a b) Q"
  by (cases p) simp

section \<open>Evidence\<close>

text \<open>The transport answered such a request with \<open>200\<close> and a JSON body of bounded shape.\<close>

definition answered :: "vs_env \<Rightarrow> pystr \<Rightarrow> pystr \<Rightarrow> bytes option \<Rightarrow> pyval \<Rightarrow> bool" where
  "answered env meth url body v \<longleftrightarrow>
     (\<exists>n q r b. hq_method q = meth \<and> hq_url q = url \<and> hq_body q = body
        \<and> ve_transport env n q = Reply r \<and> hr_status r = PInt 200 \<and> hr_body r = Some b
        \<and> ve_loads env b = Some v \<and> validate_json_shape v)"

definition rpc_answered :: "vs_env \<Rightarrow> int \<Rightarrow> pystr \<Rightarrow> pyval list \<Rightarrow> pyval \<Rightarrow> bool" where
  "rpc_answered env chain meth params result \<longleftrightarrow>
     (\<exists>i v. answered env ''POST'' (the (map_of RPC_ENDPOINTS chain)) (rpc_body env i meth params) v
        \<and> rpc_result i v = Inr result)"

definition code_at :: "vs_env \<Rightarrow> int \<Rightarrow> pystr \<Rightarrow> code_identity \<Rightarrow> bytes \<Rightarrow> bool" where
  "code_at env chain tag ident runtime \<longleftrightarrow>
     (\<exists>v. rpc_answered env chain ''eth_getCode'' [PStr (ci_address ident), PStr tag] v
        \<and> rpc_data MAX_CODE_BYTES ''bytecode'' v = Inr runtime)
     \<and> runtime \<noteq> [] \<and> ci_keccak ident = ''0x'' @ bytes_hex (ve_keccak env runtime) \<and> ci_size ident = length runtime"

text \<open>The address in a storage word, if it is set.\<close>

definition word_address :: "bytes \<Rightarrow> pystr option" where
  "word_address raw = (if any_set (drop 12 raw) then Some (''0x'' @ bytes_hex (drop 12 raw)) else None)"

definition slot_at :: "vs_env \<Rightarrow> int \<Rightarrow> pystr \<Rightarrow> pystr \<Rightarrow> pystr \<Rightarrow> pystr option \<Rightarrow> bool" where
  "slot_at env chain tag addr slot holds \<longleftrightarrow>
     (\<exists>v raw. rpc_answered env chain ''eth_getStorageAt'' [PStr addr, PStr slot, PStr tag] v
        \<and> rpc_data 32 ''storage word'' v = Inr raw \<and> length raw = 32 \<and> \<not> any_set (take 12 raw)
        \<and> holds = word_address raw)"

definition beacon_at :: "vs_env \<Rightarrow> int \<Rightarrow> pystr \<Rightarrow> pystr \<Rightarrow> pystr \<Rightarrow> bool" where
  "beacon_at env chain tag beacon impl \<longleftrightarrow>
     (\<exists>v raw. rpc_answered env chain ''eth_call''
           [PDict [(''to'', PStr beacon), (''data'', PStr BEACON_IMPLEMENTATION_SELECTOR)], PStr tag] v
        \<and> rpc_data 32 ''beacon result'' v = Inr raw \<and> length raw = 32 \<and> \<not> any_set (take 12 raw)
        \<and> word_address raw = Some impl)"

definition block_at :: "vs_env \<Rightarrow> int \<Rightarrow> pystr \<Rightarrow> block_identity \<Rightarrow> pystr \<Rightarrow> bool" where
  "block_at env chain asked block tag \<longleftrightarrow>
     (\<exists>d. rpc_answered env chain ''eth_getBlockByNumber'' [PStr asked, PBool False] (PDict d)
        \<and> rpc_quantity (dget d ''number'') = Inr (bi_number block, tag)
        \<and> rpc_hash (dget d ''hash'') = Inr (bi_hash block))"

section \<open>What the reads yield\<close>

lemma check_response_Inr:
  assumes "check_response env limit nf r = Inr v"
  shows "hr_status r = PInt 200 \<and> (\<exists>body. hr_body r = Some body \<and> ve_loads env body = Some v \<and> validate_json_shape v)"
proof -
  have load: "load_json env body = Inr v \<Longrightarrow> ve_loads env body = Some v \<and> validate_json_shape v" for body
    by (auto simp: load_json_def invalid_response_def vs_error_def split: option.splits if_splits)
  show ?thesis using assms
    by (cases "hr_status r") (auto simp: check_response_def vs_error_def invalid_response_def res_bind_Inr_iff
        dest!: load split: option.splits if_splits)
qed

lemma yields_http_json: "yields (http_json env meth url body limit nf) (answered env meth url body)"
  unfolding yields_def
proof (intro allI impI)
  fix s v
  assume a: "fst (http_json env meth url body limit nf s) = Inr v"
  let ?n = "Suc (vs_requests s)"
  show "answered env meth url body v"
  proof (cases "MAX_HTTP_REQUESTS < int ?n \<or> ve_remaining env ?n \<le> 0")
    case True
    show ?thesis using a unfolding http_json_def Let_def if_P [OF True] by (simp add: vs_error_def)
  next
    case False
    obtain q where q_def: "q = \<lparr>hq_method = meth, hq_url = url,
        hq_headers = [(''Accept'', ''application/json''), (''User-Agent'', ''lucent-verified-source/0.2'')]
          @ (if body \<noteq> None then [(''Content-Type'', ''application/json'')] else []),
        hq_body = body, hq_timeout = min REQUEST_TIMEOUT_SECONDS (ve_remaining env ?n), hq_limit = limit\<rparr>" by blast
    have q: "hq_method q = meth" "hq_url q = url" "hq_body q = body" by (simp_all add: q_def)
    obtain r where r: "ve_transport env ?n q = Reply r" and v: "check_response env limit nf r = Inr v"
      using a unfolding http_json_def Let_def if_not_P [OF False] q_def [symmetric]
      by (cases "ve_transport env ?n q") (auto simp: vs_error_def invalid_response_def)
    from check_response_Inr [OF v] q r show ?thesis unfolding answered_def by blast
  qed
qed

lemma yields_rpc_call: "yields (rpc_call env chain meth params) (rpc_answered env chain meth params)"
  unfolding yields_def
proof (intro allI impI)
  fix s v
  assume a: "fst (rpc_call env chain meth params s) = Inr v"
  let ?i = "vs_next_id s"
  let ?m = "st_bind (http_json env ''POST'' (the (map_of RPC_ENDPOINTS chain)) (rpc_body env ?i meth params)
      RPC_RESPONSE_BYTES None) (\<lambda>response. vs_lift (rpc_result ?i response))"
  have "yields ?m (rpc_answered env chain meth params)"
  proof (rule yields_bind [OF yields_http_json], rule yields_lift)
    fix r w
    assume "answered env ''POST'' (the (map_of RPC_ENDPOINTS chain)) (rpc_body env ?i meth params) r"
      "rpc_result ?i r = Inr w"
    then show "rpc_answered env chain meth params w" unfolding rpc_answered_def by blast
  qed
  moreover have "\<exists>s'. fst (?m s') = Inr v"
  proof (cases "28 < int (Suc (vs_calls s))")
    case True
    then show ?thesis using a by (simp add: rpc_call_unfold vs_error_def)
  next
    case False
    then show ?thesis using a unfolding rpc_call_unfold if_not_P [OF False] by blast
  qed
  ultimately show "rpc_answered env chain meth params v" unfolding yields_def by blast
qed

lemma yields_read:
  assumes "\<And>v x. rpc_answered env chain meth params v \<Longrightarrow> g v = Inr x \<Longrightarrow> yields (f x) Q"
  shows "yields (st_bind (rpc_call env chain meth params) (\<lambda>v. st_bind (vs_lift (g v)) f)) Q"
proof (rule yields_bind [OF yields_rpc_call])
  fix v
  assume "rpc_answered env chain meth params v"
  then show "yields (st_bind (vs_lift (g v)) f) Q"
    by (intro yields_bind [of _ "\<lambda>x. g v = Inr x"] yields_lift assms)
qed

lemma yields_read_code:
  "yields (read_code env chain addr tag) (\<lambda>(ident, runtime). ci_address ident = addr \<and> code_at env chain tag ident runtime)"
  unfolding read_code_def by (rule yields_read) (auto intro!: yields_return simp: code_at_def)

lemma yields_slot_address:
  "yields (slot_address env chain addr slot tag) (slot_at env chain tag addr slot)"
  unfolding slot_address_def
proof (rule yields_read)
  fix v raw
  assume "rpc_answered env chain ''eth_getStorageAt'' [PStr addr, PStr slot, PStr tag] v"
    "rpc_data 32 ''storage word'' v = Inr raw"
  then have "length raw = 32 \<Longrightarrow> \<not> any_set (take 12 raw) \<Longrightarrow> slot_at env chain tag addr slot (word_address raw)"
    unfolding slot_at_def by blast
  then show "yields (if length raw \<noteq> 32 \<or> any_set (take 12 raw)
        then vs_raise ''INVALID_PROXY_SLOT'' ''an EIP-1967 address slot was malformed''
        else if \<not> any_set (drop 12 raw) then st_return None
        else st_return (Some (''0x'' @ bytes_hex (drop 12 raw)))) (slot_at env chain tag addr slot)"
    by (auto intro!: yields_return simp: word_address_def)
qed

lemma yields_beacon_implementation:
  "yields (beacon_implementation env chain beacon tag) (beacon_at env chain tag beacon)"
  unfolding beacon_implementation_def
proof (rule yields_read)
  fix v raw
  assume "rpc_answered env chain ''eth_call''
      [PDict [(''to'', PStr beacon), (''data'', PStr BEACON_IMPLEMENTATION_SELECTOR)], PStr tag] v"
    "rpc_data 32 ''beacon result'' v = Inr raw"
  then have "length raw = 32 \<Longrightarrow> \<not> any_set (take 12 raw) \<Longrightarrow> word_address raw = Some i \<Longrightarrow>
      beacon_at env chain tag beacon i" for i
    unfolding beacon_at_def by blast
  then show "yields (if length raw \<noteq> 32 \<or> any_set (take 12 raw) \<or> \<not> any_set (drop 12 raw)
        then vs_raise ''INVALID_PROXY_BEACON'' ''the EIP-1967 beacon returned no implementation''
        else st_return (''0x'' @ bytes_hex (drop 12 raw))) (beacon_at env chain tag beacon)"
    by (auto intro!: yields_return simp: word_address_def)
qed

lemma block_fields_Inr:
  "block_fields cd msg v = Inr (n, tag, h) \<Longrightarrow>
     \<exists>d. v = PDict d \<and> rpc_quantity (dget d ''number'') = Inr (n, tag) \<and> rpc_hash (dget d ''hash'') = Inr h"
  by (auto simp: block_fields_def vs_error_def split: pyval.splits sum.splits prod.splits)

lemma yields_finalized_block:
  "yields (finalized_block env chain) (\<lambda>(block, tag). block_at env chain ''finalized'' block tag)"
  unfolding finalized_block_def
  by (rule yields_read) (auto intro!: yields_return simp: block_at_def dest!: block_fields_Inr)

lemma yields_canonical_block:
  "yields (assert_canonical_block env chain block tag) (\<lambda>_. \<exists>tag'. block_at env chain tag block tag')"
  unfolding assert_canonical_block_def block_at_def
  by (rule yields_read) (auto intro!: yields_return dest!: block_fields_Inr; blast)

section \<open>The proxy chain\<close>

text \<open>A hop rests on the code of its proxy and on its two slots at the pinned block.\<close>

definition hop_at :: "vs_env \<Rightarrow> int \<Rightarrow> pystr \<Rightarrow> proxy_hop \<Rightarrow> bool" where
  "hop_at env chain tag h \<longleftrightarrow>
     (let slots = (\<lambda>impl beacon. slot_at env chain tag (ci_address (ph_proxy h)) EIP1967_IMPLEMENTATION_SLOT impl
                     \<and> slot_at env chain tag (ci_address (ph_proxy h)) EIP1967_BEACON_SLOT beacon) in
      (\<exists>runtime. code_at env chain tag (ph_proxy h) runtime)
      \<and> (case ph_beacon h of
           None \<Rightarrow> ph_kind h = ''eip1967_implementation'' \<and> slots (Some (ph_implementation h)) None
         | Some b \<Rightarrow> ph_kind h = ''eip1967_beacon'' \<and> slots None (Some (ci_address b))
             \<and> (\<exists>runtime. code_at env chain tag b runtime)
             \<and> beacon_at env chain tag (ci_address b) (ph_implementation h)))"

text \<open>The contract the chain ends in: its code, and both slots empty.\<close>

definition end_at :: "vs_env \<Rightarrow> int \<Rightarrow> pystr \<Rightarrow> code_identity \<times> bytes \<Rightarrow> bool" where
  "end_at env chain tag e \<longleftrightarrow>
     code_at env chain tag (fst e) (snd e)
     \<and> slot_at env chain tag (ci_address (fst e)) EIP1967_IMPLEMENTATION_SLOT None
     \<and> slot_at env chain tag (ci_address (fst e)) EIP1967_BEACON_SLOT None"

fun linked :: "pystr \<Rightarrow> proxy_hop list \<Rightarrow> pystr \<Rightarrow> bool" where
  "linked a [] b \<longleftrightarrow> a = b"
| "linked a (h # hs) b \<longleftrightarrow> ci_address (ph_proxy h) = a \<and> linked (ph_implementation h) hs b"

definition proxies :: "proxy_hop list \<Rightarrow> pystr list" where
  "proxies hops = map (\<lambda>h. ci_address (ph_proxy h)) hops"

lemma yields_follow_proxy:
  assumes "code_at env chain tag ident runtime"
    and "slot_at env chain tag (ci_address ident) EIP1967_IMPLEMENTATION_SLOT impl"
    and "slot_at env chain tag (ci_address ident) EIP1967_BEACON_SLOT beacon"
    and "\<not> (impl \<noteq> None \<and> beacon \<noteq> None)" "\<not> (impl = None \<and> beacon = None)"
  shows "yields (follow_proxy env chain tag visited ident impl beacon)
           (\<lambda>h. ph_proxy h = ident \<and> hop_at env chain tag h)"
proof (cases beacon)
  case None
  then obtain i where "impl = Some i" using assms(5) by (cases impl) auto
  then show ?thesis using assms None
    by (auto simp: follow_proxy_def hop_at_def Let_def intro!: yields_return)
next
  case (Some b)
  then have impl: "impl = None" using assms(4) by blast
  have "yields (st_bind (read_code env chain b tag)
          (\<lambda>(beacon_ident, beacon_code). st_bind (beacon_implementation env chain b tag)
          (\<lambda>i. if i = b then proxy_cycle
               else st_return \<lparr>ph_proxy = ident, ph_kind = ''eip1967_beacon'',
                      ph_implementation = i, ph_beacon = Some beacon_ident\<rparr>)))
        (\<lambda>h. ph_proxy h = ident \<and> hop_at env chain tag h)"
  proof (rule yields_bind [OF yields_read_code], clarify)
    fix bi bcode
    assume bi: "b = ci_address bi" "code_at env chain tag bi bcode"
    show "yields (st_bind (beacon_implementation env chain (ci_address bi) tag)
          (\<lambda>i. if i = ci_address bi then proxy_cycle
               else st_return \<lparr>ph_proxy = ident, ph_kind = ''eip1967_beacon'',
                      ph_implementation = i, ph_beacon = Some bi\<rparr>))
        (\<lambda>h. ph_proxy h = ident \<and> hop_at env chain tag h)"
      by (rule yields_bind [OF yields_beacon_implementation], rule yields_if)
        (use assms(1-3) impl Some bi in \<open>auto simp: hop_at_def Let_def intro!: yields_return\<close>)
  qed
  then show ?thesis using Some by (simp add: follow_proxy_def)
qed

text \<open>What one run of the loop adds to the hops it started with.\<close>

definition chain_at ::
  "vs_env \<Rightarrow> int \<Rightarrow> pystr \<Rightarrow> pystr list \<Rightarrow> proxy_hop list \<Rightarrow> (code_identity \<times> bytes) option \<Rightarrow> pystr \<Rightarrow>
   (code_identity \<times> bytes) \<times> (code_identity \<times> bytes) \<times> proxy_hop list \<Rightarrow> bool" where
  "chain_at env chain tag visited hops target current = (\<lambda>(t, e, hs). \<exists>new.
     hs = hops @ new \<and> length hs \<le> MAX_PROXY_HOPS
     \<and> list_all (hop_at env chain tag) new \<and> linked current new (ci_address (fst e)) \<and> end_at env chain tag e
     \<and> distinct (proxies new @ [ci_address (fst e)])
     \<and> set (proxies new @ [ci_address (fst e)]) \<inter> set visited = {}
     \<and> (case target of Some t0 \<Rightarrow> t = t0
        | None \<Rightarrow> ci_address (fst t) = current \<and> code_at env chain tag (fst t) (snd t) \<and> (new = [] \<longrightarrow> t = e))
     \<and> (hs = [] \<longrightarrow> \<not> has_unsupported_dispatch (snd t)))"

lemma chain_at_end:
  assumes "length hops \<le> 4" "ci_address (fst e) = current" "current \<notin> set visited" "end_at env chain tag e"
    "hops = [] \<longrightarrow> \<not> has_unsupported_dispatch (snd (case target of None \<Rightarrow> e | Some t \<Rightarrow> t))"
  shows "chain_at env chain tag visited hops target current
           (case target of None \<Rightarrow> e | Some t \<Rightarrow> t, e, hops)"
  using assms by (auto simp: chain_at_def MAX_PROXY_HOPS_def proxies_def end_at_def split: option.splits)

lemma chain_at_hop:
  assumes "chain_at env chain tag (current # visited) (hops @ [h]) (Some (case target of None \<Rightarrow> here | Some t \<Rightarrow> t))
             (ph_implementation h) (t, e, hs)"
    and "ci_address (fst here) = current" "current \<notin> set visited" "code_at env chain tag (fst here) (snd here)"
    and "ph_proxy h = fst here" "hop_at env chain tag h"
  shows "chain_at env chain tag visited hops target current (t, e, hs)"
proof -
  obtain new where new: "hs = (hops @ [h]) @ new" "length hs \<le> MAX_PROXY_HOPS" "list_all (hop_at env chain tag) new"
    "linked (ph_implementation h) new (ci_address (fst e))" "end_at env chain tag e"
    "distinct (proxies new @ [ci_address (fst e)])" "set (proxies new @ [ci_address (fst e)]) \<inter> set (current # visited) = {}"
    "t = (case target of None \<Rightarrow> here | Some t \<Rightarrow> t)"
    using assms(1) unfolding chain_at_def by auto
  have "hs = hops @ (h # new) \<and> length hs \<le> MAX_PROXY_HOPS
     \<and> list_all (hop_at env chain tag) (h # new) \<and> linked current (h # new) (ci_address (fst e))
     \<and> end_at env chain tag e
     \<and> distinct (proxies (h # new) @ [ci_address (fst e)])
     \<and> set (proxies (h # new) @ [ci_address (fst e)]) \<inter> set visited = {}
     \<and> (case target of Some t0 \<Rightarrow> t = t0
        | None \<Rightarrow> ci_address (fst t) = current \<and> code_at env chain tag (fst t) (snd t) \<and> (h # new = [] \<longrightarrow> t = e))
     \<and> (hs = [] \<longrightarrow> \<not> has_unsupported_dispatch (snd t))"
    using new assms(2-6) by (auto simp: proxies_def split: option.split)
  then show ?thesis unfolding chain_at_def prod.case by blast
qed

lemma yields_proxy_chain:
  "length hops \<le> 4 \<Longrightarrow>
     yields (proxy_chain env chain tag visited hops target current)
       (chain_at env chain tag visited hops target current)"
proof (induction env chain tag visited hops target current rule: proxy_chain.induct)
  case (1 env chain tag visited hops target current)
  show ?case
  proof (cases "current \<in> set visited")
    case True
    then show ?thesis by (subst proxy_chain.simps) simp
  next
    case False
    show ?thesis
      unfolding proxy_chain.simps [of env chain tag visited] if_not_P [OF False] Let_def
    proof (rule yields_bind [OF yields_read_code], rule yields_bind [OF yields_slot_address],
        rule yields_bind [OF yields_slot_address], rule yields_if [OF yields_raise(1)], rule yields_if)
      fix here :: "code_identity \<times> bytes" and impl beacon :: "pystr option"
      assume r: "case here of (ident, runtime) \<Rightarrow> ci_address ident = current \<and> code_at env chain tag ident runtime"
        and slots: "slot_at env chain tag current EIP1967_IMPLEMENTATION_SLOT impl"
          "slot_at env chain tag current EIP1967_BEACON_SLOT beacon"
      let ?first = "case target of None \<Rightarrow> here | Some t \<Rightarrow> t"
      have here: "ci_address (fst here) = current" "code_at env chain tag (fst here) (snd here)"
        using r by (auto split: prod.splits)
      {
        assume "impl = None \<and> beacon = None"
        then have "end_at env chain tag here" using here slots by (simp add: end_at_def)
        then show "yields (if hops = [] \<and> has_unsupported_dispatch (snd ?first)
              then vs_raise ''UNSUPPORTED_DISPATCH'' ''target bytecode uses an unsupported dynamic dispatch mechanism''
              else st_return (?first, here, hops)) (chain_at env chain tag visited hops target current)"
          using "1.prems" here False by (intro yields_if yields_raise yields_return chain_at_end) blast+
      next
        assume *: "\<not> (impl \<noteq> None \<and> beacon \<noteq> None)" "\<not> (impl = None \<and> beacon = None)"
        show "yields (if MAX_PROXY_HOPS \<le> length hops
              then vs_raise ''PROXY_DEPTH_EXCEEDED'' ''the EIP-1967 proxy chain was too deep''
              else
                st_bind (follow_proxy env chain tag (current # visited) (fst here) impl beacon)
                (\<lambda>hop. proxy_chain env chain tag (current # visited) (hops @ [hop]) (Some ?first)
                         (ph_implementation hop)))
            (chain_at env chain tag visited hops target current)"
        proof (rule yields_if [OF yields_raise(1)])
          assume short: "\<not> MAX_PROXY_HOPS \<le> length hops"
          have "yields (follow_proxy env chain tag (current # visited) (fst here) impl beacon)
              (\<lambda>h. ph_proxy h = fst here \<and> hop_at env chain tag h)"
            by (rule yields_follow_proxy [OF here(2)]) (use slots here * in simp_all)
          then show "yields (st_bind (follow_proxy env chain tag (current # visited) (fst here) impl beacon)
                (\<lambda>hop. proxy_chain env chain tag (current # visited) (hops @ [hop]) (Some ?first)
                         (ph_implementation hop)))
              (chain_at env chain tag visited hops target current)"
          proof (rule yields_bind, elim conjE)
            fix hop
            assume h: "ph_proxy hop = fst here" "hop_at env chain tag hop"
            have "length (hops @ [hop]) \<le> 4" using short by (simp add: MAX_PROXY_HOPS_def)
            then have "yields (proxy_chain env chain tag (current # visited) (hops @ [hop]) (Some ?first)
                 (ph_implementation hop))
               (chain_at env chain tag (current # visited) (hops @ [hop]) (Some ?first) (ph_implementation hop))"
              by (rule "1.IH" [OF False refl * short])
            then show "yields (proxy_chain env chain tag (current # visited) (hops @ [hop]) (Some ?first)
                 (ph_implementation hop)) (chain_at env chain tag visited hops target current)"
              by (rule yields_mono) (use chain_at_hop here h False in \<open>metis prod_cases3\<close>)
          qed
        qed
      }
    qed
  qed
qed

section \<open>The binding and the result\<close>

text \<open>Sourcify's answer for the contract carries this very code, and the ABI that is hashed.\<close>

definition bound_at ::
  "vs_env \<Rightarrow> int \<Rightarrow> pystr \<Rightarrow> bytes \<Rightarrow> pystr \<Rightarrow> pystr \<Rightarrow> bytes \<Rightarrow> bool" where
  "bound_at env chain addr runtime matched abi_hash abi_json \<longleftrightarrow>
     (\<exists>d r. answered env ''GET'' (source_url chain addr) None (PDict d)
        \<and> vs_normalize_address (dget d ''address'') = Inr addr
        \<and> dget d ''runtimeMatch'' = PStr matched \<and> matched \<in> set VERIFIED_MATCHES
        \<and> dget d ''runtimeBytecode'' = PDict r
        \<and> rpc_data MAX_CODE_BYTES ''verified runtime bytecode'' (dget r ''onchainBytecode'') = Inr runtime
        \<and> canonical_bytes (ve_float_text env) (dget d ''abi'') = Some abi_json
        \<and> abi_hash = ''sha256:'' @ bytes_hex (ve_sha256 env abi_json))"

lemma validate_verified_abi_Inr:
  "validate_verified_abi env v = Inr encoded \<Longrightarrow> canonical_bytes (ve_float_text env) v = Some encoded"
  by (cases v) (auto simp: validate_verified_abi_def invalid_abi_def vs_error_def res_bind_Inr_iff
      split: if_splits option.splits)

lemma check_source_Inr:
  assumes "answered env ''GET'' (source_url chain (ci_address contract)) None v"
    and "check_source env chain contract runtime v = Inr (m, h, j)"
  shows "bound_at env chain (ci_address contract) runtime m h j"
proof -
  obtain d where d: "v = PDict d" using assms(2) by (cases v) (auto simp: check_source_def vs_error_def)
  obtain addr where addr: "vs_normalize_address (dget d ''address'') = Inr addr"
    using assms(2) d by (cases "vs_normalize_address (dget d ''address'')")
      (auto simp: check_source_def identity_mismatch_def vs_error_def split: if_splits)
  obtain rm where rm: "dget d ''runtimeMatch'' = PStr rm"
    using assms(2) d addr by (cases "dget d ''runtimeMatch''")
      (auto simp: check_source_def identity_mismatch_def vs_error_def split: if_splits)
  obtain r where r: "dget d ''runtimeBytecode'' = PDict r"
    using assms(2) d addr rm by (cases "dget d ''runtimeBytecode''")
      (auto simp: check_source_def identity_mismatch_def vs_error_def split: if_splits)
  have "addr = ci_address contract \<and> rm = m \<and> rm \<in> set VERIFIED_MATCHES
      \<and> rpc_data MAX_CODE_BYTES ''verified runtime bytecode'' (dget r ''onchainBytecode'') = Inr runtime
      \<and> validate_verified_abi env (dget d ''abi'') = Inr j \<and> h = ''sha256:'' @ bytes_hex (ve_sha256 env j)"
    using assms(2) d addr rm r
    by (auto simp: check_source_def identity_mismatch_def vs_error_def res_bind_Inr_iff split: if_splits)
  with assms(1) d addr rm r validate_verified_abi_Inr show ?thesis unfolding bound_at_def by blast
qed

lemma yields_sourcify:
  "yields (sourcify_binding env chain contract runtime)
     (\<lambda>(m, h, j). bound_at env chain (ci_address contract) runtime m h j)"
  unfolding sourcify_binding_def
  by (rule yields_bind [OF yields_http_json], rule yields_lift) (auto intro: check_source_Inr)

definition proved_on_chain :: "vs_env \<Rightarrow> verified_source \<Rightarrow> bool" where
  "proved_on_chain env so \<longleftrightarrow>
     (\<exists>tag runtime tag'.
        block_at env (so_chain so) ''finalized'' (so_block so) tag
        \<and> block_at env (so_chain so) tag (so_block so) tag'
        \<and> length (so_proxies so) \<le> MAX_PROXY_HOPS
        \<and> list_all (hop_at env (so_chain so) tag) (so_proxies so)
        \<and> ci_address (so_target so) = so_address so
        \<and> linked (so_address so) (so_proxies so) (ci_address (so_effective so))
        \<and> distinct (proxies (so_proxies so) @ [ci_address (so_effective so)])
        \<and> end_at env (so_chain so) tag (so_effective so, runtime)
        \<and> (so_proxies so = [] \<longrightarrow> so_target so = so_effective so \<and> \<not> has_unsupported_dispatch runtime)
        \<and> bound_at env (so_chain so) (ci_address (so_effective so)) runtime
             (so_match so) (so_abi_hash so) (so_abi_json so))"

lemma yields_resolve:
  "yields (resolve_on_chain env chain addr)
     (\<lambda>so. so_chain so = chain \<and> so_address so = addr \<and> proved_on_chain env so)"
  unfolding resolve_on_chain_def
proof (rule yields_read, rule yields_case, rule yields_if [OF yields_raise(1)],
    rule yields_bind [OF yields_finalized_block], rule yields_case,
    rule yields_bind [OF yields_proxy_chain], simp, rule yields_case, rule yields_case,
    rule yields_bind [OF yields_sourcify], rule yields_case, rule yields_case,
    rule yields_bind [OF yields_canonical_block], rule yields_return)
  fix bt thp block tag r and t e :: "code_identity \<times> bytes" and eh hops mhj m hj h j
  let ?so = "\<lparr>so_chain = chain, so_address = addr, so_block = block, so_target = fst t,
      so_effective = fst e, so_proxies = hops, so_match = m, so_abi_hash = h, so_abi_json = j\<rparr>"
  assume b: "case bt of (block, tag) \<Rightarrow> block_at env chain ''finalized'' block tag" "bt = (block, tag)"
    and b': "\<exists>tag'. block_at env chain tag block tag'"
    and c: "chain_at env chain tag [] [] None addr thp" "thp = (t, eh)" "eh = (e, hops)"
    and s: "case mhj of (m, h, j) \<Rightarrow> bound_at env chain (ci_address (fst e)) (snd e) m h j" "mhj = (m, hj)" "hj = (h, j)"
  from c have "length hops \<le> MAX_PROXY_HOPS" "list_all (hop_at env chain tag) hops" "ci_address (fst t) = addr"
    "linked addr hops (ci_address (fst e))" "distinct (proxies hops @ [ci_address (fst e)])"
    "end_at env chain tag (fst e, snd e)" "hops = [] \<longrightarrow> fst t = fst e \<and> \<not> has_unsupported_dispatch (snd e)"
    by (auto simp: chain_at_def)
  with b b' s have "proved_on_chain env ?so" unfolding proved_on_chain_def by (cases e) (simp; blast)
  then show "so_chain ?so = chain \<and> so_address ?so = addr \<and> proved_on_chain env ?so" by simp
qed

text \<open>A chain with one contract, verified at its finalized code; bodies name the answers.\<close>

definition toy_target :: pystr where
  "toy_target = ''0x'' @ replicate 40 (CHR ''a'')"

definition toy_hash :: pystr where
  "toy_hash = ''0x'' @ replicate 64 (CHR ''b'')"

definition toy_answers :: "pyval list" where
  "toy_answers =
     (let rpc = (\<lambda>i v. PDict [(''jsonrpc'', PStr ''2.0''), (''id'', PInt i), (''result'', v)]);
          block = PDict [(''number'', PStr ''0x10''), (''hash'', PStr toy_hash)];
          zero = PStr (''0x'' @ replicate 64 (CHR ''0''))
      in [PNone, rpc 1 (PStr ''0x1''), rpc 2 block, rpc 3 (PStr ''0x6000''), rpc 4 zero, rpc 5 zero,
          PDict [(''chainId'', PStr ''1''), (''address'', PStr toy_target), (''match'', PStr ''match''),
                 (''runtimeMatch'', PStr ''exact_match''),
                 (''runtimeBytecode'', PDict [(''onchainBytecode'', PStr ''0x6000'')]),
                 (''abi'', PList [PDict [(''type'', PStr ''function''), (''name'', PStr ''ping'')]])],
          rpc 6 block])"

definition toy_chain :: vs_env where
  "toy_chain = \<lparr>ve_transport = (\<lambda>n q. Reply \<lparr>hr_status = PInt 200,
        hr_headers = Some [(''Content-Type'', ''application/json'')], hr_body = Some [of_nat n]\<rparr>),
     ve_remaining = (\<lambda>n. 8),
     ve_loads = (\<lambda>b. case b of [x] \<Rightarrow> Some (toy_answers ! unat x) | _ \<Rightarrow> None),
     ve_float_text = (\<lambda>r. []), ve_keccak = (\<lambda>b. b), ve_sha256 = (\<lambda>b. b)\<rparr>"

definition toy_state :: "nat \<Rightarrow> nat \<Rightarrow> vs_state" where
  "toy_state r c = \<lparr>vs_requests = r, vs_calls = c, vs_next_id = int c + 1\<rparr>"

lemma toy_chain_id:
  "rpc_call toy_chain 1 ''eth_chainId'' [] (toy_state 0 0) = (Inr (PStr ''0x1''), toy_state 1 1)"
  by code_simp

lemma toy_quantity:
  "rpc_quantity (PStr ''0x1'') = Inr (1, ''0x1'')"
  by code_simp

lemma toy_block:
  "finalized_block toy_chain 1 (toy_state 1 1)
     = (Inr (\<lparr>bi_number = 16, bi_hash = toy_hash\<rparr>, ''0x10''), toy_state 2 2)"
  by code_simp

lemma toy_proxies:
  "proxy_chain toy_chain 1 ''0x10'' [] [] None toy_target (toy_state 2 2)
     = (let e = (\<lparr>ci_address = toy_target, ci_keccak = ''0x6000'', ci_size = 2\<rparr>, [0x60, 0])
        in (Inr (e, e, []), toy_state 5 5))"
  by code_simp

lemma toy_source:
  "sourcify_binding toy_chain 1 \<lparr>ci_address = toy_target, ci_keccak = ''0x6000'', ci_size = 2\<rparr> [0x60, 0] (toy_state 5 5)
     = (let j = utf8 ''[{\"name\":\"ping\",\"type\":\"function\"}]''
        in (Inr (''exact_match'', ''sha256:'' @ bytes_hex j, j), toy_state 6 5))"
  by code_simp

lemma toy_canonical:
  "assert_canonical_block toy_chain 1 \<lparr>bi_number = 16, bi_hash = toy_hash\<rparr> ''0x10'' (toy_state 6 5)
     = (Inr (), toy_state 7 6)"
  by code_simp

lemmas toy_steps = toy_chain_id [unfolded Let_def] toy_quantity [unfolded Let_def] toy_block [unfolded Let_def] toy_proxies [unfolded Let_def] toy_source [unfolded Let_def] toy_canonical [unfolded Let_def]

lemma toy_resolves: "succeeds (fst (resolve_on_chain toy_chain 1 toy_target fresh_client))"
proof -
  have fresh: "fresh_client = toy_state 0 0" by (simp add: fresh_client_def toy_state_def)
  show ?thesis
    unfolding resolve_on_chain_def fresh
    by (simp add: toy_steps vs_lift_def st_bind_def del: One_nat_def)
qed

text \<open>
  C9: A resolved ABI is bound to the code it decodes for. When resolution succeeds, the
  chain and address are the normalised inputs; the block was finalized and was still
  canonical at the end; from the requested address, every hop rests on the proxy's code,
  its two EIP-1967 slots and its beacon's answer at that block; no contract occurs twice and
  there are at most four hops; the last contract has code and no slot set; its Sourcify
  record carries exactly that runtime code; and the ABI's hash is of its canonical JSON.
  Without a proxy the code has no dynamic dispatch.
\<close>

theorem source_evidence:
  assumes "fst (resolve_verified_source env chain_id address) = Inr so"
  shows "\<exists>a. chain_id = PInt (so_chain so) \<and> so_chain so \<in> {1, 8453}
     \<and> address = PStr a \<and> is_hex_of 40 a \<and> so_address so = py_lower a \<and> proved_on_chain env so"
proof -
  obtain chain where c: "vs_normalize_chain_id chain_id = Inr chain"
    using assms by (cases "vs_normalize_chain_id chain_id") (simp_all add: resolve_verified_source_def)
  obtain addr where a: "vs_normalize_address address = Inr addr"
    using assms c by (cases "vs_normalize_address address") (simp_all add: resolve_verified_source_def)
  have "fst (resolve_on_chain env chain addr fresh_client) = Inr so"
    using assms c a by (simp add: resolve_verified_source_def)
  then have so: "so_chain so = chain" "so_address so = addr" "proved_on_chain env so"
    using yields_resolve [of env chain addr] unfolding yields_def by blast+
  have "chain_id = PInt chain \<and> chain \<in> {1, 8453}"
    using c by (auto simp: vs_normalize_chain_id_def vs_error_def RPC_ENDPOINTS_def split: pyval.splits if_splits)
  moreover obtain b where "address = PStr b" "is_hex_of 40 b" "addr = py_lower b"
    using a by (auto simp: vs_normalize_address_def vs_error_def split: pyval.splits if_splits)
  ultimately show ?thesis using so by (metis (no_types))
qed

theorem source_evidence_witness:
  "\<exists>so. fst (resolve_verified_source toy_chain (PInt 1) (PStr toy_target)) = Inr so
     \<and> so_chain so = 1 \<and> proved_on_chain toy_chain so"
proof -
  have "succeeds (fst (resolve_on_chain toy_chain 1 toy_target fresh_client))" by (rule toy_resolves)
  moreover have "vs_normalize_chain_id (PInt 1) = Inr 1"
    by (simp add: vs_normalize_chain_id_def VS_MAX_CHAIN_ID_def RPC_ENDPOINTS_def)
  moreover have "vs_normalize_address (PStr toy_target) = Inr toy_target" by code_simp
  ultimately have "succeeds (fst (resolve_verified_source toy_chain (PInt 1) (PStr toy_target)))"
    by (simp add: resolve_verified_source_def)
  then obtain so where so: "fst (resolve_verified_source toy_chain (PInt 1) (PStr toy_target)) = Inr so"
    by (cases "fst (resolve_verified_source toy_chain (PInt 1) (PStr toy_target))") auto
  from source_evidence [OF so] have "PInt 1 = PInt (so_chain so) \<and> proved_on_chain toy_chain so" by blast
  with so show ?thesis by auto
qed

end
