(* ===== verification/Source_Values.thy ===== *)
theory Source_Values
  imports Source_Resolve
begin

text \<open>
  The public values of \<open>lucent/verified_source.py\<close>: the dictionaries of its result classes,
  the derived properties, the size the cache charges, and the bounded read of the
  default transport.
\<close>

section \<open>Dictionaries\<close>

definition vs_failure_dict :: "vs_failure \<Rightarrow> pyval" where
  "vs_failure_dict e = PDict [(''code'', PStr (vs_code e)), (''message'', PStr (vs_message e))]"

definition block_dict :: "block_identity \<Rightarrow> pyval" where
  "block_dict b = PDict [(''number'', PInt (bi_number b)), (''hash'', PStr (bi_hash b))]"

definition code_dict :: "code_identity \<Rightarrow> pyval" where
  "code_dict c = PDict [(''address'', PStr (ci_address c)), (''keccak256'', PStr (ci_keccak c)),
     (''size_bytes'', PInt (int (ci_size c)))]"

definition hop_dict :: "proxy_hop \<Rightarrow> pyval" where
  "hop_dict h = PDict ([(''proxy'', code_dict (ph_proxy h)), (''kind'', PStr (ph_kind h)),
     (''implementation_address'', PStr (ph_implementation h))]
     @ (case ph_beacon h of None \<Rightarrow> [] | Some b \<Rightarrow> [(''beacon'', code_dict b)]))"

text \<open>The \<open>abi\<close> property decodes the stored JSON again; the decoder is a parameter.\<close>

definition source_abi :: "(bytes \<Rightarrow> pyval) \<Rightarrow> verified_source \<Rightarrow> pyval" where
  "source_abi loads so = loads (so_abi_json so)"

definition source_dict :: "(bytes \<Rightarrow> pyval) \<Rightarrow> verified_source \<Rightarrow> pyval" where
  "source_dict loads so = PDict
     [(''chain_id'', PInt (so_chain so)), (''address'', PStr (so_address so)),
      (''block'', block_dict (so_block so)), (''target'', code_dict (so_target so)),
      (''proxy_chain'', PList (map hop_dict (so_proxies so))),
      (''abi_binding'', PDict
        [(''provider'', PStr ''sourcify_v2''), (''address'', PStr (ci_address (so_effective so))),
         (''runtime_code_hash'', PStr (ci_keccak (so_effective so))),
         (''runtime_code_size_bytes'', PInt (int (ci_size (so_effective so)))),
         (''match'', PStr (so_match so)), (''abi_hash'', PStr (so_abi_hash so)),
         (''abi'', source_abi loads so)])]"

definition implementation_address :: "verified_source \<Rightarrow> pystr option" where
  "implementation_address so = (if so_proxies so = [] then None else Some (ci_address (so_effective so)))"

definition implementation_code_hash :: "verified_source \<Rightarrow> pystr option" where
  "implementation_code_hash so = (if so_proxies so = [] then None else Some (ci_keccak (so_effective so)))"

definition cache_size_bytes :: "(rat \<Rightarrow> pystr) \<Rightarrow> (bytes \<Rightarrow> pyval) \<Rightarrow> verified_source \<Rightarrow> nat option" where
  "cache_size_bytes float_text loads so =
     map_option length (canonical_bytes float_text (source_dict loads so))"

section \<open>The default transport's read\<close>

text \<open>
  A response as \<open>urllib\<close> gives it: the status, the two headers looked up case-insensitively
  and the bytes the body stream holds, of which \<open>read\<close> takes at most so many.
\<close>

record raw_response =
  rw_status :: int
  rw_type :: "pystr option"
  rw_length :: "pystr option"
  rw_stream :: bytes

definition stream_response :: "int \<Rightarrow> raw_response \<Rightarrow> reply" where
  "stream_response limit raw =
     (let declared = (case rw_length raw of None \<Rightarrow> 0
            | Some t \<Rightarrow> (case py_int_text t of None \<Rightarrow> -1 | Some n \<Rightarrow> n));
          body = take (nat (limit + 1)) (rw_stream raw) in
      if declared < 0 \<or> limit < declared then TransportLimit
      else if limit < int (length body) then TransportLimit
      else Reply \<lparr>hr_status = PInt (rw_status raw),
             hr_headers = Some [(''content-type'', case rw_type raw of None \<Rightarrow> [] | Some t \<Rightarrow> t),
               (''content-length'', case rw_length raw of None \<Rightarrow> [] | Some t \<Rightarrow> t)],
             hr_body = Some body\<rparr>)"

text \<open>\<open>_urlopen_transport\<close>: a response, an HTTP error status, or any other exception.\<close>

datatype opened = Opened raw_response | HttpError int | OpenFails

definition urlopen_transport :: "(http_request \<Rightarrow> opened) \<Rightarrow> http_request \<Rightarrow> reply" where
  "urlopen_transport opener request =
     (case opener request of
        Opened raw \<Rightarrow> stream_response (hq_limit request) raw
      | HttpError status \<Rightarrow> Reply \<lparr>hr_status = PInt status, hr_headers = Some [], hr_body = Some []\<rparr>
      | OpenFails \<Rightarrow> TransportFails)"

section \<open>Facts\<close>

text \<open>What the default transport hands on was the whole body, and within the request's limit.\<close>

lemma stream_response_whole:
  assumes "0 \<le> limit" "stream_response limit raw = Reply r"
  shows "hr_body r = Some (rw_stream raw)" "int (length (rw_stream raw)) \<le> limit"
proof -
  have "\<not> limit < int (length (take (nat (limit + 1)) (rw_stream raw)))"
    and b: "hr_body r = Some (take (nat (limit + 1)) (rw_stream raw))"
    using assms(2) by (auto simp: stream_response_def Let_def split: if_splits)
  then show l: "int (length (rw_stream raw)) \<le> limit" using assms(1) by (auto simp: min_def split: if_splits)
  then show "hr_body r = Some (rw_stream raw)" using b by simp
qed

text \<open>An HTTP error never yields a body to decode: every status but \<open>200\<close> fails the request.\<close>

lemma http_error_fails:
  assumes "opener request = HttpError status" "urlopen_transport opener request = Reply r" "status \<noteq> 200"
  shows "\<not> succeeds (check_response env limit nf r)"
proof -
  have "hr_status r = PInt status" using assms(1,2) by (auto simp: urlopen_transport_def)
  then show ?thesis using assms(3) by (simp add: check_response_def vs_error_def)
qed

end
