(* ===== verification/Payment_Client.thy ===== *)
theory Payment_Client
  imports Bounded_Http
begin

text \<open>
  The facilitator client of \<open>lucent/payments.py\<close>: the error value, the bounded JSON of a
  facilitator's answer and the two posts. The objects of the \<open>x402\<close> library are values of
  the records below; decoding and validating them, the socket and \<open>json.loads\<close> are
  parameters.
\<close>

section \<open>Limits and errors\<close>

definition BASE_MAINNET :: pystr where "BASE_MAINNET = ''eip155:8453''"
definition BASE_MAINNET_USDC :: pystr where
  "BASE_MAINNET_USDC = ''0x833589fCD6eDb6E08f4c7C32D4f71b54bdA02913''"
definition MAX_PAYMENT_HEADER_BYTES :: int where "MAX_PAYMENT_HEADER_BYTES = 64 * 1024"
definition MAX_FACILITATOR_RESPONSE_BYTES :: int where "MAX_FACILITATOR_RESPONSE_BYTES = 256 * 1024"
definition MAX_FACILITATOR_JSON_DEPTH :: int where "MAX_FACILITATOR_JSON_DEPTH = 32"
definition MAX_FACILITATOR_JSON_NODES :: int where "MAX_FACILITATOR_JSON_NODES = 20000"
definition MAX_FACILITATOR_JSON_STRING :: int where "MAX_FACILITATOR_JSON_STRING = 64 * 1024"
definition MAX_PRICE_ATOMIC :: int where "MAX_PRICE_ATOMIC = 100000000"
definition MAX_PAYMENT_TIMEOUT_SECONDS :: int where "MAX_PAYMENT_TIMEOUT_SECONDS = 300"

record pay_error =
  py_code :: pystr
  py_message :: pystr
  py_status :: int
  py_retryable :: bool
  py_terminal :: bool

definition rejected :: "pystr \<Rightarrow> pystr \<Rightarrow> pay_error" where
  "rejected cd msg = \<lparr>py_code = cd, py_message = msg, py_status = 402, py_retryable = False, py_terminal = False\<rparr>"

definition upstream_error :: "pystr \<Rightarrow> pystr \<Rightarrow> pay_error" where
  "upstream_error cd msg = \<lparr>py_code = cd, py_message = msg, py_status = 502, py_retryable = True, py_terminal = False\<rparr>"

definition invalid_facilitator :: "pystr \<Rightarrow> pay_error" where
  "invalid_facilitator msg = upstream_error ''FACILITATOR_INVALID_RESPONSE'' msg"

section \<open>The shape of an answer\<close>

fun value_nodes :: "pyval \<Rightarrow> nat" where
  "value_nodes (PList xs) = Suc (sum_list (map value_nodes xs))"
| "value_nodes (PDict kvs) = Suc (sum_list (map (\<lambda>kv. value_nodes (snd kv)) kvs))"
| "value_nodes v = 1"

definition values_on :: "(pyval \<times> int) list \<Rightarrow> nat" where
  "values_on st = sum_list (map (\<lambda>x. value_nodes (fst x)) st)"

lemma values_on_simps [simp]:
  "values_on [] = 0" "values_on (x # st) = value_nodes (fst x) + values_on st"
  "values_on (st @ st') = values_on st + values_on st'"
  "values_on (pushed_children d xs) = sum_list (map value_nodes xs)"
  by (simp_all add: values_on_def pushed_children_def comp_def rev_map [symmetric] sum_list_rev)

text \<open>The loop of \<open>_validate_facilitator_json\<close>: keys are not counted, finite floats pass.\<close>

function facilitator_loop :: "int \<Rightarrow> (pyval \<times> int) list \<Rightarrow> bool" where
  "facilitator_loop nodes [] = True"
| "facilitator_loop nodes ((item, depth) # stack) =
     (let n = nodes + 1 in
      if MAX_FACILITATOR_JSON_NODES < n \<or> MAX_FACILITATOR_JSON_DEPTH < depth then False
      else
        (case item of
           PStr s \<Rightarrow> if MAX_FACILITATOR_JSON_STRING < int (length s) then False else facilitator_loop n stack
         | PDict kvs \<Rightarrow> facilitator_loop n (pushed_children depth (map snd kvs) @ stack)
         | PList xs \<Rightarrow> facilitator_loop n (pushed_children depth xs @ stack)
         | PNone \<Rightarrow> facilitator_loop n stack
         | PBool b \<Rightarrow> facilitator_loop n stack
         | PInt i \<Rightarrow> facilitator_loop n stack
         | PFloat f \<Rightarrow> (case f of Finite r \<Rightarrow> facilitator_loop n stack | _ \<Rightarrow> False)
         | _ \<Rightarrow> False))"
  by pat_completeness auto
termination
  by (relation "measure (\<lambda>(n, st). values_on st)") (simp_all add: comp_def)

declare facilitator_loop.simps(2) [simp del]

definition validate_facilitator_json :: "pyval \<Rightarrow> bool" where
  "validate_facilitator_json v = facilitator_loop 0 [(v, 0)]"

section \<open>Objects of the payment protocol\<close>

record requirements =
  rq_scheme :: pystr
  rq_network :: pystr
  rq_asset :: pystr
  rq_amount :: pystr
  rq_pay_to :: pystr
  rq_timeout :: int

text \<open>A decoded proof: the inner payload, the dump of the accepted terms, the resource's URL.\<close>

record pay_proof =
  pf_version :: int
  pf_payload :: pyval
  pf_accepted :: pyval
  pf_resource :: "pystr option"
  pf_dump :: pyval

record verify_response =
  vr_valid :: bool
  vr_payer :: "pystr option"

record settle_response =
  sr_success :: bool
  sr_payer :: "pystr option"
  sr_transaction :: pystr
  sr_network :: pystr
  sr_amount :: "pystr option"

text \<open>What a call upstream ends in: an answer, a \<open>PaymentError\<close>, or any other exception.\<close>

datatype 'a upstream = Answer 'a | Fails pay_error | Breaks

section \<open>The client\<close>

text \<open>
  Opening the URL: a response with its content length and the bytes its stream holds, one
  of the caught exceptions, or any other.
\<close>

datatype posted = PostReply "pystr option" bytes | PostFails | PostRaises

record pay_client =
  cl_open :: "pystr \<Rightarrow> bytes \<Rightarrow> (pystr \<times> pystr) list \<Rightarrow> posted"
  cl_url :: pystr
  cl_bearer :: "pystr option"
  cl_loads :: "bytes \<Rightarrow> pyval option"
  cl_float_text :: "rat \<Rightarrow> pystr"
  cl_dump :: "requirements \<Rightarrow> pyval"
  cl_verify_model :: "pyval \<Rightarrow> verify_response option"
  cl_settle_model :: "pyval \<Rightarrow> settle_response option"

definition strip_slash :: "pystr \<Rightarrow> pystr" where
  "strip_slash s = rev (dropWhile (\<lambda>c. c = CHR ''/'') (rev s))"

definition post_headers :: "pay_client \<Rightarrow> (pystr \<times> pystr) list" where
  "post_headers cl =
     [(''Content-Type'', ''application/json''), (''Accept'', ''application/json''),
      (''User-Agent'', ''lucent-x402/0.2.1'')]
     @ (case cl_bearer cl of None \<Rightarrow> [] | Some t \<Rightarrow> [(''Authorization'', ''Bearer '' @ t)])"

definition post_body :: "pay_client \<Rightarrow> pay_proof \<Rightarrow> requirements \<Rightarrow> bytes option" where
  "post_body cl p rq =
     map_option utf8 (json_text (cl_float_text cl) False True
       (PDict [(''x402Version'', PInt 2), (''paymentPayload'', pf_dump p), (''paymentRequirements'', cl_dump cl rq)]))"

definition read_answer :: "pay_client \<Rightarrow> bytes \<Rightarrow> (pystr \<times> pyval) list upstream" where
  "read_answer cl raw =
     (if MAX_FACILITATOR_RESPONSE_BYTES < int (length raw)
      then Fails (invalid_facilitator ''payment facilitator response was too large'')
      else
        (case cl_loads cl raw of
           None \<Rightarrow> Fails (invalid_facilitator ''payment facilitator returned invalid JSON'')
         | Some v \<Rightarrow>
             if \<not> validate_facilitator_json v
             then Fails (invalid_facilitator ''payment facilitator returned invalid JSON'')
             else (case v of PDict d \<Rightarrow> Answer d
                   | _ \<Rightarrow> Fails (invalid_facilitator ''payment facilitator returned invalid data''))))"

definition post :: "pay_client \<Rightarrow> pystr \<Rightarrow> pay_proof \<Rightarrow> requirements \<Rightarrow> (pystr \<times> pyval) list upstream" where
  "post cl operation p rq =
     (let unavailable = Fails (upstream_error ''FACILITATOR_UNAVAILABLE'' ''payment facilitator is temporarily unavailable'') in
      case post_body cl p rq of
        None \<Rightarrow> Breaks
      | Some body \<Rightarrow>
          (case cl_open cl (strip_slash (cl_url cl) @ ''/'' @ operation) body (post_headers cl) of
             PostFails \<Rightarrow> unavailable
           | PostRaises \<Rightarrow> Breaks
           | PostReply len stream \<Rightarrow>
               (case (case len of None \<Rightarrow> Some 0 | Some t \<Rightarrow> if t = [] then Some 0 else py_int_text t) of
                  None \<Rightarrow> unavailable
                | Some n \<Rightarrow>
                    if MAX_FACILITATOR_RESPONSE_BYTES < n
                    then Fails (invalid_facilitator ''payment facilitator response was too large'')
                    else read_answer cl (take (nat (MAX_FACILITATOR_RESPONSE_BYTES + 1)) stream))))"

definition client_verify :: "pay_client \<Rightarrow> pay_proof \<Rightarrow> requirements \<Rightarrow> verify_response upstream" where
  "client_verify cl p rq =
     (case post cl ''verify'' p rq of
        Answer d \<Rightarrow>
          (case cl_verify_model cl (PDict d) of
             Some r \<Rightarrow> Answer r
           | None \<Rightarrow> Fails (invalid_facilitator ''payment verifier returned an invalid response''))
      | Fails e \<Rightarrow> Fails e
      | Breaks \<Rightarrow> Breaks)"

definition client_settle :: "pay_client \<Rightarrow> pay_proof \<Rightarrow> requirements \<Rightarrow> settle_response upstream" where
  "client_settle cl p rq =
     (case post cl ''settle'' p rq of
        Answer d \<Rightarrow>
          (case cl_settle_model cl (PDict d) of
             Some r \<Rightarrow> Answer r
           | None \<Rightarrow> Fails (invalid_facilitator ''payment settlement returned an invalid response''))
      | Fails e \<Rightarrow> Fails e
      | Breaks \<Rightarrow> Breaks)"

section \<open>Facts\<close>

fun value_bounded :: "int \<Rightarrow> pyval \<Rightarrow> bool" where
  "value_bounded d (PStr s) \<longleftrightarrow> d \<le> 32 \<and> length s \<le> 65536"
| "value_bounded d (PDict kvs) \<longleftrightarrow> d \<le> 32 \<and> list_all (\<lambda>kv. value_bounded (d + 1) (snd kv)) kvs"
| "value_bounded d (PList xs) \<longleftrightarrow> d \<le> 32 \<and> list_all (value_bounded (d + 1)) xs"
| "value_bounded d PNone \<longleftrightarrow> d \<le> 32"
| "value_bounded d (PBool b) \<longleftrightarrow> d \<le> 32"
| "value_bounded d (PInt i) \<longleftrightarrow> d \<le> 32"
| "value_bounded d (PFloat f) \<longleftrightarrow> d \<le> 32 \<and> f \<notin> {PosInf, NegInf, NaN}"
| "value_bounded d v \<longleftrightarrow> False"

lemma value_bounded_depth: "value_bounded d v \<Longrightarrow> d \<le> 32"
  by (cases v) auto

lemma pushed_values_all:
  "(\<forall>x\<in>set (pushed_children d xs). value_bounded (snd x) (fst x)) \<longleftrightarrow> list_all (value_bounded (d + 1)) xs"
  by (auto simp: pushed_children_def list_all_iff)

lemma facilitator_loop_bounded:
  "nodes \<le> 20000 \<Longrightarrow> facilitator_loop nodes st \<longleftrightarrow>
     nodes + int (values_on st) \<le> 20000 \<and> (\<forall>x\<in>set st. value_bounded (snd x) (fst x))"
proof (induction nodes st rule: facilitator_loop.induct)
  case (1 nodes)
  then show ?case by simp
next
  case (2 nodes item depth stack)
  have pos: "1 \<le> value_nodes item" by (cases item) auto
  show ?case
  proof (cases "20000 < nodes + 1 \<or> 32 < depth")
    case True
    then show ?thesis using pos value_bounded_depth [of depth item]
      by (auto simp: facilitator_loop.simps(2) MAX_FACILITATOR_JSON_NODES_def MAX_FACILITATOR_JSON_DEPTH_def)
  next
    case False
    then have ok: "\<not> (MAX_FACILITATOR_JSON_NODES < nodes + 1 \<or> MAX_FACILITATOR_JSON_DEPTH < depth)"
      "nodes + 1 \<le> 20000" "depth \<le> 32"
      by (auto simp: MAX_FACILITATOR_JSON_NODES_def MAX_FACILITATOR_JSON_DEPTH_def)
    note IH = "2.IH" [OF refl ok(1)]
    note step = facilitator_loop.simps(2) [of nodes item depth stack, unfolded Let_def if_not_P [OF ok(1)]]
    show ?thesis
    proof (cases item)
      case (PStr s)
      then show ?thesis unfolding step using ok IH(5) [OF PStr _ ok(2)]
        by (auto simp: MAX_FACILITATOR_JSON_STRING_def)
    next
      case (PDict kvs)
      then show ?thesis unfolding step using ok IH(7) [OF PDict ok(2)]
        by (simp add: ball_Un pushed_values_all list_all_iff comp_def)
    next
      case (PList xs)
      then show ?thesis unfolding step using ok IH(6) [OF PList ok(2)] by (simp add: ball_Un pushed_values_all)
    next
      case (PFloat f)
      then show ?thesis unfolding step using ok IH by (cases f) auto
    qed (unfold step, use ok IH in auto)
  qed
qed

lemma facilitator_json_exact:
  "validate_facilitator_json v \<longleftrightarrow> value_nodes v \<le> 20000 \<and> value_bounded 0 v"
  by (simp add: validate_facilitator_json_def facilitator_loop_bounded)

text \<open>Every \<open>PaymentError\<close> of the client is a retryable upstream error.\<close>

lemma post_fails: "post cl operation p rq = Fails e \<Longrightarrow> py_status e = 502 \<and> py_retryable e \<and> \<not> py_terminal e"
  by (auto simp: post_def Let_def read_answer_def upstream_error_def invalid_facilitator_def
      split: option.splits posted.splits if_splits pyval.splits)

lemma client_fails:
  "client_verify cl p rq = Fails e \<Longrightarrow> py_status e = 502 \<and> py_retryable e \<and> \<not> py_terminal e"
  "client_settle cl p rq = Fails e \<Longrightarrow> py_status e = 502 \<and> py_retryable e \<and> \<not> py_terminal e"
  by (auto simp: client_verify_def client_settle_def upstream_error_def invalid_facilitator_def
      dest: post_fails split: upstream.splits option.splits)

end
