(* ===== verification/Payments.thy ===== *)
theory Payments
  imports Payment_Client Descriptor_Validation
begin

text \<open>
  \<open>PaymentGateway\<close> of \<open>lucent/payments.py\<close>: the server's terms, the local checks of a
  payment proof, the canonical fingerprint of the signed transfer, and the verification
  and settlement around the facilitator. The \<open>x402\<close> library's codecs are a record of
  functions.
\<close>

section \<open>The gateway\<close>

record pay_config =
  pc_enabled :: bool
  pc_network :: pystr
  pc_asset :: pystr
  pc_amount :: pystr
  pc_pay_to :: "pystr option"
  pc_resource :: "pystr option"
  pc_facilitator :: "pystr option"
  pc_bearer :: "pystr option"
  pc_max_timeout :: pyval
  pc_timeout :: rat

definition default_pay_config :: pay_config where
  "default_pay_config = \<lparr>pc_enabled = False, pc_network = BASE_MAINNET, pc_asset = BASE_MAINNET_USDC,
     pc_amount = ''10000'', pc_pay_to = None, pc_resource = None, pc_facilitator = None,
     pc_bearer = None, pc_max_timeout = PInt 300, pc_timeout = 8\<rparr>"

datatype decoded_proof = Undecodable | OtherPayload | Decoded pay_proof

record x402_lib =
  xl_base64 :: "pystr \<Rightarrow> bool"
  xl_decode :: "pystr \<Rightarrow> decoded_proof"
  xl_identifier :: "pay_proof \<Rightarrow> pystr option \<times> bool"
  xl_terms :: "requirements \<Rightarrow> pyval"
  xl_required :: "pystr option \<Rightarrow> pystr \<Rightarrow> requirements \<Rightarrow> pystr"
  xl_receipt :: "settle_response \<Rightarrow> pystr"
  xl_sha256 :: "bytes \<Rightarrow> bytes"
  xl_float_text :: "rat \<Rightarrow> pystr"

record facilitator =
  fa_verify :: "pay_proof \<Rightarrow> requirements \<Rightarrow> verify_response upstream"
  fa_settle :: "pay_proof \<Rightarrow> requirements \<Rightarrow> settle_response upstream"

record gateway =
  gw_config :: pay_config
  gw_requirements :: "requirements option"
  gw_facilitator :: "facilitator option"
  gw_timeout :: int

datatype gateway_failure = GwPy py_exn | GwAssertion

definition timeout_of :: "pyval \<Rightarrow> int option" where
  "timeout_of v = (case v of PInt n \<Rightarrow> if 1 \<le> n \<and> n \<le> MAX_PAYMENT_TIMEOUT_SECONDS then Some n else None | _ \<Rightarrow> None)"

definition build_requirements :: "pay_config \<Rightarrow> int \<Rightarrow> gateway_failure + requirements" where
  "build_requirements cf timeout =
     (case pc_pay_to cf of
        None \<Rightarrow> Inl GwAssertion
      | Some payee \<Rightarrow> Inr \<lparr>rq_scheme = ''exact'', rq_network = pc_network cf, rq_asset = pc_asset cf,
          rq_amount = pc_amount cf, rq_pay_to = payee, rq_timeout = timeout\<rparr>)"

definition url_facilitator :: "(pystr \<Rightarrow> pystr option \<Rightarrow> pay_client) \<Rightarrow> pay_config \<Rightarrow> pystr \<Rightarrow> facilitator" where
  "url_facilitator client cf url =
     \<lparr>fa_verify = client_verify (client url (pc_bearer cf)), fa_settle = client_settle (client url (pc_bearer cf))\<rparr>"

definition make_gateway ::
  "(pystr \<Rightarrow> pystr option \<Rightarrow> pay_client) \<Rightarrow> pay_config \<Rightarrow> facilitator option \<Rightarrow> gateway_failure + gateway" where
  "make_gateway client cf fac =
     (if \<not> pc_enabled cf
      then Inr \<lparr>gw_config = cf, gw_requirements = None, gw_facilitator = fac, gw_timeout = 0\<rparr>
      else
        (case timeout_of (pc_max_timeout cf) of
           None \<Rightarrow> Inl (GwPy (ValueError ''payment timeout must be between 1 and 300 seconds''))
         | Some n \<Rightarrow>
             res_bind
               (case (fac, pc_facilitator cf) of
                  (Some f, _) \<Rightarrow> Inr f
                | (None, Some url) \<Rightarrow> Inr (url_facilitator client cf url)
                | _ \<Rightarrow> Inl (GwPy (ValueError ''enabled payments require a facilitator URL'')))
               (\<lambda>f. res_bind (build_requirements cf n)
               (\<lambda>rq. Inr \<lparr>gw_config = cf, gw_requirements = Some rq, gw_facilitator = Some f, gw_timeout = n\<rparr>))))"

definition require_enabled :: "gateway \<Rightarrow> pay_error + (requirements \<times> facilitator)" where
  "require_enabled g =
     (case (pc_enabled (gw_config g), gw_requirements g, gw_facilitator g) of
        (True, Some rq, Some f) \<Rightarrow> Inr (rq, f)
      | _ \<Rightarrow> Inl \<lparr>py_code = ''PAYMENTS_DISABLED'', py_message = ''x402 payment access is not enabled'',
               py_status = 503, py_retryable = False, py_terminal = False\<rparr>)"

text \<open>The value of the \<open>PAYMENT-REQUIRED\<close> header; the resource URL is asserted to be set.\<close>

definition challenge :: "x402_lib \<Rightarrow> pystr option \<Rightarrow> gateway \<Rightarrow> pay_error + pystr" where
  "challenge x err g =
     res_bind (require_enabled g) (\<lambda>(rq, _). Inr (xl_required x err (the (pc_resource (gw_config g))) rq))"

section \<open>The signed transfer\<close>

definition proof_fingerprint :: "x402_lib \<Rightarrow> pystr \<Rightarrow> pystr" where
  "proof_fingerprint x sig = ''sha256:'' @ bytes_hex (xl_sha256 x (utf8 sig))"

definition bad_authorization :: "pay_error + 'a" where
  "bad_authorization = Inl (rejected ''INVALID_PAYMENT_SIGNATURE'' ''PAYMENT-SIGNATURE contains an invalid authorization'')"

definition terms_mismatch :: "pystr \<Rightarrow> pay_error + 'a" where
  "terms_mismatch msg = Inl (rejected ''PAYMENT_REQUIREMENTS_MISMATCH'' msg)"

definition is_decimal :: "pystr \<Rightarrow> bool" where
  "is_decimal s \<longleftrightarrow> s = ''0'' \<or> (s \<noteq> [] \<and> hd s \<noteq> CHR ''0'' \<and> list_all is_digit s)"

text \<open>\<open>decimal\<close>: the canonical text of an integer or of decimal text.\<close>

definition decimal_text :: "pyval \<Rightarrow> pystr option" where
  "decimal_text v =
     (case (case v of PInt i \<Rightarrow> Some (int_str i) | PStr s \<Rightarrow> Some s | _ \<Rightarrow> None) of
        None \<Rightarrow> None
      | Some s \<Rightarrow>
          if \<not> is_decimal s \<or> MAX_STR_DIGITS < int (length s) then None
          else Some (int_str (digits_value s)))"

text \<open>\<open>int(value)\<close> on a value \<open>decimal\<close> has accepted.\<close>

definition decimal_value :: "pyval \<Rightarrow> int" where
  "decimal_value v = (case v of PInt i \<Rightarrow> i | PStr s \<Rightarrow> digits_value s | _ \<Rightarrow> 0)"

record transfer =
  tr_from :: pystr
  tr_to :: pystr
  tr_value :: pystr
  tr_after :: pystr
  tr_before :: pystr
  tr_nonce :: pystr

definition hex_text :: "nat \<Rightarrow> pyval \<Rightarrow> pystr option" where
  "hex_text n v =
     (case v of
        PStr s \<Rightarrow> if length s = n + 2 \<and> take 2 s = ''0x'' \<and> list_all is_hex (drop 2 s) then Some (py_lower s) else None
      | _ \<Rightarrow> None)"

definition read_transfer :: "(pystr \<times> pyval) list \<Rightarrow> requirements \<Rightarrow> pay_error + transfer" where
  "read_transfer a rq =
     (case (hex_text 40 (dget a ''from''), hex_text 40 (dget a ''to''), hex_text 64 (dget a ''nonce''),
            decimal_text (dget a ''value'')) of
        (Some payer, Some payee, Some nonce, Some amount) \<Rightarrow>
          if payee \<noteq> py_lower (rq_pay_to rq) \<or> amount \<noteq> rq_amount rq
          then terms_mismatch (''payment authorization does not match this resource'' @ CHR 0x27 # ''s terms'')
          else
            (case (decimal_text (dget a ''validAfter''), decimal_text (dget a ''validBefore'')) of
               (Some after, Some before) \<Rightarrow>
                 Inr \<lparr>tr_from = payer, tr_to = payee, tr_value = amount, tr_after = after,
                      tr_before = before, tr_nonce = nonce\<rparr>
             | _ \<Rightarrow> bad_authorization)
      | _ \<Rightarrow> bad_authorization)"

definition transfer_json :: "requirements \<Rightarrow> transfer \<Rightarrow> pyval" where
  "transfer_json rq t = PDict
     [(''scheme'', PStr (rq_scheme rq)), (''network'', PStr (rq_network rq)), (''asset'', PStr (rq_asset rq)),
      (''amount'', PStr (rq_amount rq)), (''pay_to'', PStr (rq_pay_to rq)),
      (''authorization'', PDict
        [(''from'', PStr (tr_from t)), (''to'', PStr (tr_to t)), (''value'', PStr (tr_value t)),
         (''valid_after'', PStr (tr_after t)), (''valid_before'', PStr (tr_before t)),
         (''nonce'', PStr (tr_nonce t))])]"

definition authorization_of :: "pay_proof \<Rightarrow> (pystr \<times> pyval) list option" where
  "authorization_of p =
     (case pf_payload p of
        PDict d \<Rightarrow> (case dget d ''authorization'' of PDict a \<Rightarrow> Some a | _ \<Rightarrow> None)
      | _ \<Rightarrow> None)"

definition authorization_fingerprint :: "x402_lib \<Rightarrow> pay_proof \<Rightarrow> requirements \<Rightarrow> pay_error + pystr" where
  "authorization_fingerprint x p rq =
     (case authorization_of p of
        None \<Rightarrow> bad_authorization
      | Some a \<Rightarrow>
          res_bind (read_transfer a rq)
          (\<lambda>t. case canonical_bytes (xl_float_text x) (transfer_json rq t) of
             None \<Rightarrow> bad_authorization
           | Some b \<Rightarrow> Inr (''sha256:'' @ bytes_hex (xl_sha256 x b))))"

text \<open>The header arrives as text; \<open>None\<close> as expected fingerprint has no replay.\<close>

definition assert_replay_proof :: "x402_lib \<Rightarrow> pystr \<Rightarrow> pystr \<Rightarrow> pay_error + unit" where
  "assert_replay_proof x sig expected =
     (if \<not> is_ascii sig then Inl (rejected ''INVALID_PAYMENT_SIGNATURE'' ''PAYMENT-SIGNATURE is malformed'')
      else if proof_fingerprint x sig \<noteq> expected
      then Inl (rejected ''PAYMENT_REPLAY_PROOF_MISMATCH'' ''paid replay requires the original payment proof'')
      else Inr ())"

section \<open>Verification\<close>

text \<open>Equality of decoded JSON: dictionaries compare without regard to order.\<close>

lemma size_zip_left: "(v, u) \<in> set (zip xs ys) \<Longrightarrow> size v < size (PList xs)"
  by (rule size_list_item(1)) (erule set_zip_leftD)

function same_json :: "pyval \<Rightarrow> pyval \<Rightarrow> bool" where
  "same_json (PDict a) w =
     (case w of
        PDict b \<Rightarrow> length a = length b
          \<and> list_all (\<lambda>kv. case map_of b (fst kv) of None \<Rightarrow> False | Some u \<Rightarrow> same_json (snd kv) u) a
      | _ \<Rightarrow> False)"
| "same_json (PList xs) w =
     (case w of PList ys \<Rightarrow> length xs = length ys \<and> list_all (\<lambda>vu. same_json (fst vu) (snd vu)) (zip xs ys)
      | _ \<Rightarrow> False)"
| "same_json PNone w = py_eq PNone w"
| "same_json (PBool b) w = py_eq (PBool b) w"
| "same_json (PInt i) w = py_eq (PInt i) w"
| "same_json (PFloat f) w = py_eq (PFloat f) w"
| "same_json (PStr s) w = py_eq (PStr s) w"
| "same_json (PBytes bs) w = py_eq (PBytes bs) w"
| "same_json (PTuple xs) w = py_eq (PTuple xs) w"
  by pat_completeness auto
termination
proof (relation "measure (\<lambda>(v, w). size v)", goal_cases)
  case 1
  then show ?case by simp
next
  case (2 a w b kv u)
  then show ?case using size_dict_value [of "fst kv" "snd kv" a] by simp
next
  case (3 xs w ys vu)
  then show ?case using size_zip_left [of "fst vu" "snd vu" xs ys] by (cases vu) simp
qed

record verified_payment =
  vp_payer :: "pystr option"
  vp_identifier :: pystr
  vp_proof :: pystr
  vp_authorization :: pystr
  vp_payload :: pay_proof

text \<open>The checks before the proof is decoded, and the decoding.\<close>

definition read_proof :: "x402_lib \<Rightarrow> pyval \<Rightarrow> pay_error + (pystr \<times> pay_proof)" where
  "read_proof x sig =
     (let missing = rejected ''INVALID_PAYMENT_SIGNATURE'' ''PAYMENT-SIGNATURE is missing or malformed'';
          bad = rejected ''INVALID_PAYMENT_SIGNATURE'' ''PAYMENT-SIGNATURE is malformed'';
          version = rejected ''UNSUPPORTED_PAYMENT_VERSION'' ''only x402 v2 payments are accepted'' in
      case sig of
        PStr s \<Rightarrow>
          if s = [] \<or> MAX_PAYMENT_HEADER_BYTES < int (length (utf8 s)) \<or> \<not> is_ascii s then Inl missing
          else if \<not> xl_base64 x s then Inl bad
          else
            (case xl_decode x s of
               Undecodable \<Rightarrow> Inl bad
             | OtherPayload \<Rightarrow> Inl version
             | Decoded p \<Rightarrow> if pf_version p \<noteq> 2 then Inl version else Inr (s, p))
      | _ \<Rightarrow> Inl missing)"

text \<open>The terms: identifier, accepted requirements, resource.\<close>

definition check_terms ::
  "x402_lib \<Rightarrow> gateway \<Rightarrow> requirements \<Rightarrow> pystr option \<Rightarrow> pay_proof \<Rightarrow> pay_error + pystr" where
  "check_terms x g rq expected p =
     (case xl_identifier x p of
        (Some ident, True) \<Rightarrow>
          if expected \<noteq> None \<and> expected \<noteq> Some ident
          then Inl (rejected ''PAYMENT_IDENTIFIER_MISMATCH'' ''payment identifier does not match Idempotency-Key'')
          else if \<not> same_json (pf_accepted p) (xl_terms x rq)
          then terms_mismatch (''payment proof does not match this resource'' @ CHR 0x27 # ''s terms'')
          else if pf_resource p = None \<or> pf_resource p \<noteq> pc_resource (gw_config g)
          then Inl (rejected ''PAYMENT_RESOURCE_MISMATCH'' ''payment proof is bound to a different resource'')
          else Inr ident
      | _ \<Rightarrow> Inl (rejected ''PAYMENT_IDENTIFIER_REQUIRED'' ''payment proof must contain a valid payment identifier''))"

text \<open>
  The server-owned window. The clock's reading is \<open>None\<close> when \<open>float\<close> raises; the window's
  ends have passed \<open>decimal\<close>.
\<close>

definition check_window ::
  "gateway \<Rightarrow> pyfloat option \<Rightarrow> (pystr \<times> pyval) list \<Rightarrow> pay_error + unit" where
  "check_window g clk a =
     (case clk of
        None \<Rightarrow> Inl (rejected ''INVALID_PAYMENT_SIGNATURE'' ''PAYMENT-SIGNATURE contains an invalid authorization window'')
      | Some f \<Rightarrow>
          (case f of
             Finite now \<Rightarrow>
               if now < of_int (decimal_value (dget a ''validAfter''))
                  \<or> of_int (decimal_value (dget a ''validBefore'')) \<le> now
                  \<or> now + of_int (gw_timeout g) < of_int (decimal_value (dget a ''validBefore''))
               then Inl (rejected ''PAYMENT_AUTHORIZATION_WINDOW_MISMATCH''
                      ''payment authorization is outside the server-owned time window'')
               else Inr ()
           | _ \<Rightarrow> Inl (rejected ''PAYMENT_AUTHORIZATION_WINDOW_MISMATCH''
                      ''payment authorization is outside the server-owned time window'')))"

text \<open>Everything \<open>verify\<close> does before it awaits the facilitator.\<close>

definition verify_locally ::
  "x402_lib \<Rightarrow> gateway \<Rightarrow> pyfloat option \<Rightarrow> pyval \<Rightarrow> pystr option \<Rightarrow> pay_error + verified_payment" where
  "verify_locally x g clk sig expected =
     res_bind (require_enabled g)
     (\<lambda>(rq, fac). res_bind (read_proof x sig)
     (\<lambda>(s, p). res_bind (check_terms x g rq expected p)
     (\<lambda>ident. res_bind (authorization_fingerprint x p rq)
     (\<lambda>fp. let a = the (authorization_of p) in
       res_bind (check_window g clk a)
     (\<lambda>_. Inr \<lparr>vp_payer = (case dget a ''from'' of PStr payer \<Rightarrow> Some payer | _ \<Rightarrow> None), vp_identifier = ident,
        vp_proof = proof_fingerprint x s, vp_authorization = fp, vp_payload = p\<rparr>)))))"

definition is_address_text :: "pystr \<Rightarrow> bool" where
  "is_address_text s \<longleftrightarrow> hex_text 40 (PStr s) \<noteq> None"

text \<open>What \<open>verify\<close> makes of the facilitator's answer.\<close>

definition accept_answer :: "verified_payment \<Rightarrow> verify_response upstream \<Rightarrow> pay_error + verified_payment" where
  "accept_answer vp ans =
     (case ans of
        Fails e \<Rightarrow> Inl e
      | Breaks \<Rightarrow> Inl (upstream_error ''FACILITATOR_UNAVAILABLE'' ''payment verifier is temporarily unavailable'')
      | Answer r \<Rightarrow>
          if \<not> vr_valid r then Inl (rejected ''PAYMENT_NOT_VERIFIED'' ''payment proof was not accepted'')
          else
            (case vr_payer r of
               None \<Rightarrow> Inr vp
             | Some payer \<Rightarrow>
                 if \<not> is_address_text payer
                 then Inl (invalid_facilitator ''payment verifier did not return a valid payer'')
                 else if Some (py_lower payer) \<noteq> map_option py_lower (vp_payer vp)
                 then Inl (invalid_facilitator ''payment verifier payer did not match the authorization'')
                 else Inr vp))"

definition verify_payment ::
  "x402_lib \<Rightarrow> gateway \<Rightarrow> pyfloat option \<Rightarrow> pyval \<Rightarrow> pystr option \<Rightarrow> pay_error + verified_payment" where
  "verify_payment x g clk sig expected =
     res_bind (verify_locally x g clk sig expected)
     (\<lambda>vp. res_bind (require_enabled g)
     (\<lambda>(rq, fac). accept_answer vp (fa_verify fac (vp_payload vp) rq)))"

section \<open>Settlement\<close>

record receipt =
  re_payer :: "pystr option"
  re_transaction :: pystr
  re_network :: pystr
  re_amount :: pystr
  re_header :: pystr
  re_proof :: pystr

definition receipt_dict :: "receipt \<Rightarrow> pyval" where
  "receipt_dict r =
     (let text = (\<lambda>t. case t of None \<Rightarrow> PNone | Some s \<Rightarrow> PStr s) in
      PDict [(''payer'', text (re_payer r)), (''transaction'', PStr (re_transaction r)),
        (''network'', PStr (re_network r)), (''amount'', PStr (re_amount r)),
        (''proof_fingerprint'', PStr (re_proof r))])"

definition terminal_error :: "pystr \<Rightarrow> pystr \<Rightarrow> int \<Rightarrow> pay_error" where
  "terminal_error cd msg st =
     \<lparr>py_code = cd, py_message = msg, py_status = st, py_retryable = False, py_terminal = True\<rparr>"

definition bad_receipt :: "pystr \<Rightarrow> pay_error" where
  "bad_receipt msg = terminal_error ''FACILITATOR_INVALID_RESPONSE'' msg 502"

text \<open>Python's \<open>a or b\<close> on optional text.\<close>

definition text_or :: "pystr option \<Rightarrow> pystr option \<Rightarrow> pystr option" where
  "text_or a b = (case a of None \<Rightarrow> b | Some s \<Rightarrow> if s = [] then b else a)"

definition check_receipt :: "gateway \<Rightarrow> verified_payment \<Rightarrow> settle_response \<Rightarrow> pay_error + unit" where
  "check_receipt g vp r =
     (if \<not> sr_success r then Inl (terminal_error ''PAYMENT_NOT_SETTLED'' ''payment could not be settled'' 402)
      else if sr_network r \<noteq> pc_network (gw_config g)
      then Inl (bad_receipt ''payment receipt did not match the configured network'')
      else if sr_amount r \<noteq> None \<and> sr_amount r \<noteq> Some (pc_amount (gw_config g))
      then Inl (bad_receipt ''payment receipt did not match the configured amount'')
      else if hex_text 64 (PStr (sr_transaction r)) = None
      then Inl (bad_receipt ''payment receipt did not contain a Base transaction hash'')
      else if (case sr_payer r of None \<Rightarrow> False | Some p \<Rightarrow> \<not> is_address_text p)
      then Inl (bad_receipt ''payment receipt did not contain a valid payer'')
      else if vp_payer vp \<noteq> None \<and> sr_payer r \<noteq> None
              \<and> map_option py_lower (vp_payer vp) \<noteq> map_option py_lower (sr_payer r)
      then Inl (bad_receipt ''payment receipt payer did not match the verified payer'')
      else Inr ())"

text \<open>What \<open>settle\<close> makes of the answer; the call itself is the irreversible effect.\<close>

definition accept_settlement ::
  "x402_lib \<Rightarrow> gateway \<Rightarrow> verified_payment \<Rightarrow> settle_response upstream \<Rightarrow> pay_error + receipt" where
  "accept_settlement x g vp ans =
     (case ans of
        Fails e \<Rightarrow> Inl (e\<lparr>py_retryable := False, py_terminal := True\<rparr>)
      | Breaks \<Rightarrow> Inl (terminal_error ''FACILITATOR_UNAVAILABLE''
                    ''payment settlement outcome is unknown and requires reconciliation'' 502)
      | Answer r \<Rightarrow>
          res_bind (check_receipt g vp r)
          (\<lambda>_. let payer = text_or (sr_payer r) (vp_payer vp);
                   amount = the (text_or (sr_amount r) (Some (pc_amount (gw_config g))));
                   header = xl_receipt x \<lparr>sr_success = True, sr_payer = payer, sr_transaction = sr_transaction r,
                              sr_network = sr_network r, sr_amount = Some amount\<rparr>
               in if MAX_PAYMENT_HEADER_BYTES < int (length header)
                  then Inl (bad_receipt ''payment receipt exceeded its response-header limit'')
                  else Inr \<lparr>re_payer = payer, re_transaction = sr_transaction r, re_network = sr_network r,
                         re_amount = amount, re_header = header, re_proof = vp_proof vp\<rparr>))"

definition settle_payment :: "x402_lib \<Rightarrow> gateway \<Rightarrow> verified_payment \<Rightarrow> pay_error + receipt" where
  "settle_payment x g vp =
     res_bind (require_enabled g)
     (\<lambda>(rq, fac). accept_settlement x g vp (fa_settle fac (vp_payload vp) rq))"

definition verify_and_settle :: "x402_lib \<Rightarrow> gateway \<Rightarrow> pyfloat option \<Rightarrow> pyval \<Rightarrow> pay_error + receipt" where
  "verify_and_settle x g clk sig =
     res_bind (verify_payment x g clk sig None) (\<lambda>vp. settle_payment x g vp)"

end
