(* ===== verification/Payment_Facts.thy ===== *)
theory Payment_Facts
  imports Payments
begin

text \<open>
  What the payment gateway guarantees: the evidence behind a verified payment, the
  fingerprint that names one signed transfer, and the finality of a settlement.
\<close>

section \<open>Text\<close>

lemma split_at: "c \<notin> set s \<Longrightarrow> c \<notin> set s' \<Longrightarrow> s @ c # r = s' @ c # r' \<longleftrightarrow> s = s' \<and> r = r'"
proof (induction s arbitrary: s')
  case Nil
  then show ?case by (cases s') auto
next
  case (Cons a s)
  then show ?case by (cases s') auto
qed

lemma of_nat_byte_eq: "m < 256 \<Longrightarrow> n < 256 \<Longrightarrow> (of_nat m :: byte) = of_nat n \<longleftrightarrow> m = n"
  by (simp add: word_unat_eq_iff unat_of_nat)

lemma utf8_char_prefix: "utf8_char c @ r = utf8_char d @ r' \<Longrightarrow> c = d \<and> r = r'"
proof -
  assume eq: "utf8_char c @ r = utf8_char d @ r'"
  have high: "192 + code x div 64 < 256" "128 + code x mod 64 < 256" for x
    using code_less [of x] by (arith, arith)
  have "code c = code d \<and> r = r'"
  proof (cases "code c < 128 \<longleftrightarrow> code d < 128")
    case True
    show ?thesis
    proof (cases "code c < 128")
      case low: True
      then show ?thesis using eq True by (simp add: utf8_char_def of_nat_byte_eq)
    next
      case False
      then have "192 + code c div 64 = 192 + code d div 64" "128 + code c mod 64 = 128 + code d mod 64" "r = r'"
        using eq True high [of c] high [of d]
        by (simp_all add: utf8_char_def Let_def of_nat_byte_eq del: of_nat_add add_left_cancel)
      then show ?thesis by (metis add_left_cancel div_mult_mod_eq)
    qed
  next
    case False
    have "hd (utf8_char x) = of_nat (if code x < 128 then code x else 192 + code x div 64)" for x
      by (simp add: utf8_char_def Let_def)
    moreover have "hd (utf8_char c) = hd (utf8_char d)"
      using arg_cong [OF eq, of hd] by (simp add: utf8_char_def Let_def split: if_splits)
    ultimately have "(if code c < 128 then code c else 192 + code c div 64)
        = (if code d < 128 then code d else 192 + code d div 64)"
      using high [of c] high [of d] of_nat_byte_eq
        [of "if code c < 128 then code c else 192 + code c div 64" "if code d < 128 then code d else 192 + code d div 64"]
      by simp
    then show ?thesis using False by (simp split: if_splits)
  qed
  then show ?thesis by (simp add: code_inj)
qed

lemma utf8_inj: "utf8 s = utf8 t \<Longrightarrow> s = t"
proof (induction s arbitrary: t)
  case Nil
  then show ?case by (metis utf8_Nil_iff)
next
  case (Cons c s)
  then obtain d t' where t: "t = d # t'" by (metis list.exhaust utf8_Nil_iff)
  have "utf8_char c @ utf8 s = utf8_char d @ utf8 t'" using Cons.prems t by (simp add: utf8_def)
  from utf8_char_prefix [OF this] show ?case using Cons.IH t by simp
qed

lemma hex_bytes_inj: "bytes_hex a = bytes_hex b \<Longrightarrow> a = b"
  by (metis bytes_fromhex_hex)

text \<open>Text that JSON writes as it is.\<close>

definition json_plain :: "pystr \<Rightarrow> bool" where
  "json_plain s \<longleftrightarrow> list_all (\<lambda>c. 47 < code c \<and> code c < 123 \<and> code c \<noteq> 92) s"

lemma json_plain_string: "json_plain s \<Longrightarrow> json_string False s = CHR 0x22 # s @ [CHR 0x22]"
proof -
  assume p: "json_plain s"
  have "concat (map (json_char False) s) = s"
    using p by (induction s) (auto simp: json_plain_def json_char_def Let_def)
  then show ?thesis by (simp add: json_string_def)
qed

lemma json_plain_quote: "json_plain s \<Longrightarrow> CHR 0x22 \<notin> set s"
  by (auto simp: json_plain_def list_all_iff code_def)

section \<open>The canonical transfer\<close>

lemma transfer_text:
  "json_text fr True False (transfer_json rq t) = Some
     (''{'' @ (json_string False ''amount'' @ '':'' @ json_string False (rq_amount rq)) @ '','' @
      (json_string False ''asset'' @ '':'' @ json_string False (rq_asset rq)) @ '','' @
      (json_string False ''authorization'' @ '':'' @ ''{'' @
         (json_string False ''from'' @ '':'' @ json_string False (tr_from t)) @ '','' @
         (json_string False ''nonce'' @ '':'' @ json_string False (tr_nonce t)) @ '','' @
         (json_string False ''to'' @ '':'' @ json_string False (tr_to t)) @ '','' @
         (json_string False ''valid_after'' @ '':'' @ json_string False (tr_after t)) @ '','' @
         (json_string False ''valid_before'' @ '':'' @ json_string False (tr_before t)) @ '','' @
         (json_string False ''value'' @ '':'' @ json_string False (tr_value t)) @ ''}'') @ '','' @
      (json_string False ''network'' @ '':'' @ json_string False (rq_network rq)) @ '','' @
      (json_string False ''pay_to'' @ '':'' @ json_string False (rq_pay_to rq)) @ '','' @
      (json_string False ''scheme'' @ '':'' @ json_string False (rq_scheme rq)) @ ''}'')"
  by (simp add: transfer_json_def sort_items_def code_def)

lemma hex_char_plain: "is_hex c \<Longrightarrow> 47 < code c \<and> code c < 123 \<and> code c \<noteq> 92"
  by (auto simp: is_hex_def is_lower_hex_def is_digit_def in_range_def)

lemma hex_char_lower: "is_hex c \<Longrightarrow> 47 < code (lower_char c) \<and> code (lower_char c) < 123 \<and> code (lower_char c) \<noteq> 92"
  by (auto simp: is_hex_def is_lower_hex_def is_digit_def in_range_def lower_char_def code_def)

lemma hex_text_plain:
  assumes "hex_text n v = Some s"
  shows "json_plain s \<and> length s = n + 2"
proof -
  obtain u where u: "length u = n + 2" "take 2 u = ''0x''" "list_all is_hex (drop 2 u)" "s = py_lower u"
    using assms by (auto simp: hex_text_def split: pyval.splits if_splits)
  have "json_plain (py_lower w)" if "list_all is_hex w" for w
    using that by (induction w) (auto simp: json_plain_def py_lower_def hex_char_lower)
  from this [OF u(3)] have "json_plain (py_lower (drop 2 u))" .
  moreover have "json_plain (py_lower ''0x'')" by code_simp
  moreover have "py_lower u = py_lower ''0x'' @ py_lower (drop 2 u)"
    unfolding py_lower_def map_append [symmetric] using u(2) by (metis append_take_drop_id)
  ultimately have "json_plain (py_lower u)" by (simp add: json_plain_def)
  then show ?thesis using u by (simp add: py_lower_def)
qed

lemma decimal_digits: "is_decimal s \<Longrightarrow> list_all is_digit s \<and> s \<noteq> []"
  by (auto simp: is_decimal_def is_digit_def in_range_def code_def)

lemma int_str_plain: "0 \<le> n \<Longrightarrow> json_plain (int_str n)"
  using nat_digits_less [of 10] by (fastforce simp: int_str_def nat_str_def json_plain_def list_all_iff code_def)

lemma digits_value_nonneg: "0 \<le> digits_value s"
proof -
  have "0 \<le> n \<Longrightarrow> 0 \<le> foldl (\<lambda>n c. 10 * n + (int (code c) - 48)) n (filter is_digit s)" for n
    by (induction s arbitrary: n) (auto simp: is_digit_def in_range_def)
  then show ?thesis by (simp add: digits_value_def)
qed

lemma decimal_text_plain: "decimal_text v = Some s \<Longrightarrow> json_plain s"
  by (auto simp: decimal_text_def int_str_plain digits_value_nonneg split: option.splits if_splits)

lemma read_transfer_Inr:
  assumes "read_transfer a rq = Inr t"
  shows "hex_text 40 (dget a ''from'') = Some (tr_from t)" "hex_text 40 (dget a ''to'') = Some (tr_to t)"
    "hex_text 64 (dget a ''nonce'') = Some (tr_nonce t)" "decimal_text (dget a ''value'') = Some (tr_value t)"
    "decimal_text (dget a ''validAfter'') = Some (tr_after t)" "decimal_text (dget a ''validBefore'') = Some (tr_before t)"
    "tr_to t = py_lower (rq_pay_to rq)" "tr_value t = rq_amount rq"
  using assms
  by (auto simp: read_transfer_def bad_authorization_def terms_mismatch_def split: option.splits if_splits)

lemma transfer_json_inj:
  assumes "read_transfer a rq = Inr t" "read_transfer a' rq = Inr t'"
    and "canonical_bytes fr (transfer_json rq t) = canonical_bytes fr (transfer_json rq t')"
  shows "t = t'"
proof -
  note r = read_transfer_Inr [OF assms(1)] and r' = read_transfer_Inr [OF assms(2)]
  note plain = r(1,2,3) [THEN hex_text_plain, THEN conjunct1] r(4-6) [THEN decimal_text_plain]
    r'(1,2,3) [THEN hex_text_plain, THEN conjunct1] r'(4-6) [THEN decimal_text_plain]
  have "json_text fr True False (transfer_json rq t) = json_text fr True False (transfer_json rq t')"
    using assms(3) unfolding canonical_bytes_def
    by (rule option.inj_map_strong [rotated]) (rule utf8_inj)
  then have "tr_from t = tr_from t' \<and> tr_nonce t = tr_nonce t' \<and> tr_after t = tr_after t' \<and> tr_before t = tr_before t'"
    using plain by (simp add: transfer_text json_plain_string split_at json_plain_quote)
  then show ?thesis using r r' by (cases t; cases t') simp
qed

section \<open>Verified payments\<close>

lemma make_gateway_enabled:
  assumes "make_gateway client cf fac = Inr g" "require_enabled g = Inr (rq, f)"
  shows "gw_config g = cf \<and> gw_requirements g = Some rq \<and> gw_facilitator g = Some f \<and> gw_timeout g \<le> 300
    \<and> rq_network rq = pc_network cf \<and> rq_asset rq = pc_asset cf \<and> rq_amount rq = pc_amount cf \<and> pc_pay_to cf = Some (rq_pay_to rq)"
  using assms
  by (auto simp: make_gateway_def require_enabled_def timeout_of_def build_requirements_def res_bind_Inr_iff
      MAX_PAYMENT_TIMEOUT_SECONDS_def split: if_splits option.splits pyval.splits bool.splits)

lemma read_proof_Inr:
  "read_proof x sig = Inr (s, p) \<Longrightarrow> sig = PStr s \<and> is_ascii s \<and> int (length s) \<le> 65536 \<and> xl_base64 x s
     \<and> xl_decode x s = Decoded p \<and> pf_version p = 2"
  by (auto simp: read_proof_def Let_def MAX_PAYMENT_HEADER_BYTES_def utf8_length_ascii
      split: pyval.splits if_splits decoded_proof.splits)

lemma check_terms_Inr:
  "check_terms x g rq expected p = Inr ident \<Longrightarrow> xl_identifier x p = (Some ident, True)
     \<and> (expected = None \<or> expected = Some ident) \<and> same_json (pf_accepted p) (xl_terms x rq)
     \<and> pc_resource (gw_config g) \<noteq> None \<and> pf_resource p = pc_resource (gw_config g)"
  by (cases "xl_identifier x p"; cases "pc_resource (gw_config g)")
    (auto simp: check_terms_def terms_mismatch_def split: option.splits bool.splits if_splits)

definition in_window :: "gateway \<Rightarrow> (pystr \<times> pyval) list \<Rightarrow> rat \<Rightarrow> bool" where
  "in_window g a now \<longleftrightarrow> of_int (decimal_value (dget a ''validAfter'')) \<le> now
     \<and> now < of_int (decimal_value (dget a ''validBefore''))
     \<and> of_int (decimal_value (dget a ''validBefore'')) \<le> now + of_int (gw_timeout g)"

lemma check_window_Inr: "check_window g clk a = Inr u \<Longrightarrow> \<exists>now. clk = Some (Finite now) \<and> in_window g a now"
  by (auto simp: check_window_def in_window_def not_less not_le split: option.splits pyfloat.splits if_splits)

lemma authorization_fingerprint_Inr:
  "authorization_fingerprint x p rq = Inr h \<Longrightarrow> \<exists>a t b. authorization_of p = Some a \<and> read_transfer a rq = Inr t
     \<and> canonical_bytes (xl_float_text x) (transfer_json rq t) = Some b \<and> h = ''sha256:'' @ bytes_hex (xl_sha256 x b)"
  by (auto simp: authorization_fingerprint_def bad_authorization_def res_bind_Inr_iff split: option.splits)

lemma verify_locally_Inr:
  assumes "verify_locally x g clk sig expected = Inr vp"
  shows "\<exists>rq f s p a t now. require_enabled g = Inr (rq, f) \<and> read_proof x sig = Inr (s, p)
     \<and> check_terms x g rq expected p = Inr (vp_identifier vp)
     \<and> authorization_of p = Some a \<and> read_transfer a rq = Inr t
     \<and> clk = Some (Finite now) \<and> in_window g a now
     \<and> authorization_fingerprint x p rq = Inr (vp_authorization vp)
     \<and> vp_proof vp = proof_fingerprint x s \<and> vp_payload vp = p
     \<and> map_option py_lower (vp_payer vp) = Some (tr_from t)"
proof -
  obtain rq f s p ident h where r: "require_enabled g = Inr (rq, f)" "read_proof x sig = Inr (s, p)"
    "check_terms x g rq expected p = Inr ident" "authorization_fingerprint x p rq = Inr h"
    and w: "check_window g clk (the (authorization_of p)) = Inr ()"
    and vp: "vp = \<lparr>vp_payer = (case dget (the (authorization_of p)) ''from'' of PStr payer \<Rightarrow> Some payer | _ \<Rightarrow> None),
        vp_identifier = ident, vp_proof = proof_fingerprint x s, vp_authorization = h, vp_payload = p\<rparr>"
    using assms by (auto simp: verify_locally_def res_bind_Inr_iff Let_def)
  obtain a t where a: "authorization_of p = Some a" "read_transfer a rq = Inr t"
    using authorization_fingerprint_Inr [OF r(4)] by blast
  obtain now where "clk = Some (Finite now)" "in_window g a now" using check_window_Inr [OF w] a(1) by auto
  moreover have "map_option py_lower (vp_payer vp) = Some (tr_from t)"
    using read_transfer_Inr(1) [OF a(2)] a(1) vp by (auto simp: hex_text_def split: pyval.splits if_splits)
  ultimately show ?thesis using r vp a by (metis (no_types) verified_payment.select_convs(2-5))
qed

lemma accept_answer_Inr:
  "accept_answer vp ans = Inr vp' \<Longrightarrow> vp' = vp \<and> (\<exists>r. ans = Answer r \<and> vr_valid r
     \<and> (vr_payer r = None \<or> map_option py_lower (vr_payer r) = map_option py_lower (vp_payer vp)))"
  by (auto simp: accept_answer_def split: upstream.splits option.splits if_splits)

definition evidence :: "x402_lib \<Rightarrow> pay_config \<Rightarrow> gateway \<Rightarrow> rat \<Rightarrow> pystr \<Rightarrow> verified_payment \<Rightarrow> bool" where
  "evidence x cf g now s vp \<longleftrightarrow>
     (\<exists>rq f a t r payee. gw_requirements g = Some rq \<and> gw_facilitator g = Some f
        \<and> xl_decode x s = Decoded (vp_payload vp)
        \<and> xl_identifier x (vp_payload vp) = (Some (vp_identifier vp), True)
        \<and> same_json (pf_accepted (vp_payload vp)) (xl_terms x rq)
        \<and> pc_resource cf \<noteq> None \<and> pf_resource (vp_payload vp) = pc_resource cf
        \<and> authorization_of (vp_payload vp) = Some a \<and> read_transfer a rq = Inr t
        \<and> pc_pay_to cf = Some payee \<and> tr_to t = py_lower payee \<and> tr_value t = pc_amount cf
        \<and> of_int (decimal_value (dget a ''validAfter'')) \<le> now
        \<and> now < of_int (decimal_value (dget a ''validBefore''))
        \<and> of_int (decimal_value (dget a ''validBefore'')) \<le> now + 300
        \<and> fa_verify f (vp_payload vp) rq = Answer r \<and> vr_valid r
        \<and> (vr_payer r = None \<or> map_option py_lower (vr_payer r) = Some (tr_from t))
        \<and> authorization_fingerprint x (vp_payload vp) rq = Inr (vp_authorization vp)
        \<and> vp_proof vp = proof_fingerprint x s)"

lemma verified_evidence:
  assumes g: "make_gateway client cf fac = Inr g" and v: "verify_payment x g clk sig expected = Inr vp"
  shows "\<exists>s now. sig = PStr s \<and> is_ascii s \<and> int (length s) \<le> 65536 \<and> clk = Some (Finite now)
    \<and> (expected = None \<or> expected = Some (vp_identifier vp)) \<and> evidence x cf g now s vp"
proof -
  obtain vp0 rq f where l: "verify_locally x g clk sig expected = Inr vp0"
    and rq: "require_enabled g = Inr (rq, f)" and acc: "accept_answer vp0 (fa_verify f (vp_payload vp0) rq) = Inr vp"
    using v by (auto simp: verify_payment_def res_bind_Inr_iff)
  note acc' = accept_answer_Inr [OF acc]
  then have "vp0 = vp" by simp
  from verify_locally_Inr [OF l] rq this obtain s p a t now where
    p: "read_proof x sig = Inr (s, p)" "check_terms x g rq expected p = Inr (vp_identifier vp)"
    and a: "authorization_of p = Some a" "read_transfer a rq = Inr t"
    and now: "clk = Some (Finite now)" "in_window g a now"
    and vp: "authorization_fingerprint x p rq = Inr (vp_authorization vp)" "vp_proof vp = proof_fingerprint x s"
      "vp_payload vp = p" "map_option py_lower (vp_payer vp) = Some (tr_from t)"
    by (metis Inr_inject Pair_inject)
  note g' = make_gateway_enabled [OF g rq]
  have "of_int (gw_timeout g) \<le> (300 :: rat)" using g' by simp
  then have "of_int (decimal_value (dget a ''validBefore'')) \<le> now + 300" using now(2) by (simp add: in_window_def)
  moreover obtain r where "fa_verify f p rq = Answer r" "vr_valid r"
    "vr_payer r = None \<or> map_option py_lower (vr_payer r) = Some (tr_from t)"
    using acc' vp(3,4) \<open>vp0 = vp\<close> by auto
  ultimately have "gw_requirements g = Some rq \<and> gw_facilitator g = Some f
        \<and> xl_decode x s = Decoded p
        \<and> xl_identifier x p = (Some (vp_identifier vp), True)
        \<and> same_json (pf_accepted p) (xl_terms x rq)
        \<and> pc_resource cf \<noteq> None \<and> pf_resource p = pc_resource cf
        \<and> authorization_of p = Some a \<and> read_transfer a rq = Inr t
        \<and> pc_pay_to cf = Some (rq_pay_to rq) \<and> tr_to t = py_lower (rq_pay_to rq) \<and> tr_value t = pc_amount cf
        \<and> of_int (decimal_value (dget a ''validAfter'')) \<le> now
        \<and> now < of_int (decimal_value (dget a ''validBefore''))
        \<and> of_int (decimal_value (dget a ''validBefore'')) \<le> now + 300
        \<and> fa_verify f p rq = Answer r \<and> vr_valid r
        \<and> (vr_payer r = None \<or> map_option py_lower (vr_payer r) = Some (tr_from t))
        \<and> authorization_fingerprint x p rq = Inr (vp_authorization vp)
        \<and> vp_proof vp = proof_fingerprint x s"
    using g' a vp(1,2) now(2) read_proof_Inr [OF p(1)] check_terms_Inr [OF p(2)] read_transfer_Inr(7,8) [OF a(2)]
    by (simp add: in_window_def)
  then have "evidence x cf g now s vp"
    unfolding evidence_def vp(3) by (intro exI)
  then show ?thesis using now(1) read_proof_Inr [OF p(1)] check_terms_Inr [OF p(2)] by blast
qed

section \<open>Properties\<close>

definition toy_pay_to :: pystr where "toy_pay_to = ''0x'' @ replicate 40 (CHR ''B'')"

definition toy_pay_config :: pay_config where
  "toy_pay_config = default_pay_config\<lparr>pc_enabled := True, pc_pay_to := Some toy_pay_to, pc_amount := ''9'',
     pc_resource := Some ''https://lucent.example/v1/preflight''\<rparr>"

definition toy_requirements :: requirements where
  "toy_requirements = \<lparr>rq_scheme = ''exact'', rq_network = BASE_MAINNET, rq_asset = BASE_MAINNET_USDC,
     rq_amount = ''9'', rq_pay_to = toy_pay_to, rq_timeout = 300\<rparr>"

definition toy_authorization :: "(pystr \<times> pyval) list" where
  "toy_authorization = [(''from'', PStr (''0x'' @ replicate 40 (CHR ''A''))), (''to'', PStr toy_pay_to),
     (''value'', PInt 9), (''validAfter'', PStr ''1''), (''validBefore'', PStr ''4''),
     (''nonce'', PStr (''0x'' @ replicate 64 (CHR ''c'')))]"

definition toy_proof :: pay_proof where
  "toy_proof = \<lparr>pf_version = 2, pf_payload = PDict [(''authorization'', PDict toy_authorization)],
     pf_accepted = PStr ''terms'', pf_resource = Some ''https://lucent.example/v1/preflight'', pf_dump = PNone\<rparr>"

definition toy_x402 :: x402_lib where
  "toy_x402 = \<lparr>xl_base64 = (\<lambda>s. True), xl_decode = (\<lambda>s. Decoded toy_proof), xl_identifier = (\<lambda>p. (Some ''key-1'', True)),
     xl_terms = (\<lambda>rq. PStr ''terms''), xl_required = (\<lambda>e u rq. ''required''), xl_receipt = (\<lambda>r. ''receipt''),
     xl_sha256 = (\<lambda>b. b), xl_float_text = (\<lambda>r. [])\<rparr>"

definition toy_facilitator :: facilitator where
  "toy_facilitator = \<lparr>fa_verify = (\<lambda>p rq. Answer \<lparr>vr_valid = True, vr_payer = None\<rparr>),
     fa_settle = (\<lambda>p rq. Answer \<lparr>sr_success = True, sr_payer = None, sr_transaction = ''0x'' @ replicate 64 (CHR ''d''),
        sr_network = BASE_MAINNET, sr_amount = Some ''9''\<rparr>)\<rparr>"

definition toy_gateway :: gateway where
  "toy_gateway = \<lparr>gw_config = toy_pay_config, gw_requirements = Some toy_requirements,
     gw_facilitator = Some toy_facilitator, gw_timeout = 300\<rparr>"

lemma toy_make_gateway: "make_gateway client toy_pay_config (Some toy_facilitator) = Inr toy_gateway"
  by (simp add: make_gateway_def toy_pay_config_def default_pay_config_def timeout_of_def
      MAX_PAYMENT_TIMEOUT_SECONDS_def build_requirements_def toy_gateway_def toy_requirements_def)

lemma fingerprint_succeeds:
  "authorization_of p = Some a \<Longrightarrow> succeeds (read_transfer a rq) \<Longrightarrow> succeeds (authorization_fingerprint x p rq)"
  by (auto simp: authorization_fingerprint_def canonical_bytes_def transfer_text succeeds_def)

lemma toy_fingerprint:
  assumes "pf_payload p = pf_payload toy_proof"
  shows "succeeds (authorization_fingerprint x p toy_requirements)"
proof (rule fingerprint_succeeds)
  show "authorization_of p = Some toy_authorization"
    using assms by (simp add: authorization_of_def toy_proof_def)
  show "succeeds (read_transfer toy_authorization toy_requirements)" by code_simp
qed

lemma toy_verifies: "succeeds (verify_payment toy_x402 toy_gateway (Some (Finite 2)) (PStr ''sig'') (Some ''key-1''))"
proof -
  have en: "require_enabled toy_gateway = Inr (toy_requirements, toy_facilitator)"
    by (simp add: require_enabled_def toy_gateway_def toy_pay_config_def default_pay_config_def)
  have "read_proof toy_x402 (PStr ''sig'') = Inr (''sig'', toy_proof)"
    by (simp add: read_proof_def Let_def toy_x402_def toy_proof_def is_ascii_def code_def utf8_def utf8_char_def
        MAX_PAYMENT_HEADER_BYTES_def)
  moreover have "check_terms toy_x402 toy_gateway toy_requirements (Some ''key-1'') toy_proof = Inr ''key-1''"
    by (simp add: check_terms_def toy_x402_def toy_proof_def toy_gateway_def toy_pay_config_def
        default_pay_config_def py_eq_def)
  moreover obtain h where "authorization_fingerprint toy_x402 toy_proof toy_requirements = Inr h"
    using toy_fingerprint [of toy_proof toy_x402] by (auto simp: succeeds_def)
  moreover have "check_window toy_gateway (Some (Finite 2)) toy_authorization = Inr ()" by code_simp
  moreover have "authorization_of toy_proof = Some toy_authorization" by (simp add: authorization_of_def toy_proof_def)
  ultimately show ?thesis
    by (simp add: verify_payment_def verify_locally_def en toy_facilitator_def accept_answer_def)
qed

text \<open>
  C8: A verified payment pays this server, now. When the gateway accepts a proof, the proof
  decodes from this ASCII header, carries the identifier the request named, accepts exactly
  the server's own terms for its own resource, and its signed authorization transfers exactly
  the configured amount to the configured payee, is valid at the clock's reading and expires
  within 300 seconds of it; the facilitator confirmed this very proof, and named no other payer.
\<close>

theorem payment_verified:
  assumes "make_gateway client cf fac = Inr g" "verify_payment x g clk sig expected = Inr vp"
  shows "\<exists>s now. sig = PStr s \<and> is_ascii s \<and> int (length s) \<le> 65536 \<and> clk = Some (Finite now)
    \<and> (expected = None \<or> expected = Some (vp_identifier vp))
    \<and> (\<exists>rq f a t r payee. gw_requirements g = Some rq \<and> gw_facilitator g = Some f
        \<and> xl_decode x s = Decoded (vp_payload vp)
        \<and> xl_identifier x (vp_payload vp) = (Some (vp_identifier vp), True)
        \<and> same_json (pf_accepted (vp_payload vp)) (xl_terms x rq)
        \<and> pc_resource cf \<noteq> None \<and> pf_resource (vp_payload vp) = pc_resource cf
        \<and> authorization_of (vp_payload vp) = Some a \<and> read_transfer a rq = Inr t
        \<and> pc_pay_to cf = Some payee \<and> tr_to t = py_lower payee \<and> tr_value t = pc_amount cf
        \<and> of_int (decimal_value (dget a ''validAfter'')) \<le> now
        \<and> now < of_int (decimal_value (dget a ''validBefore''))
        \<and> of_int (decimal_value (dget a ''validBefore'')) \<le> now + 300
        \<and> fa_verify f (vp_payload vp) rq = Answer r \<and> vr_valid r
        \<and> (vr_payer r = None \<or> map_option py_lower (vr_payer r) = Some (tr_from t))
        \<and> authorization_fingerprint x (vp_payload vp) rq = Inr (vp_authorization vp)
        \<and> vp_proof vp = proof_fingerprint x s)"
  using verified_evidence [OF assms] unfolding evidence_def .

theorem payment_verified_witness:
  "\<exists>vp. verify_payment toy_x402 toy_gateway (Some (Finite 2)) (PStr ''sig'') (Some ''key-1'') = Inr vp
     \<and> vp_identifier vp = ''key-1''"
proof -
  obtain vp where vp: "verify_payment toy_x402 toy_gateway (Some (Finite 2)) (PStr ''sig'') (Some ''key-1'') = Inr vp"
    using toy_verifies by (auto simp: succeeds_def)
  from payment_verified [OF toy_make_gateway vp] have "Some ''key-1'' = Some (vp_identifier vp)" by blast
  with vp show ?thesis by auto
qed

text \<open>
  C20: The authorization fingerprint names one signed transfer. Two proofs have the same
  fingerprint exactly if their authorizations are the same transfer, payer, payee, amount,
  window and nonce, up to the case of hexadecimal text; whatever else the caller put into
  the proof makes no difference. SHA-256 is assumed not to collide.
\<close>

theorem authorization_fingerprint_exact:
  assumes "inj (xl_sha256 x)"
    and "authorization_fingerprint x p rq = Inr h" "authorization_fingerprint x p' rq = Inr h'"
  shows "h = h' \<longleftrightarrow> (\<exists>a a'. authorization_of p = Some a \<and> authorization_of p' = Some a'
           \<and> read_transfer a rq = read_transfer a' rq)"
proof -
  obtain a t b where 1: "authorization_of p = Some a" "read_transfer a rq = Inr t"
    "canonical_bytes (xl_float_text x) (transfer_json rq t) = Some b" "h = ''sha256:'' @ bytes_hex (xl_sha256 x b)"
    using authorization_fingerprint_Inr [OF assms(2)] by blast
  obtain a' t' b' where 2: "authorization_of p' = Some a'" "read_transfer a' rq = Inr t'"
    "canonical_bytes (xl_float_text x) (transfer_json rq t') = Some b'" "h' = ''sha256:'' @ bytes_hex (xl_sha256 x b')"
    using authorization_fingerprint_Inr [OF assms(3)] by blast
  have "h = h' \<Longrightarrow> b = b'" using 1(4) 2(4) assms(1) by (auto simp: inj_eq dest: hex_bytes_inj)
  then have "h = h' \<Longrightarrow> t = t'" using transfer_json_inj [OF 1(2) 2(2), of "xl_float_text x"] 1(3) 2(3) by simp
  then show ?thesis using 1 2 by auto
qed

theorem authorization_fingerprint_exact_witness:
  "authorization_fingerprint toy_x402 (toy_proof\<lparr>pf_dump := PBool True\<rparr>) toy_requirements
   = authorization_fingerprint toy_x402 toy_proof toy_requirements"
proof -
  have "succeeds (authorization_fingerprint toy_x402 toy_proof toy_requirements)" by (rule toy_fingerprint) simp
  then obtain h where h: "authorization_fingerprint toy_x402 toy_proof toy_requirements = Inr h"
    by (auto simp: succeeds_def)
  moreover have "succeeds (authorization_fingerprint toy_x402 (toy_proof\<lparr>pf_dump := PBool True\<rparr>) toy_requirements)"
    by (rule toy_fingerprint) simp
  then obtain h' where h': "authorization_fingerprint toy_x402 (toy_proof\<lparr>pf_dump := PBool True\<rparr>) toy_requirements = Inr h'"
    by (auto simp: succeeds_def)
  moreover have "inj (xl_sha256 toy_x402)" by (simp add: toy_x402_def)
  ultimately show ?thesis
    using authorization_fingerprint_exact [of toy_x402 toy_proof toy_requirements h "toy_proof\<lparr>pf_dump := PBool True\<rparr>" h']
    by (simp add: authorization_of_def toy_proof_def)
qed

text \<open>
  C21: Settlement is final. Once the facilitator has been asked, every failure is terminal
  and never retryable, whatever the facilitator answers; and a receipt is issued only for a
  successful settlement on the configured network, of the configured amount, with a
  transaction hash, by no other payer, under the fingerprint of the verified proof.
\<close>

theorem settlement_final:
  assumes "require_enabled g = Inr (rq, f)"
  shows "case settle_payment x g vp of
      Inl e \<Rightarrow> py_terminal e \<and> \<not> py_retryable e
    | Inr r \<Rightarrow> re_network r = pc_network (gw_config g) \<and> re_amount r = pc_amount (gw_config g)
        \<and> hex_text 64 (PStr (re_transaction r)) \<noteq> None \<and> re_proof r = vp_proof vp
        \<and> int (length (re_header r)) \<le> 65536
        \<and> (\<exists>s. fa_settle f (vp_payload vp) rq = Answer s \<and> sr_success s
             \<and> (sr_payer s = None \<or> vp_payer vp = None
                 \<or> map_option py_lower (sr_payer s) = map_option py_lower (vp_payer vp)))"
proof (cases "fa_settle f (vp_payload vp) rq")
  case (Answer s)
  show ?thesis
  proof (cases "check_receipt g vp s")
    case (Inl e)
    then have "py_terminal e \<and> \<not> py_retryable e"
      by (auto simp: check_receipt_def bad_receipt_def terminal_error_def split: if_splits option.splits)
    then show ?thesis using assms Answer Inl by (simp add: settle_payment_def accept_settlement_def)
  next
    case (Inr u)
    then have "sr_success s" "sr_network s = pc_network (gw_config g)"
      "sr_amount s = None \<or> sr_amount s = Some (pc_amount (gw_config g))"
      "hex_text 64 (PStr (sr_transaction s)) \<noteq> None"
      "sr_payer s = None \<or> vp_payer vp = None \<or> map_option py_lower (sr_payer s) = map_option py_lower (vp_payer vp)"
      by (auto simp: check_receipt_def split: if_splits option.splits)
    then show ?thesis using assms Answer Inr
      by (auto simp: settle_payment_def accept_settlement_def Let_def bad_receipt_def terminal_error_def
          text_or_def MAX_PAYMENT_HEADER_BYTES_def split: option.splits)
  qed
qed (use assms in \<open>simp_all add: settle_payment_def accept_settlement_def terminal_error_def\<close>)

theorem settlement_final_witness:
  "\<exists>r. settle_payment toy_x402 toy_gateway \<lparr>vp_payer = None, vp_identifier = ''key-1'', vp_proof = ''p'',
        vp_authorization = ''a'', vp_payload = toy_proof\<rparr> = Inr r \<and> re_amount r = ''9''"
proof -
  let ?vp = "\<lparr>vp_payer = None, vp_identifier = ''key-1'', vp_proof = ''p'', vp_authorization = ''a'', vp_payload = toy_proof\<rparr>"
  have "succeeds (settle_payment toy_x402 toy_gateway ?vp)" by code_simp
  then obtain r where r: "settle_payment toy_x402 toy_gateway ?vp = Inr r" by (auto simp: succeeds_def)
  have "require_enabled toy_gateway = Inr (toy_requirements, toy_facilitator)"
    by (simp add: require_enabled_def toy_gateway_def toy_pay_config_def default_pay_config_def)
  from settlement_final [OF this, where x = toy_x402 and vp = ?vp] r show ?thesis
    by (auto simp: toy_gateway_def toy_pay_config_def default_pay_config_def)
qed

end
