(* ===== verification/Hosted_Settings.thy ===== *)
theory Hosted_Settings
  imports Hosted_Cache Payments Source_Resolve
begin

text \<open>
  The deployment's configuration: \<open>PaymentConfig.from_env\<close> of \<open>lucent/payments.py\<close> with the
  part of \<open>urllib.parse\<close> it uses, and the settings and runtime of \<open>lucent/hosted.py\<close>. The
  environment is a map from names to text. \<open>json.loads\<close> and the check of a bracketed host
  are parameters; \<open>float\<close> gives the exact number its text denotes.
\<close>

section \<open>Text\<close>

text \<open>\<open>s.partition(c)\<close> and \<open>s.rpartition(c)\<close>, without the separator.\<close>

definition part_before :: "char \<Rightarrow> pystr \<Rightarrow> pystr" where
  "part_before c s = takeWhile (\<lambda>d. d \<noteq> c) s"

definition part_after :: "char \<Rightarrow> pystr \<Rightarrow> pystr" where
  "part_after c s = drop 1 (dropWhile (\<lambda>d. d \<noteq> c) s)"

definition rpart_before :: "char \<Rightarrow> pystr \<Rightarrow> pystr" where
  "rpart_before c s = rev (part_after c (rev s))"

definition rpart_after :: "char \<Rightarrow> pystr \<Rightarrow> pystr" where
  "rpart_after c s = rev (part_before c (rev s))"

text \<open>A run of digits with single underscores between them, and \<open>float(text)\<close>.\<close>

definition digit_part :: "pystr \<Rightarrow> bool" where
  "digit_part s \<longleftrightarrow> digits_ok False s"

definition is_exponent_mark :: "char \<Rightarrow> bool" where
  "is_exponent_mark c \<longleftrightarrow> c = CHR ''e'' \<or> c = CHR ''E''"

definition signed_digits :: "pystr \<Rightarrow> int option" where
  "signed_digits s =
     (let body = (if take 1 s \<in> {''+'', ''-''} then drop 1 s else s) in
      if digit_part body then Some (if take 1 s = ''-'' then - digits_value body else digits_value body) else None)"

definition power_of_ten :: "int \<Rightarrow> rat" where
  "power_of_ten n = (if 0 \<le> n then 10 ^ nat n else 1 / 10 ^ nat (- n))"

definition unsigned_float :: "pystr \<Rightarrow> rat option" where
  "unsigned_float s =
     (let mantissa = takeWhile (\<lambda>c. \<not> is_exponent_mark c) s;
          rest = dropWhile (\<lambda>c. \<not> is_exponent_mark c) s;
          whole_part = part_before (CHR ''.'') mantissa;
          fraction = part_after (CHR ''.'') mantissa;
          dotted = CHR ''.'' \<in> set mantissa;
          ok = (if dotted then (digit_part whole_part \<or> whole_part = []) \<and> (digit_part fraction \<or> fraction = [])
                  \<and> (whole_part \<noteq> [] \<or> fraction \<noteq> [])
                else digit_part whole_part);
          exponent = (if rest = [] then Some 0 else signed_digits (drop 1 rest))
      in (case exponent of
            None \<Rightarrow> None
          | Some n \<Rightarrow>
              if ok then Some (of_int (digits_value (whole_part @ fraction))
                    * power_of_ten (n - int (length (filter is_digit fraction)))) else None))"

definition py_float_text :: "pystr \<Rightarrow> pyfloat option" where
  "py_float_text t =
     (let s = py_strip t;
          negative = (take 1 s = ''-'');
          body = (if take 1 s \<in> {''+'', ''-''} then drop 1 s else s);
          word = py_lower body
      in if word = ''inf'' \<or> word = ''infinity'' then Some (if negative then NegInf else PosInf)
         else if word = ''nan'' then Some NaN
         else map_option (\<lambda>q. Finite (if negative then - q else q)) (unsigned_float body))"

section \<open>URLs\<close>

record split_url =
  su_scheme :: pystr
  su_netloc :: pystr
  su_path :: pystr
  su_query :: pystr
  su_fragment :: pystr

definition is_scheme_char :: "char \<Rightarrow> bool" where
  "is_scheme_char c \<longleftrightarrow> is_letter c \<or> is_digit c \<or> c \<in> set ''+-.''"

definition ends_netloc :: "char \<Rightarrow> bool" where
  "ends_netloc c \<longleftrightarrow> c \<in> set ''/?#''"

text \<open>
  \<open>urlsplit\<close> with no default scheme; \<open>bracket_ok\<close> judges a host in square brackets. No
  character up to U+00FF normalises to a delimiter, so \<open>_checknetloc\<close> passes.
\<close>

definition urlsplit :: "(pystr \<Rightarrow> bool) \<Rightarrow> pystr \<Rightarrow> py_exn + split_url" where
  "urlsplit bracket_ok value =
     (let url = filter (\<lambda>c. code c \<notin> {9, 10, 13}) (dropWhile (\<lambda>c. code c \<le> 32) value);
          has_scheme = (CHR '':'' \<in> set url \<and> url \<noteq> [] \<and> is_letter (hd url)
            \<and> list_all is_scheme_char (part_before (CHR '':'') url));
          scheme = (if has_scheme then py_lower (part_before (CHR '':'') url) else []);
          rest = (if has_scheme then part_after (CHR '':'') url else url);
          located = (take 2 rest = ''//'');
          netloc = (if located then takeWhile (\<lambda>c. \<not> ends_netloc c) (drop 2 rest) else []);
          tail = (if located then dropWhile (\<lambda>c. \<not> ends_netloc c) (drop 2 rest) else rest);
          opening = (CHR ''['' \<in> set netloc);
          closing = (CHR '']'' \<in> set netloc)
      in if opening \<noteq> closing then Inl (ValueError ''Invalid IPv6 URL'')
         else if opening \<and> \<not> bracket_ok netloc then Inl (ValueError ''Invalid bracketed host'')
         else Inr \<lparr>su_scheme = scheme, su_netloc = netloc,
                su_path = part_before (CHR ''?'') (part_before (CHR ''#'') tail),
                su_query = part_after (CHR ''?'') (part_before (CHR ''#'') tail),
                su_fragment = part_after (CHR ''#'') tail\<rparr>)"

definition hostinfo :: "split_url \<Rightarrow> pystr \<times> pystr" where
  "hostinfo u =
     (let h = rpart_after (CHR ''@'') (su_netloc u) in
      if CHR ''['' \<in> set h
      then (let b = part_after (CHR ''['') h in
            (part_before (CHR '']'') b, part_after (CHR '':'') (part_after (CHR '']'') b)))
      else (part_before (CHR '':'') h, part_after (CHR '':'') h))"

text \<open>The host in lower case, except for an address's zone.\<close>

definition hostname :: "split_url \<Rightarrow> pystr option" where
  "hostname u =
     (let h = fst (hostinfo u) in
      if h = [] then None
      else Some (py_lower (part_before (CHR ''%'') h) @ dropWhile (\<lambda>c. c \<noteq> CHR ''%'') h))"

definition has_userinfo :: "split_url \<Rightarrow> bool" where
  "has_userinfo u \<longleftrightarrow> CHR ''@'' \<in> set (su_netloc u)"

definition port :: "split_url \<Rightarrow> py_exn + int option" where
  "port u =
     (let p = snd (hostinfo u) in
      if p = [] then Inr None
      else if \<not> list_all is_digit p then Inl (ValueError (''Port could not be cast to integer value as '' @ py_repr p))
      else if 65535 < digits_value p then Inl (ValueError ''Port out of range 0-65535'')
      else Inr (Some (digits_value p)))"

section \<open>Payment settings\<close>

definition DEFAULT_ALLOWED_FACILITATOR_HOSTS :: "pystr list" where
  "DEFAULT_ALLOWED_FACILITATOR_HOSTS = [''api.cdp.coinbase.com'', ''x402.org'']"

definition strict_bool :: "pystr option \<Rightarrow> bool \<Rightarrow> py_exn + bool" where
  "strict_bool v dflt =
     (case v of
        None \<Rightarrow> Inr dflt
      | Some t \<Rightarrow>
          (let n = py_lower (py_strip t) in
           if n \<in> {''1'', ''true'', ''yes'', ''on''} then Inr True
           else if n \<in> {''0'', ''false'', ''no'', ''off''} then Inr False
           else Inl (ValueError ''boolean setting must be true or false'')))"

definition rstrip_slash :: "pystr \<Rightarrow> pystr" where
  "rstrip_slash s = rev (dropWhile (\<lambda>c. c = CHR ''/'') (rev s))"

definition server_https_url ::
  "(pystr \<Rightarrow> bool) \<Rightarrow> pystr \<Rightarrow> pystr \<Rightarrow> pystr option \<Rightarrow> py_exn + pystr" where
  "server_https_url bracket_ok v setting path =
     (if v = [] \<or> 2048 < int (length v) then Inl (ValueError (setting @ '' must be a non-empty HTTPS URL''))
      else
        res_bind (urlsplit bracket_ok v)
        (\<lambda>u. let bad = Inl (ValueError (setting @ '' must be a canonical HTTPS URL without credentials'')) in
          if su_scheme u \<noteq> ''https'' \<or> hostname u = None \<or> has_userinfo u
             \<or> su_query u \<noteq> [] \<or> su_fragment u \<noteq> [] then bad
          else
            res_bind (port u)
            (\<lambda>p. if p \<noteq> None \<and> p \<noteq> Some 443 then bad
              else if path \<noteq> None \<and> path \<noteq> Some (su_path u)
              then Inl (ValueError (setting @ '' must end at '' @ (case path of None \<Rightarrow> [] | Some t \<Rightarrow> t)))
              else Inr (''https://'' @ su_netloc u @ rstrip_slash (su_path u)))))"

definition is_price :: "pystr \<Rightarrow> bool" where
  "is_price s \<longleftrightarrow> s \<noteq> [] \<and> list_all is_digit s \<and> hd s \<noteq> CHR ''0''"

type_synonym environ = "pystr \<Rightarrow> pystr option"

definition env_or :: "environ \<Rightarrow> pystr \<Rightarrow> pystr \<Rightarrow> pystr" where
  "env_or env name dflt = (case env name of None \<Rightarrow> dflt | Some v \<Rightarrow> v)"

definition allowed_hosts :: "environ \<Rightarrow> pystr list" where
  "allowed_hosts env =
     DEFAULT_ALLOWED_FACILITATOR_HOSTS
     @ map (\<lambda>i. py_lower (py_strip i))
         (filter (\<lambda>i. py_strip i \<noteq> []) (py_split (CHR '','') (env_or env ''LUCENT_X402_ALLOWED_FACILITATOR_HOSTS'' [])))"

definition bearer_ok :: "pystr \<Rightarrow> bool" where
  "bearer_ok t \<longleftrightarrow> t \<noteq> [] \<and> int (length (utf8 t)) \<le> 8192 \<and> list_all (\<lambda>c. 33 \<le> code c \<and> code c \<le> 126) t"

definition check_amount :: "pystr \<Rightarrow> py_exn + unit" where
  "check_amount amount =
     (if \<not> is_price amount then Inl (ValueError ''LUCENT_X402_AMOUNT must be a positive atomic-unit integer'')
      else if MAX_STR_DIGITS < int (length amount)
      then Inl (ValueError ''Exceeds the limit (4300 digits) for integer string conversion'')
      else if MAX_PRICE_ATOMIC < digits_value amount
      then Inl (ValueError ''LUCENT_X402_AMOUNT exceeds the 100 USDC safety ceiling'')
      else Inr ())"

definition facilitator_timeout :: "environ \<Rightarrow> py_exn + rat" where
  "facilitator_timeout env =
     (case py_float_text (env_or env ''LUCENT_X402_FACILITATOR_TIMEOUT'' ''8'') of
        None \<Rightarrow> Inl (ValueError ''LUCENT_X402_FACILITATOR_TIMEOUT must be numeric'')
      | Some (Finite q) \<Rightarrow>
          if 1 \<le> q \<and> q \<le> 15 then Inr q
          else Inl (ValueError ''LUCENT_X402_FACILITATOR_TIMEOUT must be between 1 and 15 seconds'')
      | Some _ \<Rightarrow> Inl (ValueError ''LUCENT_X402_FACILITATOR_TIMEOUT must be between 1 and 15 seconds''))"

definition payment_from_env :: "(pystr \<Rightarrow> bool) \<Rightarrow> environ \<Rightarrow> py_exn + pay_config" where
  "payment_from_env bracket_ok env =
     res_bind (strict_bool (env ''LUCENT_X402_ENABLED'') False)
     (\<lambda>enabled. if \<not> enabled then Inr default_pay_config
      else
        let network = env_or env ''LUCENT_X402_NETWORK'' BASE_MAINNET;
            pay_to = env_or env ''LUCENT_X402_PAY_TO'' [];
            amount = env_or env ''LUCENT_X402_AMOUNT'' ''10000'' in
        res_bind (guard (network = BASE_MAINNET) (ValueError ''LUCENT_X402_NETWORK must be eip155:8453''))
        (\<lambda>_. res_bind (guard (is_address_text pay_to) (ValueError ''LUCENT_X402_PAY_TO must be a 20-byte EVM address''))
        (\<lambda>_. res_bind (check_amount amount)
        (\<lambda>_. res_bind (server_https_url bracket_ok (env_or env ''LUCENT_X402_RESOURCE_URL'' [])
                        ''LUCENT_X402_RESOURCE_URL'' (Some ''/v1/preflight''))
        (\<lambda>resource. res_bind (server_https_url bracket_ok (env_or env ''LUCENT_X402_FACILITATOR_URL'' [])
                        ''LUCENT_X402_FACILITATOR_URL'' None)
        (\<lambda>facility. res_bind (urlsplit bracket_ok facility)
        (\<lambda>u. res_bind (guard (case hostname u of None \<Rightarrow> False | Some h \<Rightarrow> py_lower h \<in> set (allowed_hosts env))
                        (ValueError ''LUCENT_X402_FACILITATOR_URL host is not allowlisted''))
        (\<lambda>_. res_bind (facilitator_timeout env)
        (\<lambda>timeout. res_bind
           (guard (case env ''LUCENT_X402_FACILITATOR_BEARER_TOKEN'' of None \<Rightarrow> True | Some t \<Rightarrow> bearer_ok t)
             (ValueError ''LUCENT_X402_FACILITATOR_BEARER_TOKEN must be bounded visible ASCII''))
        (\<lambda>_. Inr (default_pay_config
           \<lparr>pc_enabled := True, pc_network := network, pc_amount := amount, pc_pay_to := Some pay_to,
            pc_resource := Some resource, pc_facilitator := Some facility,
            pc_bearer := env ''LUCENT_X402_FACILITATOR_BEARER_TOKEN'', pc_timeout := timeout\<rparr>)))))))))))"

section \<open>Hosted settings\<close>

definition MAX_TENANT_CONFIG_BYTES :: int where "MAX_TENANT_CONFIG_BYTES = 64 * 1024"
definition MAX_TENANTS :: int where "MAX_TENANTS = 256"
definition MAX_SOURCE_CACHE_ENTRIES :: int where "MAX_SOURCE_CACHE_ENTRIES = 64"
definition MAX_SOURCE_CACHE_BYTES :: int where "MAX_SOURCE_CACHE_BYTES = 16 * 1024 * 1024"
definition MIN_SOURCE_CACHE_TTL_SECONDS :: int where "MIN_SOURCE_CACHE_TTL_SECONDS = 1"
definition MAX_SOURCE_CACHE_TTL_SECONDS :: int where "MAX_SOURCE_CACHE_TTL_SECONDS = 60"
definition SOURCE_NEGATIVE_CACHE_TTL_SECONDS :: rat where "SOURCE_NEGATIVE_CACHE_TTL_SECONDS = 2"
definition PROTECTED_RESERVATION_TTL_SECONDS :: rat where "PROTECTED_RESERVATION_TTL_SECONDS = 120"
definition PROTECTED_RESULT_TTL_SECONDS :: rat where "PROTECTED_RESULT_TTL_SECONDS = 5 * 60"
definition MAX_CACHED_RESULT_BYTES :: int where "MAX_CACHED_RESULT_BYTES = 2 * 1024 * 1024"
definition MAX_RESULT_CACHE_ENTRIES :: int where "MAX_RESULT_CACHE_ENTRIES = 512"
definition MAX_RESULT_CACHE_BYTES :: int where "MAX_RESULT_CACHE_BYTES = 32 * 1024 * 1024"
definition PAYMENT_CLAIM_TTL_SECONDS :: rat where "PAYMENT_CLAIM_TTL_SECONDS = 15 * 60"
definition MAX_PAYMENT_CLAIM_ENTRIES :: int where "MAX_PAYMENT_CLAIM_ENTRIES = 4096"
definition MAX_PAYMENT_CLAIM_CACHE_BYTES :: int where "MAX_PAYMENT_CLAIM_CACHE_BYTES = 4 * 1024 * 1024"

datatype access_mode = Disabled | Open | ApiKey | X402 | ApiKeyOrX402

definition uses_api_keys :: "access_mode \<Rightarrow> bool" where
  "uses_api_keys m \<longleftrightarrow> m = ApiKey \<or> m = ApiKeyOrX402"

definition uses_x402 :: "access_mode \<Rightarrow> bool" where
  "uses_x402 m \<longleftrightarrow> m = X402 \<or> m = ApiKeyOrX402"

fun mode_value :: "access_mode \<Rightarrow> pystr" where
  "mode_value Disabled = ''disabled''"
| "mode_value Open = ''open''"
| "mode_value ApiKey = ''api_key''"
| "mode_value X402 = ''x402''"
| "mode_value ApiKeyOrX402 = ''api_key_or_x402''"

definition read_mode :: "pystr option \<Rightarrow> py_exn + access_mode" where
  "read_mode v =
     (case v of
        None \<Rightarrow> Inr Disabled
      | Some t \<Rightarrow>
          (case find (\<lambda>m. mode_value m = t) [Disabled, Open, ApiKey, X402, ApiKeyOrX402] of
             Some m \<Rightarrow> Inr m | None \<Rightarrow> Inl (ValueError ''LUCENT_ACCESS_MODE is invalid'')))"

definition read_source_required :: "pystr option \<Rightarrow> py_exn + bool" where
  "read_source_required v =
     (case v of
        None \<Rightarrow> Inr False
      | Some t \<Rightarrow>
          if t = ''off'' then Inr False else if t = ''required'' then Inr True
          else Inl (ValueError ''LUCENT_VERIFIED_SOURCE_MODE is invalid''))"

definition finite_float :: "pystr \<Rightarrow> pystr \<Rightarrow> int \<Rightarrow> int \<Rightarrow> py_exn + rat" where
  "finite_float v setting lo hi =
     (let outside = Inl (ValueError (setting @ '' must be between '' @ int_str lo @ '' and '' @ int_str hi)) in
      case py_float_text v of
        None \<Rightarrow> Inl (ValueError (setting @ '' must be numeric''))
      | Some (Finite q) \<Rightarrow> if of_int lo \<le> q \<and> q \<le> of_int hi then Inr q else outside
      | Some _ \<Rightarrow> outside)"

definition TENANT_FIELDS :: "pystr list" where
  "TENANT_FIELDS = [''tenant_id'', ''api_key_hash'', ''capacity'', ''refill_tokens_per_second'', ''enabled'']"

definition read_tenant :: "pyval \<Rightarrow> py_exn + tenant_config" where
  "read_tenant v =
     (case v of
        PDict d \<Rightarrow>
          if \<not> set (map fst d) \<subseteq> set TENANT_FIELDS
          then Inl (ValueError ''tenant configuration contains unsupported fields'')
          else if ''api_key'' \<in> set (map fst d)
          then Inl (ValueError ''tenant configuration must contain hashes, never plaintext keys'')
          else
            (case res_bind (make_quota_policy (dget_or d ''capacity'' (PInt 60))
                     (dget_or d ''refill_tokens_per_second'' (PFloat (Finite 1))))
                   (\<lambda>q. make_tenant_config (dget d ''tenant_id'') (dget d ''api_key_hash'') q
                          (dget_or d ''enabled'' (PBool True))) of
               Inr t \<Rightarrow> Inr t
             | Inl _ \<Rightarrow> Inl (ValueError ''tenant configuration is invalid''))
      | _ \<Rightarrow> Inl (ValueError ''tenant configuration contains unsupported fields''))"

definition parse_tenants :: "(pystr \<Rightarrow> pyval option) \<Rightarrow> pystr option \<Rightarrow> py_exn + tenant_config list" where
  "parse_tenants loads raw =
     (case raw of
        None \<Rightarrow> Inr []
      | Some t \<Rightarrow>
          if t = [] then Inr []
          else if MAX_TENANT_CONFIG_BYTES < int (length (utf8 t))
          then Inl (ValueError ''LUCENT_TENANTS_JSON exceeds its 64 KiB limit'')
          else
            (case loads t of
               None \<Rightarrow> Inl (ValueError ''LUCENT_TENANTS_JSON must be valid bounded JSON'')
             | Some (PList items) \<Rightarrow>
                 if 1 \<le> int (length items) \<and> int (length items) \<le> MAX_TENANTS then res_map read_tenant items
                 else Inl (ValueError ''LUCENT_TENANTS_JSON must contain 1 to 256 tenants'')
             | Some _ \<Rightarrow> Inl (ValueError ''LUCENT_TENANTS_JSON must contain 1 to 256 tenants'')))"

record hosted_settings =
  hs_mode :: access_mode
  hs_source_required :: bool
  hs_cache_ttl :: rat
  hs_tenants :: "tenant_config list"
  hs_payment :: pay_config

definition check_modes :: "access_mode \<Rightarrow> bool \<Rightarrow> tenant_config list \<Rightarrow> pay_config \<Rightarrow> py_exn + unit" where
  "check_modes mode required tenants payment =
     (if uses_api_keys mode \<and> tenants = []
      then Inl (ValueError ''API-key access requires LUCENT_TENANTS_JSON'')
      else if \<not> uses_api_keys mode \<and> tenants \<noteq> []
      then Inl (ValueError ''tenant keys were configured but API-key access is disabled'')
      else if uses_x402 mode \<and> \<not> pc_enabled payment
      then Inl (ValueError ''x402 access requires LUCENT_X402_ENABLED=true'')
      else if \<not> uses_x402 mode \<and> pc_enabled payment
      then Inl (ValueError ''x402 was enabled but the selected access mode does not use it'')
      else if uses_x402 mode \<and> \<not> required
      then Inl (ValueError ''monetized access requires verified source mode'')
      else if required \<and> (mode = Disabled \<or> mode = Open)
      then Inl (ValueError ''verified source mode requires protected API-key or x402 access'')
      else Inr ())"

definition settings_from_env ::
  "(pystr \<Rightarrow> bool) \<Rightarrow> (pystr \<Rightarrow> pyval option) \<Rightarrow> environ \<Rightarrow> py_exn + hosted_settings" where
  "settings_from_env bracket_ok loads env =
     res_bind (read_mode (env ''LUCENT_ACCESS_MODE''))
     (\<lambda>mode. res_bind (read_source_required (env ''LUCENT_VERIFIED_SOURCE_MODE''))
     (\<lambda>required. res_bind (finite_float (env_or env ''LUCENT_VERIFIED_SOURCE_CACHE_TTL'' ''15'')
          ''LUCENT_VERIFIED_SOURCE_CACHE_TTL'' MIN_SOURCE_CACHE_TTL_SECONDS MAX_SOURCE_CACHE_TTL_SECONDS)
     (\<lambda>ttl. res_bind (parse_tenants loads (env ''LUCENT_TENANTS_JSON''))
     (\<lambda>tenants. res_bind (payment_from_env bracket_ok env)
     (\<lambda>payment. res_bind (check_modes mode required tenants payment)
     (\<lambda>_. Inr \<lparr>hs_mode = mode, hs_source_required = required, hs_cache_ttl = ttl, hs_tenants = tenants,
        hs_payment = payment\<rparr>))))))"

section \<open>The runtime\<close>

record runtime =
  rt_settings :: hosted_settings
  rt_access :: "controller option"
  rt_payments :: "gateway option"
  rt_payment_store :: "idem_store option"
  rt_claims :: "idem_store option"
  rt_sources :: "verified_source source_cache option"

definition access_settings :: idem_settings where
  "access_settings = \<lparr>cs_idempotency_ttl = PFloat (Finite PROTECTED_RESULT_TTL_SECONDS),
     cs_reservation_ttl = PFloat (Finite PROTECTED_RESERVATION_TTL_SECONDS),
     cs_max_entries = PInt MAX_RESULT_CACHE_ENTRIES, cs_max_response_bytes = PInt MAX_CACHED_RESULT_BYTES,
     cs_max_total_response_bytes = PInt MAX_RESULT_CACHE_BYTES, cs_evict_completed = PBool True\<rparr>"

definition payment_store :: "py_exn + idem_store" where
  "payment_store = make_store (PFloat (Finite PAYMENT_CLAIM_TTL_SECONDS))
     (PFloat (Finite PROTECTED_RESERVATION_TTL_SECONDS)) (PInt MAX_RESULT_CACHE_ENTRIES)
     (PInt MAX_CACHED_RESULT_BYTES) (PInt MAX_RESULT_CACHE_BYTES) (PBool False)"

definition claim_store :: "py_exn + idem_store" where
  "claim_store = make_store (PFloat (Finite PAYMENT_CLAIM_TTL_SECONDS))
     (PFloat (Finite PROTECTED_RESERVATION_TTL_SECONDS)) (PInt MAX_PAYMENT_CLAIM_ENTRIES)
     (PInt 1024) (PInt MAX_PAYMENT_CLAIM_CACHE_BYTES) (PBool False)"

definition py_failure :: "py_exn + 'a \<Rightarrow> gateway_failure + 'a" where
  "py_failure m = (case m of Inl e \<Rightarrow> Inl (GwPy e) | Inr x \<Rightarrow> Inr x)"

definition optional :: "bool \<Rightarrow> 'e + 'a \<Rightarrow> 'e + 'a option" where
  "optional c m = (if c then (case m of Inl e \<Rightarrow> Inl e | Inr x \<Rightarrow> Inr (Some x)) else Inr None)"

text \<open>The runtime of given settings; a gateway may be handed in.\<close>

definition runtime_of ::
  "(pystr \<Rightarrow> pystr option \<Rightarrow> pay_client) \<Rightarrow> gateway option \<Rightarrow> hosted_settings \<Rightarrow> gateway_failure + runtime" where
  "runtime_of client given st =
     res_bind (optional (uses_api_keys (hs_mode st)) (py_failure (make_controller access_settings (hs_tenants st))))
     (\<lambda>access. res_bind (optional (uses_x402 (hs_mode st))
        (case given of Some g \<Rightarrow> Inr g | None \<Rightarrow> make_gateway client (hs_payment st) None))
     (\<lambda>payments. res_bind (optional (uses_x402 (hs_mode st)) (py_failure payment_store))
     (\<lambda>pstore. res_bind (optional (uses_x402 (hs_mode st)) (py_failure claim_store))
     (\<lambda>claims. res_bind (optional (hs_source_required st)
        (py_failure (make_cache (PFloat (Finite (hs_cache_ttl st))) (PInt MAX_SOURCE_CACHE_ENTRIES)
           (PInt MAX_SOURCE_CACHE_BYTES) (PFloat (Finite SOURCE_NEGATIVE_CACHE_TTL_SECONDS)))))
     (\<lambda>sources. Inr \<lparr>rt_settings = st, rt_access = access, rt_payments = payments,
        rt_payment_store = pstore, rt_claims = claims, rt_sources = sources\<rparr>)))))"

definition runtime_from_env ::
  "(pystr \<Rightarrow> bool) \<Rightarrow> (pystr \<Rightarrow> pyval option) \<Rightarrow> (pystr \<Rightarrow> pystr option \<Rightarrow> pay_client) \<Rightarrow> gateway option
   \<Rightarrow> environ \<Rightarrow> gateway_failure + runtime" where
  "runtime_from_env bracket_ok loads client given env =
     res_bind (py_failure (settings_from_env bracket_ok loads env)) (runtime_of client given)"

definition readiness :: "runtime \<Rightarrow> (pystr \<times> pyval) list" where
  "readiness rt =
     [(''access_mode'', PStr (mode_value (hs_mode (rt_settings rt)))),
      (''verified_source_mode'', PStr (if hs_source_required (rt_settings rt) then ''required'' else ''off'')),
      (''x402_enabled'', PBool (case rt_payments rt of None \<Rightarrow> False | Some g \<Rightarrow> pc_enabled (gw_config g))),
      (''api_key_tenants'', PInt (int (length (hs_tenants (rt_settings rt))))),
      (''state_backend'', PStr ''process_local'')]"

end
