(* ===== verification/Hosted_Facts.thy ===== *)
theory Hosted_Facts
  imports Hosted_Settings Payment_Facts
begin

text \<open>
  What an accepted configuration guarantees: the terms of payment it can ask for, and that
  the runtime holds exactly the parts its access mode uses.
\<close>

section \<open>Settings\<close>

lemma server_https_url_Inr:
  assumes "server_https_url b v setting path = Inr url"
  shows "\<exists>u h. urlsplit b v = Inr u \<and> su_scheme u = ''https'' \<and> hostname u = Some h \<and> \<not> has_userinfo u
    \<and> (port u = Inr None \<or> port u = Inr (Some 443)) \<and> (path = None \<or> path = Some (su_path u))
    \<and> url = ''https://'' @ su_netloc u @ rstrip_slash (su_path u)"
  using assms
  by (auto simp: server_https_url_def Let_def res_bind_Inr_iff split: if_splits option.splits)

lemma check_amount_Inr:
  "check_amount a = Inr () \<Longrightarrow> is_price a \<and> digits_value a \<le> 100000000"
  by (auto simp: check_amount_def MAX_PRICE_ATOMIC_def split: if_splits)

lemma digits_value_pos:
  assumes "is_price s" shows "1 \<le> digits_value s"
proof -
  obtain c r where s: "s = c # r" "is_digit c" "c \<noteq> CHR ''0''" "list_all is_digit r"
    using assms by (cases s) (auto simp: is_price_def)
  have grow: "1 \<le> n \<Longrightarrow> list_all is_digit t \<Longrightarrow> 1 \<le> foldl (\<lambda>n c. 10 * n + (int (code c) - 48)) n t" for n t
    by (induction t arbitrary: n) (auto simp: is_digit_def in_range_def)
  have "code c \<noteq> 48" using s(3) code_inj [of c "CHR ''0''"] by (auto simp: code_def)
  then have "1 \<le> int (code c) - 48" using s(2) by (simp add: is_digit_def in_range_def)
  moreover have "filter is_digit r = r" using s(4) by (induction r) auto
  ultimately show ?thesis using grow s by (simp add: digits_value_def)
qed

lemma facilitator_timeout_Inr: "facilitator_timeout env = Inr q \<Longrightarrow> 1 \<le> q \<and> q \<le> 15"
  by (auto simp: facilitator_timeout_def split: option.splits pyfloat.splits if_splits)

lemma finite_float_Inr: "finite_float v setting lo hi = Inr q \<Longrightarrow> of_int lo \<le> q \<and> q \<le> of_int hi"
  by (auto simp: finite_float_def Let_def split: option.splits pyfloat.splits if_splits)

definition terms_safe :: "environ \<Rightarrow> pay_config \<Rightarrow> bool" where
  "terms_safe env cf \<longleftrightarrow>
     pc_network cf = BASE_MAINNET \<and> pc_asset cf = BASE_MAINNET_USDC
     \<and> is_price (pc_amount cf) \<and> 1 \<le> digits_value (pc_amount cf) \<and> digits_value (pc_amount cf) \<le> 100000000
     \<and> (\<exists>payee. pc_pay_to cf = Some payee \<and> is_address_text payee)
     \<and> (\<exists>host. pc_resource cf = Some (''https://'' @ host @ ''/v1/preflight''))
     \<and> (\<exists>b url u h. pc_facilitator cf = Some url \<and> urlsplit b url = Inr u \<and> hostname u = Some h
          \<and> py_lower h \<in> set (allowed_hosts env) \<and> take 8 url = ''https://'')
     \<and> pc_max_timeout cf = PInt 300 \<and> 1 \<le> pc_timeout cf \<and> pc_timeout cf \<le> 15"

lemma payment_from_env_Inr:
  assumes "payment_from_env b env = Inr cf" "pc_enabled cf"
  shows "terms_safe env cf"
proof -
  let ?pay_to = "env_or env ''LUCENT_X402_PAY_TO'' []" and ?amount = "env_or env ''LUCENT_X402_AMOUNT'' ''10000''"
  obtain resource facility u h timeout where
    a: "is_address_text ?pay_to" "check_amount ?amount = Inr ()"
    and r: "server_https_url b (env_or env ''LUCENT_X402_RESOURCE_URL'' []) ''LUCENT_X402_RESOURCE_URL''
              (Some ''/v1/preflight'') = Inr resource"
    and f: "server_https_url b (env_or env ''LUCENT_X402_FACILITATOR_URL'' []) ''LUCENT_X402_FACILITATOR_URL'' None
              = Inr facility"
    and u: "urlsplit b facility = Inr u" "hostname u = Some h" "py_lower h \<in> set (allowed_hosts env)"
    and t: "facilitator_timeout env = Inr timeout"
    and cf: "cf = default_pay_config
           \<lparr>pc_enabled := True, pc_network := BASE_MAINNET, pc_amount := ?amount, pc_pay_to := Some ?pay_to,
            pc_resource := Some resource, pc_facilitator := Some facility,
            pc_bearer := env ''LUCENT_X402_FACILITATOR_BEARER_TOKEN'', pc_timeout := timeout\<rparr>"
    using assms
    by (auto simp: payment_from_env_def res_bind_Inr_iff Let_def default_pay_config_def split: if_splits option.splits)
  have "rstrip_slash ''/v1/preflight'' = ''/v1/preflight''" by (simp add: rstrip_slash_def)
  then have "\<exists>host. resource = ''https://'' @ host @ ''/v1/preflight''"
    using server_https_url_Inr [OF r] by (metis (no_types) option.distinct(1) option.inject)
  moreover have "take 8 facility = ''https://''" using server_https_url_Inr [OF f] by auto
  ultimately show ?thesis
    using a check_amount_Inr [OF a(2)] digits_value_pos u facilitator_timeout_Inr [OF t]
    by (auto simp: terms_safe_def cf default_pay_config_def)
qed

lemma check_modes_Inr:
  "check_modes mode required tenants payment = Inr () \<longleftrightarrow>
     (uses_api_keys mode \<longleftrightarrow> tenants \<noteq> []) \<and> (uses_x402 mode \<longleftrightarrow> pc_enabled payment)
     \<and> (uses_x402 mode \<longrightarrow> required) \<and> (required \<longrightarrow> mode \<noteq> Disabled \<and> mode \<noteq> Open)"
  by (auto simp: check_modes_def)

lemma parse_tenants_length:
  "parse_tenants loads raw = Inr ts \<Longrightarrow> int (length ts) \<le> 256"
  by (auto simp: parse_tenants_def MAX_TENANTS_def split: option.splits if_splits pyval.splits
      dest: res_map_Inr_length)

lemma settings_from_env_Inr:
  assumes "settings_from_env b loads env = Inr st"
  shows "(uses_api_keys (hs_mode st) \<longleftrightarrow> hs_tenants st \<noteq> [])
    \<and> (uses_x402 (hs_mode st) \<longleftrightarrow> pc_enabled (hs_payment st))
    \<and> (uses_x402 (hs_mode st) \<longrightarrow> hs_source_required st)
    \<and> (hs_source_required st \<longrightarrow> hs_mode st \<noteq> Disabled \<and> hs_mode st \<noteq> Open)
    \<and> 1 \<le> hs_cache_ttl st \<and> hs_cache_ttl st \<le> 60 \<and> int (length (hs_tenants st)) \<le> 256
    \<and> (pc_enabled (hs_payment st) \<longrightarrow> terms_safe env (hs_payment st))"
  using assms payment_from_env_Inr [of b env]
  by (auto simp: settings_from_env_def res_bind_Inr_iff check_modes_Inr MIN_SOURCE_CACHE_TTL_SECONDS_def
      MAX_SOURCE_CACHE_TTL_SECONDS_def dest!: finite_float_Inr dest: parse_tenants_length)

section \<open>The runtime\<close>

definition paid_store_ok :: "idem_store \<Rightarrow> bool" where
  "paid_store_ok s \<longleftrightarrow> store_inv s \<and> is_ttl s = 900 \<and> \<not> is_evict_completed s"

lemma optional_Inr:
  "optional c m = Inr x \<longleftrightarrow> (if c then \<exists>y. m = Inr y \<and> x = Some y else x = None)"
  by (auto simp: optional_def split: sum.splits)

lemma py_failure_Inr [simp]: "py_failure m = Inr x \<longleftrightarrow> m = Inr x"
  by (simp add: py_failure_def split: sum.split)

lemma make_store_fields:
  assumes "make_store ttl rttl me mr mt (PBool ev) = Inr s"
  shows "store_inv s \<and> positive_finite ttl ''ttl_seconds'' = Inr (is_ttl s) \<and> is_evict_completed s = ev
    \<and> is_entries s = []"
  using assms make_store_inv [OF assms] by (auto simp: make_store_def res_bind_Inr_iff)

lemma paid_stores:
  "payment_store = Inr s \<Longrightarrow> paid_store_ok s \<and> is_entries s = []"
  "claim_store = Inr s \<Longrightarrow> paid_store_ok s \<and> is_entries s = []"
  by (auto simp: payment_store_def claim_store_def paid_store_ok_def PAYMENT_CLAIM_TTL_SECONDS_def
      positive_finite_def dest!: make_store_fields)

lemma runtime_of_Inr:
  assumes "runtime_of client given st = Inr rt"
  shows "rt_settings rt = st
    \<and> (rt_access rt \<noteq> None \<longleftrightarrow> uses_api_keys (hs_mode st)) \<and> (rt_payments rt \<noteq> None \<longleftrightarrow> uses_x402 (hs_mode st))
    \<and> (rt_payment_store rt \<noteq> None \<longleftrightarrow> uses_x402 (hs_mode st)) \<and> (rt_claims rt \<noteq> None \<longleftrightarrow> uses_x402 (hs_mode st))
    \<and> (rt_sources rt \<noteq> None \<longleftrightarrow> hs_source_required st)
    \<and> (\<forall>c. rt_access rt = Some c \<longrightarrow> make_controller access_settings (hs_tenants st) = Inr c)
    \<and> (\<forall>s. rt_payment_store rt = Some s \<longrightarrow> paid_store_ok s \<and> is_entries s = [])
    \<and> (\<forall>s. rt_claims rt = Some s \<longrightarrow> paid_store_ok s \<and> is_entries s = [])"
  using assms
  by (auto simp: runtime_of_def res_bind_Inr_iff optional_Inr paid_stores split: if_splits)

section \<open>Properties\<close>

definition toy_environ :: environ where
  "toy_environ = map_of
     [(''LUCENT_ACCESS_MODE'', ''x402''), (''LUCENT_VERIFIED_SOURCE_MODE'', ''required''),
      (''LUCENT_X402_ENABLED'', '' True ''), (''LUCENT_X402_PAY_TO'', toy_pay_to),
      (''LUCENT_X402_AMOUNT'', ''9''), (''LUCENT_X402_RESOURCE_URL'', ''https://lucent.example:443/v1/preflight''),
      (''LUCENT_X402_FACILITATOR_URL'', ''https://X402.org/facilitator/'')]"

definition toy_client :: "pystr \<Rightarrow> pystr option \<Rightarrow> pay_client" where
  "toy_client url bearer = \<lparr>cl_open = (\<lambda>u b h. PostFails), cl_url = url, cl_bearer = bearer, cl_loads = (\<lambda>b. None),
     cl_float_text = (\<lambda>r. []), cl_dump = (\<lambda>r. PNone), cl_verify_model = (\<lambda>v. None), cl_settle_model = (\<lambda>v. None)\<rparr>"

lemma toy_lookups:
  "toy_environ ''LUCENT_ACCESS_MODE'' = Some ''x402''" "toy_environ ''LUCENT_VERIFIED_SOURCE_MODE'' = Some ''required''"
  "toy_environ ''LUCENT_X402_ENABLED'' = Some '' True ''" "toy_environ ''LUCENT_X402_AMOUNT'' = Some ''9''"
  "toy_environ ''LUCENT_X402_PAY_TO'' = Some toy_pay_to"
  "toy_environ ''LUCENT_X402_NETWORK'' = None" "toy_environ ''LUCENT_X402_FACILITATOR_BEARER_TOKEN'' = None"
  "toy_environ ''LUCENT_TENANTS_JSON'' = None" "toy_environ ''LUCENT_VERIFIED_SOURCE_CACHE_TTL'' = None"
  "toy_environ ''LUCENT_X402_RESOURCE_URL'' = Some ''https://lucent.example:443/v1/preflight''"
  "toy_environ ''LUCENT_X402_FACILITATOR_URL'' = Some ''https://X402.org/facilitator/''"
  by (simp_all add: toy_environ_def)

lemma toy_urls:
  "server_https_url (\<lambda>s. True) ''https://lucent.example:443/v1/preflight'' ''LUCENT_X402_RESOURCE_URL''
     (Some ''/v1/preflight'') = Inr ''https://lucent.example:443/v1/preflight''"
  "server_https_url (\<lambda>s. True) ''https://X402.org/facilitator/'' ''LUCENT_X402_FACILITATOR_URL'' None
     = Inr ''https://X402.org/facilitator''"
  "urlsplit (\<lambda>s. True) ''https://X402.org/facilitator'' = Inr \<lparr>su_scheme = ''https'', su_netloc = ''X402.org'',
     su_path = ''/facilitator'', su_query = [], su_fragment = []\<rparr>"
  by code_simp+

lemma toy_checks:
  "strict_bool (Some '' True '') False = Inr True" "check_amount ''9'' = Inr ()"
  "is_address_text toy_pay_to"
  "hostname \<lparr>su_scheme = ''https'', su_netloc = ''X402.org'', su_path = ''/facilitator'', su_query = [],
     su_fragment = []\<rparr> = Some ''x402.org''"
  "py_lower ''x402.org'' \<in> set (allowed_hosts toy_environ)"
  "succeeds (facilitator_timeout toy_environ)" 
  "succeeds (finite_float ''15'' ''LUCENT_VERIFIED_SOURCE_CACHE_TTL'' 1 60)"
  by code_simp+

lemma toy_payment:
  "\<exists>cf. payment_from_env (\<lambda>s. True) toy_environ = Inr cf \<and> pc_enabled cf \<and> pc_max_timeout cf = PInt 300
     \<and> pc_facilitator cf \<noteq> None \<and> pc_pay_to cf = Some toy_pay_to \<and> pc_amount cf = ''9''
     \<and> pc_network cf = BASE_MAINNET \<and> pc_asset cf = BASE_MAINNET_USDC
     \<and> pc_resource cf = Some ''https://lucent.example:443/v1/preflight''"
proof -
  obtain t where t: "facilitator_timeout toy_environ = Inr t" using toy_checks(6) by (auto simp: succeeds_def)
  show ?thesis
    by (simp add: payment_from_env_def toy_lookups env_or_def toy_urls toy_checks t default_pay_config_def del: py_lower_Cons py_lower_Nil)
qed

lemma toy_settings:
  "\<exists>st. settings_from_env (\<lambda>s. True) (\<lambda>s. None) toy_environ = Inr st \<and> hs_mode st = X402 \<and> hs_source_required st
     \<and> payment_from_env (\<lambda>s. True) toy_environ = Inr (hs_payment st)"
proof -
  obtain t where t: "finite_float ''15'' ''LUCENT_VERIFIED_SOURCE_CACHE_TTL'' 1 60 = Inr t"
    using toy_checks(7) by (auto simp: succeeds_def)
  obtain cf where cf: "payment_from_env (\<lambda>s. True) toy_environ = Inr cf" "pc_enabled cf" using toy_payment by blast
  show ?thesis
    by (simp add: settings_from_env_def toy_lookups env_or_def t cf read_mode_def read_source_required_def
        parse_tenants_def MIN_SOURCE_CACHE_TTL_SECONDS_def MAX_SOURCE_CACHE_TTL_SECONDS_def check_modes_def
        uses_api_keys_def uses_x402_def)
qed

lemma stores_made: "succeeds payment_store" "succeeds claim_store"
  by code_simp+

lemma toy_runtime: "\<exists>rt g f ps cs. runtime_from_env (\<lambda>s. True) (\<lambda>s. None) toy_client None toy_environ = Inr rt
   \<and> hs_mode (rt_settings rt) = X402 \<and> pc_enabled (hs_payment (rt_settings rt))
   \<and> rt_payments rt = Some g \<and> require_enabled g = Inr (toy_requirements, f) \<and> gw_timeout g = 300
   \<and> pc_resource (gw_config g) = Some ''https://lucent.example:443/v1/preflight''
   \<and> payment_store = Inr ps \<and> rt_payment_store rt = Some ps \<and> claim_store = Inr cs \<and> rt_claims rt = Some cs
   \<and> rt_sources rt \<noteq> None"
proof -
  obtain st where st: "settings_from_env (\<lambda>s. True) (\<lambda>s. None) toy_environ = Inr st" "hs_mode st = X402"
    "hs_source_required st" "payment_from_env (\<lambda>s. True) toy_environ = Inr (hs_payment st)"
    using toy_settings by blast
  obtain url where p: "pc_enabled (hs_payment st)" "pc_max_timeout (hs_payment st) = PInt 300"
    "pc_facilitator (hs_payment st) = Some url" "pc_pay_to (hs_payment st) = Some toy_pay_to"
    "pc_amount (hs_payment st) = ''9''" "pc_network (hs_payment st) = BASE_MAINNET"
    "pc_asset (hs_payment st) = BASE_MAINNET_USDC"
    "pc_resource (hs_payment st) = Some ''https://lucent.example:443/v1/preflight''"
    using toy_payment st(4) by auto
  obtain g f where g: "make_gateway toy_client (hs_payment st) None = Inr g"
      "require_enabled g = Inr (toy_requirements, f)" "gw_timeout g = 300" "gw_config g = hs_payment st"
    using p by (simp add: make_gateway_def timeout_of_def MAX_PAYMENT_TIMEOUT_SECONDS_def build_requirements_def
        require_enabled_def toy_requirements_def)
  have ttl: "1 \<le> hs_cache_ttl st" "hs_cache_ttl st \<le> 60" using settings_from_env_Inr [OF st(1)] by simp_all
  obtain ps cs where stores: "payment_store = Inr ps" "claim_store = Inr cs"
    using stores_made by (auto simp: succeeds_def)
  show ?thesis
    using st g ttl p(1,8)
    by (simp add: stores runtime_from_env_def py_failure_def runtime_of_def optional_def uses_api_keys_def uses_x402_def
        make_cache_def bounded_number_def positive_limit_def MAX_SOURCE_CACHE_ENTRIES_def
        MAX_SOURCE_CACHE_BYTES_def SOURCE_NEGATIVE_CACHE_TTL_SECONDS_def)
qed

text \<open>
  C19: A deployment that starts is configured safely. API keys are configured exactly in the
  modes that use them and payments exactly in the modes that sell access, which always
  require verified sources, as no open or disabled deployment does. Payments are on Base
  mainnet in its USDC, at a price of at most 100 USDC, to a 20-byte address, for the
  \<open>/v1/preflight\<close> resource of an HTTPS host, settled by an HTTPS facilitator on the allow
  list within a timeout of 15 seconds. The runtime holds a controller, a gateway, the two
  payment stores and a source cache exactly where the mode needs them, and the payment
  stores never evict a completed entry and keep it for 900 seconds.
\<close>

theorem configuration_safe:
  assumes "runtime_from_env b loads client given env = Inr rt"
  shows "let st = rt_settings rt; mode = hs_mode st in
    (uses_api_keys mode \<longleftrightarrow> hs_tenants st \<noteq> []) \<and> int (length (hs_tenants st)) \<le> 256
    \<and> (uses_x402 mode \<longleftrightarrow> pc_enabled (hs_payment st))
    \<and> (uses_x402 mode \<longrightarrow> hs_source_required st) \<and> (hs_source_required st \<longrightarrow> mode \<noteq> Disabled \<and> mode \<noteq> Open)
    \<and> (pc_enabled (hs_payment st) \<longrightarrow> terms_safe env (hs_payment st))
    \<and> (rt_access rt \<noteq> None \<longleftrightarrow> uses_api_keys mode)
    \<and> (rt_payments rt \<noteq> None \<longleftrightarrow> uses_x402 mode) \<and> (rt_payment_store rt \<noteq> None \<longleftrightarrow> uses_x402 mode)
    \<and> (rt_claims rt \<noteq> None \<longleftrightarrow> uses_x402 mode) \<and> (rt_sources rt \<noteq> None \<longleftrightarrow> hs_source_required st)
    \<and> (\<forall>s. rt_payment_store rt = Some s \<or> rt_claims rt = Some s \<longrightarrow> is_ttl s = 900 \<and> \<not> is_evict_completed s)"
proof -
  obtain st where st: "settings_from_env b loads env = Inr st" and rt: "runtime_of client given st = Inr rt"
    using assms by (auto simp: runtime_from_env_def res_bind_Inr_iff)
  show ?thesis
    using settings_from_env_Inr [OF st] runtime_of_Inr [OF rt] by (auto simp: Let_def paid_store_ok_def)
qed

theorem configuration_safe_witness:
  "\<exists>rt. runtime_from_env (\<lambda>s. True) (\<lambda>s. None) toy_client None toy_environ = Inr rt
     \<and> terms_safe toy_environ (hs_payment (rt_settings rt))"
proof -
  obtain rt where rt: "runtime_from_env (\<lambda>s. True) (\<lambda>s. None) toy_client None toy_environ = Inr rt"
    "pc_enabled (hs_payment (rt_settings rt))" using toy_runtime by blast
  from configuration_safe [OF rt(1)] rt show ?thesis by (auto simp: Let_def)
qed

end
