(* ===== verification/Api_Problem.thy ===== *)
theory Api_Problem
  imports Access_Controller Payments Preflight_Entry Source_Values
begin

text \<open>
  The edge of \<open>lucent/api.py\<close>: the body limit, request identifiers, the response headers
  every answer gets, problem documents and the mapping of every exception to one, and the
  operational endpoints. Reading a body from the socket, \<open>uuid4\<close> and the environment are
  arguments.
\<close>

section \<open>Responses\<close>

datatype reply_body = Json pyval | Raw bytes

record api_response =
  ap_status :: int
  ap_media :: "pystr option"
  ap_body :: reply_body
  ap_headers :: "(pystr \<times> pystr) list"

definition problem ::
  "pystr \<Rightarrow> int \<Rightarrow> pystr \<Rightarrow> pystr \<Rightarrow> pystr \<Rightarrow> pyval list \<Rightarrow> (pystr \<times> pystr) list \<Rightarrow> api_response" where
  "problem rid st cd title detail errs headers =
     \<lparr>ap_status = st, ap_media = Some ''application/problem+json'',
      ap_body = Json (PDict
        ([(''type'', PStr ''about:blank''), (''title'', PStr title), (''status'', PInt st),
          (''code'', PStr cd), (''detail'', PStr detail), (''request_id'', PStr rid)]
         @ (if errs = [] then [] else [(''errors'', PList errs)]))),
      ap_headers = headers\<rparr>"

section \<open>Request identifiers and common headers\<close>

definition is_request_id_char :: "char \<Rightarrow> bool" where
  "is_request_id_char c \<longleftrightarrow> is_letter c \<or> is_digit c \<or> c \<in> set ''._:-''"

definition matches_REQUEST_ID_RE :: "pystr \<Rightarrow> bool" where
  "matches_REQUEST_ID_RE s \<longleftrightarrow> s \<noteq> [] \<and> length s \<le> 96 \<and> list_all is_request_id_char s"

text \<open>The caller's identifier if it is well formed, else one from \<open>uuid4().hex\<close>.\<close>

definition request_id :: "pystr option \<Rightarrow> pystr \<Rightarrow> pystr" where
  "request_id supplied uuid =
     (let s = (case supplied of None \<Rightarrow> [] | Some t \<Rightarrow> t) in
      if matches_REQUEST_ID_RE s then s else ''req_'' @ uuid)"

text \<open>Assigning a header replaces it whatever the case of its name.\<close>

definition set_header :: "pystr \<Rightarrow> pystr \<Rightarrow> (pystr \<times> pystr) list \<Rightarrow> (pystr \<times> pystr) list" where
  "set_header name val hs = filter (\<lambda>h. py_lower (fst h) \<noteq> py_lower name) hs @ [(name, val)]"

definition security_headers :: "pystr \<Rightarrow> (pystr \<times> pystr) list" where
  "security_headers rid =
     [(''X-Request-ID'', rid), (''Cache-Control'', ''no-store''), (''X-Content-Type-Options'', ''nosniff''),
      (''X-Frame-Options'', ''DENY''), (''Referrer-Policy'', ''no-referrer'')]"

text \<open>\<open>request_context\<close> after the application has answered; \<open>elapsed\<close> is the text of the milliseconds.\<close>

definition request_context :: "pystr \<Rightarrow> pystr \<Rightarrow> api_response \<Rightarrow> api_response" where
  "request_context rid elapsed r =
     r\<lparr>ap_headers := foldl (\<lambda>hs (n, v). set_header n v hs) (ap_headers r)
        (security_headers rid @ [(''Server-Timing'', ''app;dur='' @ elapsed)])\<rparr>"

section \<open>The body limit\<close>

datatype asgi_message = HttpRequest bytes bool | HttpDisconnect | OtherMessage

text \<open>Header names are compared in lower case, and the last of several wins.\<close>

definition scope_header :: "pystr \<Rightarrow> (pystr \<times> pystr) list \<Rightarrow> pystr option" where
  "scope_header name hs = map_of (rev (map (\<lambda>(n, v). (py_lower n, v)) hs)) name"

datatype gate_result = TooLarge | Pass "asgi_message list" | Waiting

text \<open>
  The receive loop over the messages that have arrived; \<open>Waiting\<close> is a loop still blocked
  in \<open>receive\<close>.
\<close>

fun receive_loop :: "int \<Rightarrow> int \<Rightarrow> asgi_message list \<Rightarrow> asgi_message list \<Rightarrow> gate_result" where
  "receive_loop limit received kept [] = Waiting"
| "receive_loop limit received kept (m # ms) =
     (case m of
        HttpRequest body more_body \<Rightarrow>
          if limit < received + int (length body) then TooLarge
          else if \<not> more_body then Pass (kept @ [m])
          else receive_loop limit (received + int (length body)) (kept @ [m]) ms
      | HttpDisconnect \<Rightarrow> Pass (kept @ [m])
      | OtherMessage \<Rightarrow> receive_loop limit received (kept @ [m]) ms)"

definition body_gate :: "int \<Rightarrow> (pystr \<times> pystr) list \<Rightarrow> asgi_message list \<Rightarrow> gate_result" where
  "body_gate limit headers arrived =
     (case scope_header ''content-length'' headers of
        Some t \<Rightarrow>
          if t = [] then receive_loop limit 0 [] arrived
          else
            (case py_int_text t of
               Some n \<Rightarrow> if limit < n then TooLarge else receive_loop limit 0 [] arrived
             | None \<Rightarrow> receive_loop limit 0 [] arrived)
      | None \<Rightarrow> receive_loop limit 0 [] arrived)"

text \<open>What the application's \<open>receive\<close> returns at its \<open>i\<close>-th call.\<close>

definition replay_receive :: "asgi_message list \<Rightarrow> nat \<Rightarrow> asgi_message" where
  "replay_receive kept i = (if i < length kept then kept ! i else HttpRequest [] False)"

definition reject_body :: "int \<Rightarrow> pystr option \<Rightarrow> (pystr \<times> pystr) list \<Rightarrow> pystr \<Rightarrow> api_response" where
  "reject_body limit state_id headers uuid =
     (let supplied = (case scope_header ''x-request-id'' headers of None \<Rightarrow> [] | Some t \<Rightarrow> filter (\<lambda>c. code c < 128) t);
          rid = (case state_id of Some r \<Rightarrow> r | None \<Rightarrow> request_id (Some supplied) uuid)
      in (problem rid 413 ''REQUEST_TOO_LARGE'' ''Payload Too Large''
            (''request body may not exceed '' @ int_str limit @ '' bytes'') [] (security_headers rid)))"

section \<open>Exceptions\<close>

datatype api_failure =
    AccessFailure access_error
  | PaymentFailure pay_error
  | SourceFailure vs_failure
  | InputFailure pystr pystr
  | Unexpected

fun of_access :: "access_failure \<Rightarrow> api_failure" where
  "of_access (Access e) = AccessFailure e"
| "of_access (Py _) = Unexpected"

fun of_preflight :: "pf_failure \<Rightarrow> api_failure" where
  "of_preflight (InputError cd msg) = InputFailure cd msg"
| "of_preflight (Uncaught _) = Unexpected"

definition map_failure :: "('e \<Rightarrow> 'f) \<Rightarrow> 'e + 'a \<Rightarrow> 'f + 'a" where
  "map_failure f m = (case m of Inl e \<Rightarrow> Inl (f e) | Inr x \<Rightarrow> Inr x)"

definition SOURCE_INPUT_CODES :: "pystr list" where
  "SOURCE_INPUT_CODES =
     [''INVALID_CHAIN_ID'', ''UNSUPPORTED_CHAIN'', ''INVALID_ADDRESS'', ''NO_CONTRACT_CODE'',
      ''INVALID_PROXY_SLOT'', ''INVALID_PROXY_BEACON'', ''AMBIGUOUS_PROXY'', ''PROXY_CYCLE'',
      ''PROXY_DEPTH_EXCEEDED'', ''PROXY_SEMANTICS_UNVERIFIED'', ''UNSUPPORTED_DISPATCH'',
      ''SOURCE_NOT_VERIFIED'', ''SOURCE_NOT_RUNTIME_VERIFIED'']"

definition payment_failure_headers ::
  "x402_lib \<Rightarrow> gateway option \<Rightarrow> pay_error \<Rightarrow> api_failure + (pystr \<times> pystr) list" where
  "payment_failure_headers x payments e =
     res_bind
       (case payments of
          Some g \<Rightarrow>
            if py_status e = 402
            then res_bind (map_failure PaymentFailure (challenge x (Some (py_code e)) g))
                   (\<lambda>h. Inr [(''PAYMENT-REQUIRED'', h)])
            else Inr []
        | None \<Rightarrow> Inr [])
       (\<lambda>hs. Inr (hs @ (if py_retryable e \<and> \<not> py_terminal e then [(''Retry-After'', ''2'')] else [])))"

definition payment_title :: "pay_error \<Rightarrow> pystr" where
  "payment_title e = (if py_status e = 402 then ''Payment Required'' else ''Payment Dependency Failed'')"

definition internal_problem :: "pystr \<Rightarrow> api_response" where
  "internal_problem rid =
     problem rid 500 ''INTERNAL_ERROR'' ''Internal Server Error'' ''analysis failed without producing a verdict'' [] []"

text \<open>The exception handlers; one that raises is answered by the last.\<close>

definition failure_response :: "x402_lib \<Rightarrow> gateway option \<Rightarrow> pystr \<Rightarrow> api_failure \<Rightarrow> api_response" where
  "failure_response x payments rid f =
     (case f of
        AccessFailure e \<Rightarrow>
          \<lparr>ap_status = ae_status e, ap_media = Some ''application/problem+json'',
           ap_body = Json (PDict (as_problem e (Some rid))), ap_headers = response_headers e\<rparr>
      | PaymentFailure e \<Rightarrow>
          (case payment_failure_headers x payments e of
             Inl _ \<Rightarrow> internal_problem rid
           | Inr hs \<Rightarrow> problem rid (py_status e) (py_code e) (payment_title e) (py_message e) [] hs)
      | SourceFailure e \<Rightarrow>
          (if vs_code e \<in> set SOURCE_INPUT_CODES
           then problem rid 422 (vs_code e) ''Verified Source Rejected'' (vs_message e) [] []
           else problem rid 503 (vs_code e) ''Verified Source Unavailable'' (vs_message e) []
                  [(''Retry-After'', ''2'')])
      | InputFailure cd msg \<Rightarrow> problem rid 422 cd ''Preflight Input Rejected'' msg [] []
      | Unexpected \<Rightarrow> internal_problem rid)"

text \<open>A validation error of the framework: location, message and type, where present.\<close>

record validation_item =
  vi_loc :: "pyval list"
  vi_msg :: "pystr option"
  vi_type :: "pystr option"

definition loc_text :: "pyval \<Rightarrow> pystr" where
  "loc_text v = (case v of PStr s \<Rightarrow> s | PInt i \<Rightarrow> int_str i | _ \<Rightarrow> [])"

definition opt_or :: "'a \<Rightarrow> 'a option \<Rightarrow> 'a" where
  "opt_or d x = (case x of None \<Rightarrow> d | Some v \<Rightarrow> v)"

definition request_validation_error :: "pystr \<Rightarrow> validation_item list \<Rightarrow> api_response" where
  "request_validation_error rid items =
     (let errs = map (\<lambda>i. PDict
            [(''location'', PList (map (\<lambda>p. PStr (loc_text p)) (vi_loc i))),
             (''message'', PStr (opt_or ''invalid value'' (vi_msg i))),
             (''type'', PStr (opt_or ''validation_error'' (vi_type i)))]) items;
          malformed = list_ex (\<lambda>i. vi_type i = Some ''json_invalid'') items
      in if malformed
         then problem rid 400 ''MALFORMED_JSON'' ''Malformed JSON'' ''request body is not valid JSON'' errs []
         else problem rid 422 ''REQUEST_VALIDATION_FAILED'' ''Request Validation Failed''
                ''request fields are invalid'' errs [])"

definition http_error :: "pystr \<Rightarrow> int \<Rightarrow> pystr \<Rightarrow> api_response" where
  "http_error rid st detail =
     (if st = 400
      then problem rid st ''MALFORMED_JSON'' ''Malformed JSON'' ''request body is not valid JSON'' [] []
      else problem rid st ''HTTP_ERROR'' ''HTTP Error'' detail [] [])"

end
