(* ===== verification/Api_Binding.thy ===== *)
theory Api_Binding
  imports Api_Problem Hosted_Settings
begin

text \<open>
  What \<open>lucent/api.py\<close> makes of an assessment: the request's fingerprint, the result
  dictionary of \<open>preflight_transaction\<close>, its binding to a verified source, the assessment
  fingerprint and the response body; and the operational endpoints. The response model of
  the framework (validation and JSON) and the prose of the analyses are parameters.
\<close>

section \<open>The environment\<close>

text \<open>The texts that the analyses' reports stand for here by constructors.\<close>

record prose =
  px_verdict :: "verdict \<Rightarrow> pystr"
  px_sentence :: "comprehension \<Rightarrow> pystr"
  px_reason :: "comprehension \<Rightarrow> pystr"
  px_tier :: "severity \<Rightarrow> pystr"
  px_comprehension :: "comprehension \<Rightarrow> pyval"
  px_audit :: "audit_finding \<Rightarrow> pyval"
  px_binding :: "binding_finding \<Rightarrow> pyval"
  px_danger :: "danger_finding \<Rightarrow> pyval"

record api_env =
  ax_preflight :: pf_env
  ax_x402 :: x402_lib
  ax_prose :: prose
  ax_source_loads :: "bytes \<Rightarrow> pyval"
  ax_render :: "pyval \<Rightarrow> bytes option"
  ax_loads :: "bytes \<Rightarrow> pyval option"

definition ax_sha256 :: "api_env \<Rightarrow> bytes \<Rightarrow> bytes" where
  "ax_sha256 env = env_sha256 (ax_preflight env)"

definition ax_float_text :: "api_env \<Rightarrow> rat \<Rightarrow> pystr" where
  "ax_float_text env = env_float_text (ax_preflight env)"

definition ax_canonical :: "api_env \<Rightarrow> pyval \<Rightarrow> bytes option" where
  "ax_canonical env = canonical_bytes (ax_float_text env)"

section \<open>Fingerprints\<close>

definition canonical_request_fingerprint :: "api_env \<Rightarrow> pyval \<Rightarrow> api_failure + pystr" where
  "canonical_request_fingerprint env dump =
     (case ax_canonical env dump of
        None \<Rightarrow> Inl (InputFailure ''INVALID_REQUEST'' ''request body could not be canonically fingerprinted'')
      | Some b \<Rightarrow> map_failure (\<lambda>_. Unexpected) (fingerprint_request (ax_sha256 env) (PBytes b)))"

definition assessment_fingerprint :: "api_env \<Rightarrow> pyval \<Rightarrow> api_failure + pystr" where
  "assessment_fingerprint env result =
     (case ax_canonical env result of
        None \<Rightarrow> Inl Unexpected
      | Some b \<Rightarrow> Inr (''sha256:'' @ bytes_hex (ax_sha256 env b)))"

section \<open>The result dictionary\<close>

definition API_VERSION :: pystr where "API_VERSION = ''v1''"
definition POLICY_VERSION :: pystr where "POLICY_VERSION = ''2026-08-09''"
definition ANALYSIS_SCOPE :: pystr where "ANALYSIS_SCOPE = ''static_selected_call''"

definition LIMITATIONS :: "pystr list" where
  "LIMITATIONS =
     [''Static analysis of one caller-supplied ERC-7730 descriptor and ABI.'',
      ''Does not inspect bytecode, resolve proxies, or simulate runtime state changes.'',
      ''Does not detect economic exploits, MEV, malicious counterparties, or compromised frontends.'',
      ''safe_to_present describes presentation quality; it is not approval to execute or sign.'',
      ''V1 clears only scalar, locally-renderable formats; containers and reference-based formats block.'']"

fun gate_text :: "gate \<Rightarrow> pystr" where
  "gate_text SafeToPresent = ''safe_to_present''"
| "gate_text Review = ''review''"
| "gate_text Block = ''block''"

definition argument_dict :: "decoded_arg \<Rightarrow> pyval" where
  "argument_dict a = PDict [(''name'', PStr (da_name a)), (''type'', PStr (da_type a)), (''value'', da_value a)]"

definition baseline_assurance :: "(pystr \<times> pyval) list" where
  "baseline_assurance =
     [(''descriptor_source'', PStr ''caller_supplied''), (''abi_source'', PStr ''caller_supplied_inline''),
      (''descriptor_semantics_verified'', PBool False), (''deployment_match'', PBool True),
      (''sender_bound'', PBool True), (''selector_and_calldata_decoded'', PBool True),
      (''bytecode_verified'', PBool False), (''runtime_simulated'', PBool False)]"

definition report_dict :: "prose \<Rightarrow> preflight_report \<Rightarrow> (pystr \<times> pyval) list" where
  "report_dict px r =
     [(''api_version'', PStr API_VERSION), (''policy_version'', PStr POLICY_VERSION),
      (''analysis_scope'', PStr ANALYSIS_SCOPE), (''call_fingerprint'', PStr (pr_fingerprint r)),
      (''call'', PDict
        [(''chain_id'', PInt (pr_chain r)), (''from'', PStr (pr_from r)), (''to'', PStr (pr_to r)),
         (''selector'', PStr (pr_selector r)), (''function'', PStr (pr_function r)),
         (''value'', PStr (pr_value r)), (''decoded_arguments'', PList (map argument_dict (pr_decoded r)))]),
      (''verdict'', PDict
        [(''gate'', PStr (gate_text (vd_gate (pr_verdict r)))), (''code'', PStr (vd_code (pr_verdict r))),
         (''reason'', PStr (px_verdict px (pr_verdict r)))]),
      (''presentation'', PDict
        [(''sentence_template'', PStr (px_sentence px (pr_comprehension r))),
         (''tier'', PStr (px_tier px (cp_tier (pr_comprehension r)))),
         (''reason'', PStr (px_reason px (pr_comprehension r))),
         (''source'', PStr ''lucent_policy_generated''),
         (''descriptor_prose_included'', PBool False), (''descriptor_text_is_untrusted'', PBool True)]),
      (''checks'', PDict
        [(''audit'', PDict
           [(''grade'', PStr (ar_grade (pr_audit r))), (''score'', PInt (ar_score (pr_audit r))),
            (''findings'', PList (map (px_audit px) (ar_findings (pr_audit r))))]),
         (''comprehension'', px_comprehension px (pr_comprehension r)),
         (''presentation_binding'', PDict
           [(''complete'', PBool (pb_complete (pr_binding r))),
            (''findings'', PList (map (px_binding px) (pb_findings (pr_binding r))))]),
         (''danger'', PDict
           [(''worst_severity'', (case pr_worst r of None \<Rightarrow> PNone | Some s \<Rightarrow> PStr (px_tier px s))),
            (''findings'', PList (map (px_danger px) (pr_danger r)))])]),
      (''assurance'', PDict baseline_assurance),
      (''limitations'', PList (map PStr LIMITATIONS))]"

section \<open>The verified source\<close>

definition verified_source_summary :: "verified_source \<Rightarrow> pyval" where
  "verified_source_summary so = PDict
     [(''provider'', PStr ''sourcify_v2''), (''chain_id'', PInt (so_chain so)),
      (''address'', PStr (so_address so)), (''block'', block_dict (so_block so)),
      (''target'', code_dict (so_target so)), (''effective_contract'', code_dict (so_effective so)),
      (''proxy_chain'', PList (map hop_dict (so_proxies so))),
      (''verification_match'', PStr (so_match so)), (''abi_hash'', PStr (so_abi_hash so))]"

text \<open>Assignment under a path of keys; \<open>None\<close> where an inner key is missing or no dictionary.\<close>

fun set_at :: "pystr list \<Rightarrow> pyval \<Rightarrow> pyval \<Rightarrow> pyval option" where
  "set_at [] x v = Some x"
| "set_at (k # ks) x (PDict d) =
     map_option (\<lambda>u. PDict (AList.update k u d))
       (case map_of d k of None \<Rightarrow> if ks = [] then Some x else None | Some u \<Rightarrow> set_at ks x u)"
| "set_at (k # ks) x v = None"

definition same_deployment :: "(pystr \<times> pyval) list \<Rightarrow> verified_source \<Rightarrow> bool" where
  "same_deployment tx so \<longleftrightarrow>
     dget tx ''chain_id'' = PInt (so_chain so)
     \<and> (\<exists>t. dget tx ''to'' = PStr t \<and> py_lower (so_address so) = py_lower t)
     \<and> (so_proxies so = [] \<longrightarrow> so_effective so = so_target so)"

lemma same_deployment_code [code]:
  "same_deployment tx so \<longleftrightarrow>
     dget tx ''chain_id'' = PInt (so_chain so)
     \<and> (case dget tx ''to'' of PStr t \<Rightarrow> py_lower (so_address so) = py_lower t | _ \<Rightarrow> False)
     \<and> (so_proxies so = [] \<longrightarrow> so_effective so = so_target so)"
  by (auto simp: same_deployment_def split: pyval.splits)

definition bound_limitations :: "pystr list" where
  "bound_limitations =
     [''The descriptor'' @ CHR 0x27 # ''s display rules remain caller-supplied and are not a provenance claim.'',
      ''ABI and runtime bytecode were bound through Sourcify at one finalized block.'',
      ''Hosted V1 clears only direct deployments; proxy-backed contracts are rejected.'']
     @ filter (\<lambda>i. \<not> py_startswith i ''Static analysis of one caller-supplied''
                 \<and> \<not> py_startswith i ''Does not inspect bytecode'') LIMITATIONS"

definition bound_dict :: "prose \<Rightarrow> verified_source \<Rightarrow> preflight_report \<Rightarrow> (pystr \<times> pyval) list" where
  "bound_dict px so r =
     AList.update ''limitations'' (PList (map PStr bound_limitations))
       (AList.update ''assurance''
         (PDict (AList.update ''verified_source'' (verified_source_summary so)
           (AList.update ''bytecode_verified'' (PBool True)
             (AList.update ''abi_source'' (PStr ''sourcify_v2_finalized_runtime'') baseline_assurance))))
         (report_dict px r))"

text \<open>\<open>_bind_verified_source\<close> after the cache has returned a source.\<close>

definition bind_source :: "api_env \<Rightarrow> pyval \<Rightarrow> verified_source \<Rightarrow> api_failure + preflight_report" where
  "bind_source env dump so =
     (case dump of
        PDict d \<Rightarrow>
          (case dget d ''transaction'' of
             PDict tx \<Rightarrow>
               if \<not> same_deployment tx so
               then Inl (SourceFailure (VsError ''SOURCE_IDENTITY_MISMATCH''
                      ''verified source evidence did not match the requested deployment''))
               else if so_proxies so \<noteq> []
               then Inl (SourceFailure (VsError ''PROXY_SEMANTICS_UNVERIFIED''
                      ''hosted V1 does not clear upgradeable or proxy-backed deployments''))
               else
                 (case set_at [''descriptor'', ''context'', ''contract'', ''abi'']
                         (source_abi (ax_source_loads env) so) dump of
                    None \<Rightarrow> Inl Unexpected
                  | Some bound \<Rightarrow> map_failure of_preflight (preflight_transaction (ax_preflight env) bound))
           | _ \<Rightarrow> Inl Unexpected)
      | _ \<Rightarrow> Inl Unexpected)"

text \<open>The dictionary a request is answered with: the baseline's, or the bound one's.\<close>

definition result_dict ::
  "api_env \<Rightarrow> pyval \<Rightarrow> preflight_report \<Rightarrow> verified_source option \<Rightarrow> api_failure + (pystr \<times> pyval) list" where
  "result_dict env dump baseline source =
     (case source of
        None \<Rightarrow> Inr (report_dict (ax_prose env) baseline)
      | Some so \<Rightarrow> res_bind (bind_source env dump so) (\<lambda>r. Inr (bound_dict (ax_prose env) so r)))"

text \<open>The fingerprint is taken before it is put into the result, the identifier after.\<close>

definition response_body :: "api_env \<Rightarrow> pystr \<Rightarrow> (pystr \<times> pyval) list \<Rightarrow> api_failure + bytes" where
  "response_body env rid d =
     res_bind (assessment_fingerprint env (PDict d))
     (\<lambda>fp. case ax_render env (PDict (AList.update ''request_id'' (PStr rid)
                   (AList.update ''assessment_fingerprint'' (PStr fp) d))) of
        None \<Rightarrow> Inl Unexpected
      | Some body \<Rightarrow> if MAX_CACHED_RESULT_BYTES < int (length body) then Inl Unexpected else Inr body)"

section \<open>Operational endpoints\<close>

definition APP_VERSION :: pystr where "APP_VERSION = ''0.2.1''"

definition lower_hex_of :: "nat list \<Rightarrow> pystr \<Rightarrow> bool" where
  "lower_hex_of ns s \<longleftrightarrow> length s \<in> set ns \<and> list_all is_lower_hex s"

datatype identity = Verified pystr pystr | Local | Invalid

text \<open>The release identity: a full commit and release, or none at all outside the hosted runtime.\<close>

definition runtime_identity :: "environ \<Rightarrow> identity" where
  "runtime_identity env =
     (let commit = env_or env ''FLEET_SOURCE_COMMIT'' []; release = env_or env ''FLEET_RELEASE_ID'' [];
          hosted = (env_or env ''RAILWAY_ENVIRONMENT_NAME'' [] \<noteq> []) in
      if lower_hex_of [40, 64] commit \<and> lower_hex_of [64] release then Verified commit release
      else if commit = [] \<and> release = [] \<and> \<not> hosted then Local
      else Invalid)"

definition identity_items :: "identity \<Rightarrow> (pystr \<times> pyval) list" where
  "identity_items i =
     (case i of
        Verified c r \<Rightarrow> [(''identity_status'', PStr ''verified''), (''source_commit'', PStr c), (''release_id'', PStr r)]
      | Local \<Rightarrow> [(''identity_status'', PStr ''local''), (''source_commit'', PNone), (''release_id'', PNone)]
      | Invalid \<Rightarrow> [(''identity_status'', PStr ''invalid''), (''source_commit'', PNone), (''release_id'', PNone)])"

definition json_response :: "int \<Rightarrow> (pystr \<times> pyval) list \<Rightarrow> api_response" where
  "json_response st d = \<lparr>ap_status = st, ap_media = Some ''application/json'', ap_body = Json (PDict d), ap_headers = []\<rparr>"

definition api_index :: "pystr \<Rightarrow> api_response" where
  "api_index rid = json_response 200
     [(''service'', PStr ''lucent''), (''version'', PStr APP_VERSION), (''docs'', PStr ''/docs''),
      (''health'', PStr ''/health''), (''primary_endpoint'', PStr ''/v1/preflight''), (''request_id'', PStr rid)]"

definition health :: "environ \<Rightarrow> pystr \<Rightarrow> api_response" where
  "health env rid =
     (let i = runtime_identity env in
      json_response (if i = Invalid then 503 else 200)
        ([(''status'', PStr (if i = Invalid then ''unavailable'' else ''ok'')), (''service'', PStr ''lucent''),
          (''version'', PStr APP_VERSION), (''policy_version'', PStr POLICY_VERSION)]
         @ identity_items i @ [(''request_id'', PStr rid)]))"

definition not_configured :: "pystr \<Rightarrow> api_response" where
  "not_configured rid = problem rid 503 ''SERVICE_NOT_CONFIGURED'' ''Service Not Configured''
     ''select an explicit protected access mode before serving traffic'' [] []"

definition ready :: "environ \<Rightarrow> runtime \<Rightarrow> pystr \<Rightarrow> api_response" where
  "ready env rt rid =
     (let i = runtime_identity env in
      if i = Invalid
      then json_response 503 ([(''status'', PStr ''unavailable''), (''service'', PStr ''lucent'')]
             @ identity_items i @ [(''request_id'', PStr rid)])
      else if hs_mode (rt_settings rt) = Disabled then not_configured rid
      else json_response 200 ([(''status'', PStr ''ready''), (''service'', PStr ''lucent'')]
             @ identity_items i @ readiness rt @ [(''request_id'', PStr rid)]))"

end
