(* ===== verification/Api_Flow.thy ===== *)
theory Api_Flow
  imports Api_Binding
begin

text \<open>
  The request handler \<open>transaction_preflight\<close> of \<open>lucent/api.py\<close>. Between two awaits the
  event loop runs nothing else, so the handler is four segments, each a function on the
  runtime: admission and analysis up to the facilitator's verification or the source's
  resolution; the claim of the authorization; the bound result, up to the settlement; and
  the receipt. A cancelled handler stops at its await, with no further step. The service is
  a step relation over the requests in flight, with a record of every settlement it asks for.

  The \<open>i\<close>-th monotonic reading of a segment is \<open>clk i\<close>.
\<close>

section \<open>Requests\<close>

record api_request =
  aq_dump :: pyval
  aq_idempotency_key :: "pystr option"
  aq_api_key :: "pystr option"
  aq_signature :: "pystr option"
  aq_request_id :: pystr

definition header_value :: "pystr option \<Rightarrow> pyval" where
  "header_value h = (case h of None \<Rightarrow> PNone | Some t \<Rightarrow> PStr t)"

type_synonym clock = "nat \<Rightarrow> rat"

definition reading :: "clock \<Rightarrow> nat \<Rightarrow> pyval" where
  "reading clk i = PFloat (Finite (clk i))"

section \<open>Effects on the runtime\<close>

type_synonym 'a act = "(runtime, api_failure, 'a) st"

definition lift :: "api_failure + 'a \<Rightarrow> 'a act" where
  "lift m rt = (m, rt)"

datatype which_store = AccessStore | PaymentStore

text \<open>An operation on a part that must be there: its absence is an \<open>AssertionError\<close>.\<close>

definition on_access :: "(controller, access_failure, 'a) st \<Rightarrow> 'a act" where
  "on_access f rt =
     (case rt_access rt of
        None \<Rightarrow> (Inl Unexpected, rt)
      | Some c \<Rightarrow> (case f c of (r, c') \<Rightarrow> (map_failure of_access r, rt\<lparr>rt_access := Some c'\<rparr>)))"

definition on_claims :: "'a store_op \<Rightarrow> 'a act" where
  "on_claims f rt =
     (case rt_claims rt of
        None \<Rightarrow> (Inl Unexpected, rt)
      | Some s \<Rightarrow> (case f s of (r, s') \<Rightarrow> (map_failure of_access r, rt\<lparr>rt_claims := Some s'\<rparr>)))"

definition on_payments :: "'a store_op \<Rightarrow> 'a act" where
  "on_payments f rt =
     (case rt_payment_store rt of
        None \<Rightarrow> (Inl Unexpected, rt)
      | Some s \<Rightarrow> (case f s of (r, s') \<Rightarrow> (map_failure of_access r, rt\<lparr>rt_payment_store := Some s'\<rparr>)))"

definition on_store :: "which_store \<Rightarrow> 'a store_op \<Rightarrow> 'a act" where
  "on_store w f =
     (case w of
        AccessStore \<Rightarrow> on_access (\<lambda>c. case f (ac_idempotency c) of (r, s) \<Rightarrow> (r, c\<lparr>ac_idempotency := s\<rparr>))
      | PaymentStore \<Rightarrow> on_payments f)"

section \<open>Answers\<close>

definition CACHED_PAYMENT_PROOF_HEADER :: pystr where
  "CACHED_PAYMENT_PROOF_HEADER = ''Lucent-Internal-Payment-Proof''"

definition quota_headers :: "access_grant \<Rightarrow> (pystr \<times> pystr) list" where
  "quota_headers g =
     [(''X-RateLimit-Limit'', int_str (qr_limit (ag_quota g))),
      (''X-RateLimit-Remaining'', int_str (qr_remaining (ag_quota g))),
      (''X-RateLimit-Reset'', int_str (max 0 \<lceil>qr_reset_after (ag_quota g)\<rceil>))]"

definition updates :: "(pystr \<times> 'a) list \<Rightarrow> (pystr \<times> 'a) list \<Rightarrow> (pystr \<times> 'a) list" where
  "updates d new = foldl (\<lambda>d (k, v). AList.update k v d) d new"

definition replay_headers ::
  "idem_response \<Rightarrow> (pystr \<times> pystr) list \<Rightarrow> (pystr \<times> pystr) list" where
  "replay_headers cached overrides =
     (let hs = updates (AList.update ''Idempotency-Replayed'' ''true''
                 (AList.delete CACHED_PAYMENT_PROOF_HEADER (updates [] (ir_headers cached)))) overrides
      in if map_of hs ''Content-Type'' = None then hs @ [(''Content-Type'', ''application/json'')] else hs)"

text \<open>A cached body holds no \<open>NaN\<close>, so \<open>dumps\<close> fails on none.\<close>

definition replay_response ::
  "api_env \<Rightarrow> pystr \<Rightarrow> idem_response \<Rightarrow> pystr option \<Rightarrow> (pystr \<times> pystr) list \<Rightarrow> api_failure + api_response" where
  "replay_response env rid cached sig overrides =
     (case ax_loads env (ir_body cached) of
        Some (PDict d) \<Rightarrow>
          (case json_text (ax_float_text env) False False (PDict (AList.update ''request_id'' (PStr rid) d)) of
             None \<Rightarrow> Inl Unexpected
           | Some t \<Rightarrow>
               res_bind
                 (case map_of (updates [] (ir_headers cached)) CACHED_PAYMENT_PROOF_HEADER of
                    None \<Rightarrow> Inr ()
                  | Some proof_fp \<Rightarrow>
                      (case sig of
                         None \<Rightarrow> Inl (PaymentFailure (rejected ''PAYMENT_REPLAY_PROOF_MISMATCH''
                                   ''paid replay requires the original payment proof''))
                       | Some s \<Rightarrow> map_failure PaymentFailure (assert_replay_proof (ax_x402 env) s proof_fp)))
                 (\<lambda>_. Inr \<lparr>ap_status = ir_status cached, ap_media = None, ap_body = Raw (utf8 t),
                    ap_headers = replay_headers cached overrides\<rparr>))
      | _ \<Rightarrow> Inl Unexpected)"

definition payment_required :: "api_env \<Rightarrow> pystr \<Rightarrow> gateway option \<Rightarrow> api_failure + api_response" where
  "payment_required env rid payments =
     (case payments of
        None \<Rightarrow> Inl (AccessFailure AuthenticationError)
      | Some g \<Rightarrow>
          res_bind (map_failure PaymentFailure (challenge (ax_x402 env) None g))
          (\<lambda>h. Inr (problem rid 402 ''PAYMENT_REQUIRED'' ''Payment Required''
             (''submit an x402 v2 PAYMENT-SIGNATURE and a unique Idempotency-Key ''
              @ ''for this preflight request'') [] [(''PAYMENT-REQUIRED'', h)])))"

section \<open>Admission\<close>

record admission =
  ad_label :: pystr
  ad_headers :: "(pystr \<times> pystr) list"
  ad_reservation :: "(which_store \<times> idem_reservation) option"
  ad_paid :: bool

datatype admitted = Answered api_response | Admitted admission

definition access_header :: "pystr \<Rightarrow> (pystr \<times> pystr) list" where
  "access_header label = [(''X-Lucent-Access'', label)]"

definition open_admission :: admission where
  "open_admission = \<lparr>ad_label = ''open'', ad_headers = access_header ''open'', ad_reservation = None, ad_paid = False\<rparr>"

text \<open>An API key: authentication, the quota, then the idempotency key.\<close>

definition admit_tenant ::
  "api_env \<Rightarrow> clock \<Rightarrow> pystr \<Rightarrow> api_request \<Rightarrow> pystr \<Rightarrow> admitted act" where
  "admit_tenant env clk token rq fp =
     st_bind (on_access (authorize (ax_sha256 env) (reading clk 0) (header_value (aq_api_key rq)) (PInt 1)))
     (\<lambda>grant. let headers = access_header ''api_key'' @ quota_headers grant in
       st_bind (on_access (reserve_idempotency (ax_sha256 env) (reading clk 1) token (ag_tenant grant)
                 (header_value (aq_idempotency_key rq)) (PStr fp)))
     (\<lambda>decision. case decision of
        Replay cached \<Rightarrow>
          lift (res_bind (replay_response env (aq_request_id rq) cached None headers) (\<lambda>r. Inr (Answered r)))
      | Reserved rv \<Rightarrow>
          lift (Inr (Admitted \<lparr>ad_label = ''api_key'', ad_headers = headers,
            ad_reservation = Some (AccessStore, rv), ad_paid = False\<rparr>))))"

text \<open>A payment: a challenge without a proof, else the idempotency key of the payment store.\<close>

definition admit_payer ::
  "api_env \<Rightarrow> clock \<Rightarrow> pystr \<Rightarrow> api_request \<Rightarrow> pystr \<Rightarrow> admitted act" where
  "admit_payer env clk token rq fp =
     (case aq_signature rq of
        None \<Rightarrow> (\<lambda>rt. (res_bind (payment_required env (aq_request_id rq) (rt_payments rt)) (\<lambda>r. Inr (Answered r)), rt))
      | Some sig \<Rightarrow>
          st_bind (on_payments (reserve (ax_sha256 env) (reading clk 1) token (PStr ''x402'')
                    (header_value (aq_idempotency_key rq)) (PStr fp)))
          (\<lambda>decision. case decision of
             Replay cached \<Rightarrow>
               lift (res_bind (replay_response env (aq_request_id rq) cached (Some sig) []) (\<lambda>r. Inr (Answered r)))
           | Reserved rv \<Rightarrow>
               lift (Inr (Admitted \<lparr>ad_label = ''x402'', ad_headers = access_header ''x402'',
                 ad_reservation = Some (PaymentStore, rv), ad_paid = True\<rparr>))))"

definition admit ::
  "api_env \<Rightarrow> clock \<Rightarrow> pystr \<Rightarrow> api_request \<Rightarrow> pystr \<Rightarrow> admitted act" where
  "admit env clk token rq fp rt =
     (let mode = hs_mode (rt_settings rt) in
      if mode = Open then (Inr (Admitted open_admission), rt)
      else if aq_api_key rq \<noteq> None \<and> uses_api_keys mode then admit_tenant env clk token rq fp rt
      else if mode = ApiKey
      then st_bind (on_access (\<lambda>c. (map_failure Access (authenticate (ax_sha256 env) (ac_authenticator c) PNone), c)))
             (\<lambda>_. lift (Inr (Admitted open_admission))) rt
      else admit_payer env clk token rq fp rt)"

section \<open>Requests in flight\<close>

text \<open>What the handler awaits: the facilitator's verification, the source, or the settlement.\<close>

datatype stage =
    Verifying verified_payment
  | Binding "(verified_payment \<times> idem_reservation) option"
  | Settling verified_payment bytes

record job =
  jb_request :: api_request
  jb_admission :: admission
  jb_fingerprint :: pystr
  jb_baseline :: preflight_report
  jb_stage :: stage
  jb_start :: rat
  jb_wall :: "pyfloat option"

datatype progress = Finished api_response | Suspended job

text \<open>
  The handler's \<open>except Exception\<close> before settlement: both reservations are aborted, the
  request's own first, and the exception goes on. An abort that raises replaces it.
\<close>

definition release :: "clock \<Rightarrow> admission \<Rightarrow> idem_reservation option \<Rightarrow> unit act" where
  "release clk ad claim =
     st_bind (case ad_reservation ad of
                None \<Rightarrow> lift (Inr ())
              | Some (w, rv) \<Rightarrow> st_bind (on_store w (abort (reading clk 6) rv)) (\<lambda>_. lift (Inr ())))
     (\<lambda>_. case claim of
            None \<Rightarrow> lift (Inr ())
          | Some rv \<Rightarrow> st_bind (on_claims (abort (reading clk 7) rv)) (\<lambda>_. lift (Inr ())))"

definition guarded :: "clock \<Rightarrow> admission \<Rightarrow> idem_reservation option \<Rightarrow> 'a act \<Rightarrow> 'a act" where
  "guarded clk ad claim m rt =
     (case m rt of
        (Inr x, rt') \<Rightarrow> (Inr x, rt')
      | (Inl f, rt') \<Rightarrow> st_bind (release clk ad claim) (\<lambda>_. lift (Inl f)) rt')"

section \<open>The end of a request\<close>

definition text_items :: "(pystr \<times> pystr) list \<Rightarrow> pyval" where
  "text_items hs = PDict (map (\<lambda>(n, v). (n, PStr v)) hs)"

definition ok_response :: "(pystr \<times> pystr) list \<Rightarrow> bytes \<Rightarrow> api_response" where
  "ok_response headers body = \<lparr>ap_status = 200, ap_media = None, ap_body = Raw body, ap_headers = headers\<rparr>"

text \<open>
  The result is stored for replay; a refused commit is logged, and before settlement the
  reservation is aborted. \<open>payment\<close> is the receipt's header and the proof's fingerprint.
\<close>

definition commit_result ::
  "clock \<Rightarrow> bool \<Rightarrow> (which_store \<times> idem_reservation) option \<Rightarrow> idem_response \<Rightarrow> unit act" where
  "commit_result clk settled reservation cached =
     (case reservation of
        None \<Rightarrow> lift (Inr ())
      | Some (w, rv) \<Rightarrow> (\<lambda>rt.
          case on_store w (commit (reading clk 4) rv cached) rt of
            (Inl (AccessFailure e), rt') \<Rightarrow>
              if settled then (Inr (), rt')
              else st_bind (on_store w (abort (reading clk 5) rv)) (\<lambda>_. lift (Inr ())) rt'
          | r \<Rightarrow> r))"

definition finish ::
  "clock \<Rightarrow> admission \<Rightarrow> (pystr \<times> pystr) option \<Rightarrow> bytes \<Rightarrow> api_response act" where
  "finish clk ad payment body =
     (let headers = AList.update ''Content-Type'' ''application/json''
            (case payment of None \<Rightarrow> ad_headers ad
             | Some (receipt_header, _) \<Rightarrow> AList.update ''PAYMENT-RESPONSE'' receipt_header (ad_headers ad));
          cached = (case payment of None \<Rightarrow> headers
             | Some (_, proof_fp) \<Rightarrow> AList.update CACHED_PAYMENT_PROOF_HEADER proof_fp headers) in
      case from_parts 200 body (text_items cached) of
        Inl _ \<Rightarrow> lift (Inl Unexpected)
      | Inr response \<Rightarrow>
          st_bind (commit_result clk (payment \<noteq> None) (ad_reservation ad) response)
          (\<lambda>_. lift (Inr (ok_response headers body))))"

section \<open>The segments\<close>

definition tombstone :: "api_failure + idem_response" where
  "tombstone = map_failure (\<lambda>_. Unexpected)
     (from_parts 204 [] (text_items [(''Content-Type'', ''application/octet-stream'')]))"

text \<open>
  With the source at hand: bind, render and, for a paid request, write the claim's tombstone
  before the settlement is submitted.
\<close>

definition deliver :: "api_env \<Rightarrow> clock \<Rightarrow> job \<Rightarrow> verified_source option \<Rightarrow>
    (verified_payment \<times> idem_reservation) option \<Rightarrow> progress act" where
  "deliver env clk j source paid =
     guarded clk (jb_admission j) (map_option snd paid)
       (st_bind (lift (res_bind (result_dict env (aq_dump (jb_request j)) (jb_baseline j) source)
                         (response_body env (aq_request_id (jb_request j)))))
       (\<lambda>body. case paid of
          None \<Rightarrow> st_bind (finish clk (jb_admission j) None body) (\<lambda>r. lift (Inr (Finished r)))
        | Some (vp, claim) \<Rightarrow>
            st_bind (lift tombstone)
            (\<lambda>t. st_bind (on_claims (commit (reading clk 3) claim t))
            (\<lambda>_. lift (Inr (Suspended (j\<lparr>jb_stage := Settling vp body\<rparr>)))))))"

text \<open>To the source, which only a runtime with a cache resolves.\<close>

definition seek_source :: "api_env \<Rightarrow> clock \<Rightarrow> job \<Rightarrow> (verified_payment \<times> idem_reservation) option \<Rightarrow> progress act" where
  "seek_source env clk j paid rt =
     (if rt_sources rt = None then deliver env clk j None paid rt
      else (Inr (Suspended (j\<lparr>jb_stage := Binding paid\<rparr>)), rt))"

text \<open>The local part of a paid request: the chain and the proof.\<close>

definition begin_payment :: "api_env \<Rightarrow> pyfloat option \<Rightarrow> api_request \<Rightarrow> gateway option \<Rightarrow> api_failure + verified_payment" where
  "begin_payment env wall rq payments =
     (case (payments, aq_signature rq) of
        (Some g, Some sig) \<Rightarrow>
          if (case aq_dump rq of PDict d \<Rightarrow> (case dget d ''transaction'' of
                 PDict tx \<Rightarrow> (case dget tx ''chain_id'' of PInt n \<Rightarrow> n \<in> fst ` set RPC_ENDPOINTS | _ \<Rightarrow> False)
               | _ \<Rightarrow> False) | _ \<Rightarrow> False)
          then map_failure PaymentFailure
                 (verify_locally (ax_x402 env) g wall (PStr sig) (aq_idempotency_key rq))
          else Inl (SourceFailure (VsError ''UNSUPPORTED_CHAIN'' ''chain_id is not enabled for verified resolution''))
      | _ \<Rightarrow> Inl Unexpected)"

definition begin_analysis ::
  "api_env \<Rightarrow> clock \<Rightarrow> pyfloat option \<Rightarrow> api_request \<Rightarrow> pystr \<Rightarrow> admission \<Rightarrow> progress act" where
  "begin_analysis env clk wall rq fp ad rt =
     (let job_at = (\<lambda>baseline st. \<lparr>jb_request = rq, jb_admission = ad, jb_fingerprint = fp, jb_baseline = baseline,
             jb_stage = st, jb_start = clk 1, jb_wall = wall\<rparr>) in
      case map_failure of_preflight (preflight_transaction (ax_preflight env) (aq_dump rq)) of
        Inl f \<Rightarrow> guarded clk ad None (lift (Inl f)) rt
      | Inr baseline \<Rightarrow>
          if ad_paid ad
          then guarded clk ad None
                 (st_bind (lift (begin_payment env wall rq (rt_payments rt)))
                   (\<lambda>vp. lift (Inr (Suspended (job_at baseline (Verifying vp)))))) rt
          else seek_source env clk (job_at baseline (Binding None)) None rt)"

definition start_request ::
  "api_env \<Rightarrow> clock \<Rightarrow> pyfloat option \<Rightarrow> pystr \<Rightarrow> api_request \<Rightarrow> progress act" where
  "start_request env clk wall token rq rt =
     (case canonical_request_fingerprint env (aq_dump rq) of
        Inl f \<Rightarrow> (Inl f, rt)
      | Inr fp \<Rightarrow>
          if hs_mode (rt_settings rt) = Disabled then (Inr (Finished (not_configured (aq_request_id rq))), rt)
          else
            st_bind (admit env clk token rq fp)
            (\<lambda>a. case a of
               Answered r \<Rightarrow> lift (Inr (Finished r))
             | Admitted ad \<Rightarrow> begin_analysis env clk wall rq fp ad) rt)"

definition already_used :: pay_error where
  "already_used = \<lparr>py_code = ''PAYMENT_AUTHORIZATION_ALREADY_USED'',
     py_message = ''this payment authorization has already been consumed'', py_status = 409,
     py_retryable = False, py_terminal = True\<rparr>"

text \<open>After the facilitator's answer: the authorization is claimed once for all requests.\<close>

definition claim_authorization ::
  "api_env \<Rightarrow> clock \<Rightarrow> pystr \<Rightarrow> pystr \<Rightarrow> verified_payment \<Rightarrow> verify_response upstream \<Rightarrow>
   (verified_payment \<times> idem_reservation) act" where
  "claim_authorization env clk token fp vp answer =
     st_bind (lift (map_failure PaymentFailure (accept_answer vp answer)))
     (\<lambda>vp'. st_bind (on_claims (reserve (ax_sha256 env) (reading clk 2) token (PStr ''x402-authorization'')
                       (PStr (vp_authorization vp')) (PStr fp)))
     (\<lambda>decision. case decision of
        Replay _ \<Rightarrow> lift (Inl (PaymentFailure already_used))
      | Reserved rv \<Rightarrow> lift (Inr (vp', rv))))"

definition after_verify ::
  "api_env \<Rightarrow> clock \<Rightarrow> pystr \<Rightarrow> job \<Rightarrow> verified_payment \<Rightarrow> verify_response upstream \<Rightarrow> progress act" where
  "after_verify env clk token j vp answer =
     st_bind (guarded clk (jb_admission j) None (claim_authorization env clk token (jb_fingerprint j) vp answer))
     (\<lambda>paid. seek_source env clk j (Some paid))"

datatype resolution = Resolved verified_source | SourceFails vs_failure | SourceRaises

definition after_resolve ::
  "api_env \<Rightarrow> clock \<Rightarrow> job \<Rightarrow> (verified_payment \<times> idem_reservation) option \<Rightarrow> resolution \<Rightarrow> progress act" where
  "after_resolve env clk j paid res =
     (case res of
        Resolved so \<Rightarrow> deliver env clk j (Some so) paid
      | SourceFails e \<Rightarrow> guarded clk (jb_admission j) (map_option snd paid) (lift (Inl (SourceFailure e)))
      | SourceRaises \<Rightarrow> guarded clk (jb_admission j) (map_option snd paid) (lift (Inl Unexpected)))"

text \<open>A terminal failure is stored for replay; a refused commit is only logged.\<close>

definition commit_terminal_failure ::
  "api_env \<Rightarrow> clock \<Rightarrow> job \<Rightarrow> verified_payment \<Rightarrow> pay_error \<Rightarrow> unit act" where
  "commit_terminal_failure env clk j vp e rt =
     (let body = json_text (ax_float_text env) False True (PDict
            [(''type'', PStr ''about:blank''), (''title'', PStr (payment_title e)), (''status'', PInt (py_status e)),
             (''code'', PStr (py_code e)), (''detail'', PStr (py_message e)),
             (''request_id'', PStr (aq_request_id (jb_request j)))]) in
      case (payment_failure_headers (ax_x402 env) (rt_payments rt) e, body, ad_reservation (jb_admission j)) of
        (Inr hs, Some t, Some (w, rv)) \<Rightarrow>
          (case from_parts (py_status e) (utf8 t)
                  (text_items (updates [(''Content-Type'', ''application/problem+json''),
                                 (CACHED_PAYMENT_PROOF_HEADER, vp_proof vp)] hs)) of
             Inl _ \<Rightarrow> (Inl Unexpected, rt)
           | Inr response \<Rightarrow>
               (case on_store w (commit (reading clk 4) rv response) rt of
                  (Inl (AccessFailure _), rt') \<Rightarrow> (Inr (), rt')
                | r \<Rightarrow> r))
      | (Inl f, _) \<Rightarrow> (Inl f, rt)
      | _ \<Rightarrow> (Inl Unexpected, rt))"

definition after_settle ::
  "api_env \<Rightarrow> clock \<Rightarrow> job \<Rightarrow> verified_payment \<Rightarrow> bytes \<Rightarrow> settle_response upstream \<Rightarrow> progress act" where
  "after_settle env clk j vp body answer rt =
     (case rt_payments rt of
        None \<Rightarrow> (Inl Unexpected, rt)
      | Some g \<Rightarrow>
          (case accept_settlement (ax_x402 env) g vp answer of
             Inl e \<Rightarrow> st_bind (commit_terminal_failure env clk j vp e) (\<lambda>_. lift (Inl (PaymentFailure e))) rt
           | Inr r \<Rightarrow> st_bind (finish clk (jb_admission j) (Some (re_header r, vp_proof vp)) body)
                        (\<lambda>resp. lift (Inr (Finished resp))) rt))"

section \<open>The service\<close>

text \<open>A settlement asked for: the payment, and the readings at its check and its claim.\<close>

record settlement =
  se_payment :: verified_payment
  se_job :: job
  se_body :: bytes
  se_start :: rat
  se_wall :: "pyfloat option"
  se_commit :: rat

record world =
  w_runtime :: runtime
  w_jobs :: "nat \<Rightarrow> job option"
  w_now :: rat
  w_settled :: "settlement list"

datatype event =
    Start nat api_request pystr "pyfloat option"
  | FacilitatorVerified nat pystr "verify_response upstream"
  | SourceAnswered nat resolution
  | FacilitatorSettled nat "settle_response upstream"
  | Cancelled nat

definition event_job :: "event \<Rightarrow> nat" where
  "event_job ev = (case ev of Start i _ _ _ \<Rightarrow> i | FacilitatorVerified i _ _ \<Rightarrow> i | SourceAnswered i _ \<Rightarrow> i
     | FacilitatorSettled i _ \<Rightarrow> i | Cancelled i \<Rightarrow> i)"

text \<open>The segment an event runs, if a request awaits it.\<close>

definition segment :: "api_env \<Rightarrow> clock \<Rightarrow> event \<Rightarrow> world \<Rightarrow> progress act option" where
  "segment env clk ev w =
     (case (ev, w_jobs w (event_job ev)) of
        (Start i rq token wall, None) \<Rightarrow> Some (start_request env clk wall token rq)
      | (FacilitatorVerified i token answer, Some j) \<Rightarrow>
          (case jb_stage j of Verifying vp \<Rightarrow> Some (after_verify env clk token j vp answer) | _ \<Rightarrow> None)
      | (SourceAnswered i res, Some j) \<Rightarrow>
          (case jb_stage j of Binding paid \<Rightarrow> Some (after_resolve env clk j paid res) | _ \<Rightarrow> None)
      | (FacilitatorSettled i answer, Some j) \<Rightarrow>
          (case jb_stage j of Settling vp body \<Rightarrow> Some (after_settle env clk j vp body answer) | _ \<Rightarrow> None)
      | _ \<Rightarrow> None)"

definition settlements :: "clock \<Rightarrow> api_failure + progress \<Rightarrow> settlement list" where
  "settlements clk r =
     (case r of
        Inr (Suspended j) \<Rightarrow>
          (case jb_stage j of
             Settling vp body \<Rightarrow> [\<lparr>se_payment = vp, se_job = j, se_body = body, se_start = jb_start j,
               se_wall = jb_wall j, se_commit = clk 3\<rparr>]
           | _ \<Rightarrow> [])
      | _ \<Rightarrow> [])"

text \<open>One event: the answer to the client, if the handler ends, and the next world.\<close>

definition serve :: "api_env \<Rightarrow> clock \<Rightarrow> event \<Rightarrow> world \<Rightarrow> (api_failure + api_response) option \<times> world" where
  "serve env clk ev w =
     (case ev of
        Cancelled i \<Rightarrow> (None, w\<lparr>w_jobs := (w_jobs w)(i := None)\<rparr>)
      | _ \<Rightarrow>
          (case segment env clk ev w of
             None \<Rightarrow> (None, w)
           | Some m \<Rightarrow>
               (case m (w_runtime w) of
                  (r, rt) \<Rightarrow>
                    (case r of Inl f \<Rightarrow> Some (Inl f) | Inr (Finished a) \<Rightarrow> Some (Inr a) | Inr (Suspended _) \<Rightarrow> None,
                     w\<lparr>w_runtime := rt,
                       w_jobs := (w_jobs w)(event_job ev := (case r of Inr (Suspended j) \<Rightarrow> Some j | _ \<Rightarrow> None)),
                       w_now := clk 7,
                       w_settled := w_settled w @ settlements clk r\<rparr>))))"

definition response_of :: "api_env \<Rightarrow> runtime \<Rightarrow> pystr \<Rightarrow> api_failure + api_response \<Rightarrow> api_response" where
  "response_of env rt rid r =
     (case r of Inl f \<Rightarrow> failure_response (ax_x402 env) (rt_payments rt) rid f | Inr a \<Rightarrow> a)"

definition fresh_world :: "runtime \<Rightarrow> rat \<Rightarrow> world" where
  "fresh_world rt now = \<lparr>w_runtime = rt, w_jobs = (\<lambda>i. None), w_now = now, w_settled = []\<rparr>"

text \<open>The worlds a runtime can reach, with monotonic readings.\<close>

inductive reaches :: "api_env \<Rightarrow> world \<Rightarrow> world \<Rightarrow> bool" for env w0 where
  here: "reaches env w0 w0"
| event: "reaches env w0 w \<Longrightarrow> mono clk \<Longrightarrow> w_now w \<le> clk 0 \<Longrightarrow> serve env clk ev w = (r, w') \<Longrightarrow> reaches env w0 w'"

end
