(* ===== verification/Api_Facts.thy ===== *)
theory Api_Facts
  imports Api_Flow Hosted_Facts
begin

text \<open>
  What every history of the service guarantees about payments: an authorization is claimed
  before it is settled, a claim is kept for 900 seconds, and nothing is settled without a
  verdict bound to a verified source.
\<close>

section \<open>The claim store\<close>

text \<open>The claim committed at \<open>c\<close> under this key is still there, or its time is over at \<open>T\<close>.\<close>

definition claimed :: "idem_store \<Rightarrow> rat \<Rightarrow> cache_key \<Rightarrow> rat \<Rightarrow> bool" where
  "claimed s T k c \<longleftrightarrow> c + 900 \<le> T
     \<or> (\<exists>e. map_of (is_entries s) k = Some e \<and> ie_state e = COMPLETE \<and> ie_expires_at e = c + 900)"

lemma claimed_later: "claimed s T k c \<Longrightarrow> T \<le> T' \<Longrightarrow> claimed s T' k c"
  by (auto simp: claimed_def)

lemma now_of_reading [simp]: "now_of (reading clk i) = Inr (clk i)"
  by (simp add: now_of_def reading_def)

lemma paid_step:
  assumes "paid_store_ok s" shows "paid_store_ok (snd (idem_step sha op s))"
  using assms step_ok [of s sha op] by (auto simp: paid_store_ok_def)

lemma claimed_step:
  assumes "paid_store_ok s" "op_clock op = reading clk i" "claimed s (clk i) k c"
  shows "claimed (snd (idem_step sha op s)) (clk i) k c"
proof (cases "c + 900 \<le> clk i")
  case False
  then obtain e where e: "map_of (is_entries s) k = Some e" "ie_state e = COMPLETE" "ie_expires_at e = c + 900"
    using assms(3) by (auto simp: claimed_def)
  have "shielded s k e op" using False e assms by (simp add: shielded_def clock_before_def paid_store_ok_def)
  then have "map_of (is_entries (snd (idem_step sha op s))) k = Some e"
    using step_keeps [OF _ e(1)] assms(1) by (simp add: paid_store_ok_def)
  then show ?thesis using e by (auto simp: claimed_def)
qed (simp add: claimed_def)

lemma commit_claims:
  assumes ok: "paid_store_ok s" and c: "commit (reading clk i) rv r s = (Inr (), s')"
  shows "claimed s' T (rv_key rv) (clk i) \<and> (\<forall>c. claimed s (clk i) (rv_key rv) c \<longrightarrow> c + 900 \<le> clk i)"
proof -
  let ?s = "with_entries s (live (clk i) (is_entries s))"
  have inv: "store_inv s" and ev: "\<not> is_evict_completed s" and ttl: "is_ttl s = 900"
    using ok by (simp_all add: paid_store_ok_def)
  have size: "size_bytes r \<le> is_max_response_bytes s" and body: "commit_body rv r (clk i) ?s = (Inr (), s')"
    using c by (auto simp: commit_def expire_locked [OF inv] split: if_splits)
  have "owns (map_of (is_entries ?s) (rv_key rv)) rv"
    using body commit_body_not_owner [of ?s rv r "clk i"] by (cases "owns (map_of (is_entries ?s) (rv_key rv)) rv") auto
  then obtain e where e: "map_of (live (clk i) (is_entries s)) (rv_key rv) = Some e" "owns (Some e) rv"
    "ie_state e = RESERVED" by (auto simp: owns_def split: option.splits)
  then have "(rv_key rv, e) \<in> set (is_entries s)" "clk i < ie_expires_at e"
    by (auto simp: live_def dest!: map_of_SomeD)
  moreover have "od_wf (is_entries s)" using inv by (simp add: store_inv_def store_ok_def)
  ultimately have here: "map_of (is_entries s) (rv_key rv) = Some e" by (simp add: od_wf_def)
  from commit_held [OF inv ev here e(2) now_of_reading [of clk i] \<open>clk i < ie_expires_at e\<close> size] c
  have "map_of (is_entries s') (rv_key rv) = Some (completed e r (clk i + 900))" by (auto simp: ttl)
  then have "claimed s' T (rv_key rv) (clk i)" by (simp add: claimed_def completed_def)
  moreover have "c + 900 \<le> clk i" if "claimed s (clk i) (rv_key rv) c" for c
    using that here e(3) by (auto simp: claimed_def)
  ultimately show ?thesis by blast
qed

section \<open>Segments keep the claims\<close>

definition claims_ok :: "(cache_key \<times> rat) set \<Rightarrow> rat \<Rightarrow> runtime \<Rightarrow> bool" where
  "claims_ok C T rt \<longleftrightarrow>
     (\<forall>s. rt_claims rt = Some s \<longrightarrow> paid_store_ok s \<and> (\<forall>(k, c)\<in>C. claimed s T k c))"

definition same_parts :: "runtime \<Rightarrow> runtime \<Rightarrow> bool" where
  "same_parts rt rt' \<longleftrightarrow> rt_settings rt' = rt_settings rt \<and> rt_payments rt' = rt_payments rt
     \<and> rt_sources rt' = rt_sources rt"

lemma same_parts_refl [simp]: "same_parts rt rt"
  by (simp add: same_parts_def)

lemma same_parts_trans: "same_parts rt rt' \<Longrightarrow> same_parts rt' rt'' \<Longrightarrow> same_parts rt rt''"
  by (simp add: same_parts_def)

text \<open>An action between the readings \<open>a\<close> and \<open>b\<close> keeps every claim.\<close>

definition quiet :: "clock \<Rightarrow> nat \<Rightarrow> nat \<Rightarrow> 'a act \<Rightarrow> bool" where
  "quiet clk a b m \<longleftrightarrow> (\<forall>C rt. claims_ok C (clk a) rt \<longrightarrow>
     claims_ok C (clk b) (snd (m rt)) \<and> same_parts rt (snd (m rt)))"

lemma quietD:
  "quiet clk a b m \<Longrightarrow> claims_ok C (clk a) rt \<Longrightarrow> m rt = (r, rt') \<Longrightarrow> claims_ok C (clk b) rt' \<and> same_parts rt rt'"
  by (metis quiet_def snd_conv)

named_theorems quiets

lemma claims_ok_later: "claims_ok C T rt \<Longrightarrow> T \<le> T' \<Longrightarrow> claims_ok C T' rt"
  by (fastforce simp: claims_ok_def intro: claimed_later)

lemma quiet_id: "mono clk \<Longrightarrow> a \<le> b \<Longrightarrow> (\<And>rt. snd (m rt) = rt) \<Longrightarrow> quiet clk a b m"
  by (auto simp: quiet_def intro: claims_ok_later monoD)

lemma quiet_lift [quiets]: "mono clk \<Longrightarrow> a \<le> b \<Longrightarrow> quiet clk a b (lift m)"
  by (rule quiet_id) (simp_all add: lift_def)

lemma quiet_bind:
  assumes "quiet clk a b m" "\<And>x. quiet clk b c (f x)" "mono clk" "b \<le> c"
  shows "quiet clk a c (st_bind m f)"
  unfolding quiet_def
proof (intro allI impI)
  fix C rt assume ok: "claims_ok C (clk a) rt"
  obtain r rt' where m: "m rt = (r, rt')" by fastforce
  have 1: "claims_ok C (clk b) rt'" "same_parts rt rt'" using quietD [OF assms(1) ok m] by blast+
  show "claims_ok C (clk c) (snd (st_bind m f rt)) \<and> same_parts rt (snd (st_bind m f rt))"
  proof (cases r)
    case (Inl e)
    then show ?thesis using 1 m assms(3,4) by (auto simp: st_bind_def intro: claims_ok_later monoD)
  next
    case (Inr x)
    then show ?thesis using 1 m assms(2) by (auto simp: st_bind_def quiet_def intro: same_parts_trans)
  qed
qed

lemma quiet_wider:
  assumes "quiet clk a b m" "mono clk" "a' \<le> a" "b \<le> b'"
  shows "quiet clk a' b' m"
proof -
  have "clk a' \<le> clk a" "clk b \<le> clk b'" using assms(2-4) by (auto intro: monoD)
  then show ?thesis using assms(1) by (auto simp: quiet_def intro: claims_ok_later)
qed

lemma quiet_claims_op:
  assumes "\<And>s. snd (f s) = snd (idem_step sha op s)" "op_clock op = reading clk i"
    and "mono clk" "a \<le> i" "i \<le> b"
  shows "quiet clk a b (on_claims f)"
proof (rule quiet_wider)
  show "quiet clk i i (on_claims f)"
    unfolding quiet_def
  proof (intro allI impI)
    fix C rt assume ok: "claims_ok C (clk i) rt"
    show "claims_ok C (clk i) (snd (on_claims f rt)) \<and> same_parts rt (snd (on_claims f rt))"
    proof (cases "rt_claims rt")
      case (Some s)
      have s: "paid_store_ok s" "\<forall>(k, c)\<in>C. claimed s (clk i) k c" using ok Some by (auto simp: claims_ok_def)
      have "snd (on_claims f rt) = rt\<lparr>rt_claims := Some (snd (idem_step sha op s))\<rparr>"
        using assms(1) [of s] Some by (cases "f s") (simp add: on_claims_def)
      then show ?thesis
        using paid_step [OF s(1)] claimed_step [OF s(1) assms(2)] s(2)
        by (auto simp: claims_ok_def same_parts_def)
    qed (use ok in \<open>simp add: on_claims_def\<close>)
  qed
qed (use assms in auto)

lemma quiet_reserve [quiets]:
  "mono clk \<Longrightarrow> a \<le> i \<Longrightarrow> i \<le> b \<Longrightarrow> quiet clk a b (on_claims (reserve sha (reading clk i) token t k f))"
  by (rule quiet_claims_op [where op = "OpReserve (reading clk i) token t k f"]) (simp_all add: result_of_def)

lemma quiet_commit [quiets]:
  "mono clk \<Longrightarrow> a \<le> i \<Longrightarrow> i \<le> b \<Longrightarrow> quiet clk a b (on_claims (commit (reading clk i) rv r))"
  by (rule quiet_claims_op [where op = "OpCommit (reading clk i) rv r" and sha = "\<lambda>b. b"]) (simp_all add: result_of_def)

lemma quiet_abort [quiets]:
  "mono clk \<Longrightarrow> a \<le> i \<Longrightarrow> i \<le> b \<Longrightarrow> quiet clk a b (on_claims (abort (reading clk i) rv))"
  by (rule quiet_claims_op [where op = "OpAbort (reading clk i) rv" and sha = "\<lambda>b. b"]) (simp_all add: result_of_def)

text \<open>An action that leaves the claim store alone.\<close>

definition calm :: "'a act \<Rightarrow> bool" where
  "calm m \<longleftrightarrow> (\<forall>rt. rt_claims (snd (m rt)) = rt_claims rt \<and> same_parts rt (snd (m rt)))"

named_theorems calms

lemma calmI: "(\<And>rt. rt_claims (snd (m rt)) = rt_claims rt \<and> same_parts rt (snd (m rt))) \<Longrightarrow> calm m"
  by (simp add: calm_def)

lemma calmD: "calm m \<Longrightarrow> m rt = (r, rt') \<Longrightarrow> rt_claims rt' = rt_claims rt \<and> same_parts rt rt'"
  by (metis calm_def snd_conv)

lemma calm_lift [calms]: "calm (lift m)"
  by (simp add: calm_def lift_def)

lemma calm_bind [calms]: "calm m \<Longrightarrow> (\<And>x. calm (f x)) \<Longrightarrow> calm (st_bind m f)"
proof (rule calmI)
  fix rt assume m: "calm m" and f: "\<And>x. calm (f x)"
  obtain r rt' where r: "m rt = (r, rt')" by fastforce
  show "rt_claims (snd (st_bind m f rt)) = rt_claims rt \<and> same_parts rt (snd (st_bind m f rt))"
  proof (cases r)
    case (Inl e)
    then show ?thesis using calmD [OF m r] r by (simp add: st_bind_def)
  next
    case (Inr x)
    obtain r2 rt2 where r2: "f x rt' = (r2, rt2)" by fastforce
    show ?thesis using calmD [OF m r] calmD [OF f r2] r r2 Inr by (auto simp: st_bind_def intro: same_parts_trans)
  qed
qed

lemma calm_on [calms]: "calm (on_access g)" "calm (on_payments h)" "calm (on_store w h)"
  by (auto simp: calm_def on_store_def on_access_def on_payments_def same_parts_def
      split: option.split prod.split which_store.split)

lemma quiet_calm: "mono clk \<Longrightarrow> a \<le> b \<Longrightarrow> calm m \<Longrightarrow> quiet clk a b m"
  unfolding quiet_def calm_def by (metis claims_ok_def claims_ok_later monoD)

lemma calm_commit_result [calms]: "calm (commit_result clk settled reservation cached)"
proof (cases reservation)
  case None
  then show ?thesis by (simp add: commit_result_def calms)
next
  case (Some wrv)
  obtain w rv where wrv: "wrv = (w, rv)" by fastforce
  show ?thesis
  proof (rule calmI)
    fix rt
    obtain r rt' where r: "on_store w (commit (reading clk 4) rv cached) rt = (r, rt')" by fastforce
    obtain r2 rt2 where r2: "st_bind (on_store w (abort (reading clk 5) rv)) (\<lambda>_. lift (Inr ())) rt' = (r2, rt2)"
      by fastforce
    have "calm (st_bind (on_store w (abort (reading clk 5) rv)) (\<lambda>_. lift (Inr () :: api_failure + unit)))"
      by (intro calms)
    from calmD [OF calm_on(3) r] calmD [OF this r2]
    show "rt_claims (snd (commit_result clk settled reservation cached rt)) = rt_claims rt
        \<and> same_parts rt (snd (commit_result clk settled reservation cached rt))"
      using r r2 by (auto simp: commit_result_def Some wrv split: sum.split api_failure.split intro: same_parts_trans)
  qed
qed

lemma calm_finish [calms]: "calm (finish clk ad payment body)"
  unfolding finish_def Let_def by (auto split: sum.split intro!: calms)

lemma calm_commit_terminal_failure [calms]: "calm (commit_terminal_failure env clk j vp e)"
proof (rule calmI)
  fix rt
  have on: "rt_claims rt' = rt_claims rt \<and> same_parts rt rt'"
    if "on_store w (commit (reading clk 4) rv response) rt = (r, rt')" for w rv response r rt'
    by (rule calmD [OF calm_on(3) that])
  show "rt_claims (snd (commit_terminal_failure env clk j vp e rt)) = rt_claims rt
      \<and> same_parts rt (snd (commit_terminal_failure env clk j vp e rt))"
    by (auto simp: commit_terminal_failure_def Let_def
        split: sum.split option.split prod.split api_failure.split dest: on)
qed

lemma calm_after_settle: "calm (after_settle env clk j vp body answer)"
proof (rule calmI)
  fix rt
  have "calm (st_bind (commit_terminal_failure env clk j vp e) (\<lambda>_. lift (Inl (PaymentFailure e))))"
    "calm (st_bind (finish clk ad p body) (\<lambda>resp. lift (Inr (Finished resp))))" for e ad p
    by (intro calms)+
  then show "rt_claims (snd (after_settle env clk j vp body answer rt)) = rt_claims rt
      \<and> same_parts rt (snd (after_settle env clk j vp body answer rt))"
    by (auto simp: after_settle_def calm_def split: option.split sum.split)
qed

lemma calm_admit_tenant: "calm (admit_tenant env clk token rq fp)"
  unfolding admit_tenant_def Let_def by (auto split: idem_decision.split intro!: calms)

lemma calm_admit_payer: "calm (admit_payer env clk token rq fp)"
  by (cases "aq_signature rq")
    (auto simp: admit_payer_def calm_def [of "\<lambda>rt. (g rt, rt)" for g] split: idem_decision.split intro!: calms)

lemma calm_admit: "calm (admit env clk token rq fp)"
proof (rule calmI)
  fix rt
  have "calm (st_bind (on_access g) (\<lambda>_. lift (Inr (Admitted open_admission))))" for g :: "(controller, access_failure, pystr) st"
    by (intro calms)
  then show "rt_claims (snd (admit env clk token rq fp rt)) = rt_claims rt
      \<and> same_parts rt (snd (admit env clk token rq fp rt))"
    using calm_admit_tenant calm_admit_payer unfolding admit_def Let_def calm_def by simp
qed

lemma quiet_release:
  assumes "mono clk" "a \<le> 6"
  shows "quiet clk a 7 (release clk ad claim)"
  unfolding release_def
proof (rule quiet_bind [where b = 6])
  show "quiet clk a 6 (case ad_reservation ad of None \<Rightarrow> lift (Inr ())
      | Some (w, rv) \<Rightarrow> st_bind (on_store w (abort (reading clk 6) rv)) (\<lambda>_. lift (Inr ())))"
    using assms by (intro quiet_calm) (auto split: option.split intro!: calms)
  show "quiet clk 6 7 (case claim of None \<Rightarrow> lift (Inr ())
      | Some rv \<Rightarrow> st_bind (on_claims (abort (reading clk 7) rv)) (\<lambda>_. lift (Inr ())))"
    using assms(1) by (auto split: option.split intro!: quiets quiet_bind [where b = 7])
qed (use assms in auto)

lemma quiet_guarded:
  assumes m: "quiet clk a b m" and "mono clk" "b \<le> 6"
  shows "quiet clk a 7 (guarded clk ad claim m)"
  unfolding quiet_def
proof (intro allI impI)
  fix C rt assume ok: "claims_ok C (clk a) rt"
  obtain r rt' where r: "m rt = (r, rt')" by fastforce
  note 1 = quietD [OF m ok r]
  have seven: "claims_ok C (clk 7) rt'" and six: "claims_ok C (clk 6) rt'"
    using claims_ok_later [OF conjunct1 [OF 1]] monoD [OF assms(2)] assms(3) by simp_all
  show "claims_ok C (clk 7) (snd (guarded clk ad claim m rt)) \<and> same_parts rt (snd (guarded clk ad claim m rt))"
  proof (cases r)
    case (Inr x)
    then show ?thesis using r 1 seven by (simp add: guarded_def)
  next
    case (Inl f)
    have "quiet clk 6 7 (st_bind (release clk ad claim) (\<lambda>_. lift (Inl f :: api_failure + 'a)))"
      by (rule quiet_bind [where b = 7]) (auto intro: quiet_release assms quiets)
    from quietD [OF this six prod.collapse [symmetric]] show ?thesis
      using r 1 Inl by (auto simp: guarded_def intro: same_parts_trans)
  qed
qed

lemma quiet_guarded_bind:
  assumes m: "quiet clk a b m" and f: "\<And>x. quiet clk b 7 (f x)" and "mono clk" "b \<le> 6"
  shows "quiet clk a 7 (st_bind (guarded clk ad claim m) f)"
  unfolding quiet_def
proof (intro allI impI)
  fix C rt assume ok: "claims_ok C (clk a) rt"
  obtain r rt' where r: "m rt = (r, rt')" by fastforce
  note 1 = quietD [OF m ok r]
  show "claims_ok C (clk 7) (snd (st_bind (guarded clk ad claim m) f rt))
      \<and> same_parts rt (snd (st_bind (guarded clk ad claim m) f rt))"
  proof (cases r)
    case (Inr x)
    from quietD [OF f [of x] conjunct1 [OF 1] prod.collapse [symmetric]] show ?thesis
      using r 1 Inr by (auto simp: guarded_def st_bind_def intro: same_parts_trans)
  next
    case (Inl e)
    have "quiet clk a 7 (guarded clk ad claim m)" by (rule quiet_guarded [OF m assms(3,4)])
    from quietD [OF this ok prod.collapse [symmetric]]
    have "claims_ok C (clk 7) (snd (guarded clk ad claim m rt)) \<and> same_parts rt (snd (guarded clk ad claim m rt))" .
    moreover have "\<exists>e' rt2. guarded clk ad claim m rt = (Inl e', rt2)"
      using r Inl by (auto simp: guarded_def st_bind_def lift_def split: prod.split sum.split)
    ultimately show ?thesis by (auto simp: st_bind_def)
  qed
qed

lemma quiet_deliver:
  assumes "mono clk" "b \<le> 3" shows "quiet clk b 7 (deliver env clk j source paid)"
  unfolding deliver_def
proof (rule quiet_guarded [where b = 6])
  let ?body = "lift (res_bind (result_dict env (aq_dump (jb_request j)) (jb_baseline j) source)
    (response_body env (aq_request_id (jb_request j))))"
  have "quiet clk b 6 (st_bind (finish clk (jb_admission j) None body) (\<lambda>r. lift (Inr (Finished r))))" for body
    using assms by (intro quiet_calm calms) auto
  moreover have "quiet clk b 6 (st_bind (lift tombstone) (\<lambda>t. st_bind (on_claims (commit (reading clk 3) claim t))
      (\<lambda>_. lift (Inr (Suspended k)))))" for claim k
    using assms by (intro quiet_bind [where b = b] quiet_bind [where b = 4] quiets) auto
  ultimately show "quiet clk b 6 (st_bind ?body
      (\<lambda>body. case paid of None \<Rightarrow> st_bind (finish clk (jb_admission j) None body) (\<lambda>r. lift (Inr (Finished r)))
        | Some (vp, claim) \<Rightarrow> st_bind (lift tombstone) (\<lambda>t. st_bind (on_claims (commit (reading clk 3) claim t))
            (\<lambda>_. lift (Inr (Suspended (j\<lparr>jb_stage := Settling vp body\<rparr>)))))))"
    using assms by (intro quiet_bind [where b = b] quiets) (auto split: option.split)
qed (use assms in auto)

lemma quiet_seek_source:
  assumes "mono clk" "b \<le> 3" shows "quiet clk b 7 (seek_source env clk j paid)"
  unfolding quiet_def
proof (intro allI impI)
  fix C rt assume ok: "claims_ok C (clk b) rt"
  from quietD [OF quiet_deliver [OF assms] this prod.collapse [symmetric]] claims_ok_later [OF this, of "clk 7"]
  show "claims_ok C (clk 7) (snd (seek_source env clk j paid rt)) \<and> same_parts rt (snd (seek_source env clk j paid rt))"
    using monoD [OF assms(1), of b 7] assms(2) by (auto simp: seek_source_def)
qed

lemma quiet_start_request:
  assumes "mono clk" shows "quiet clk 0 7 (start_request env clk wall token rq)"
proof -
  have fail: "quiet clk 0 7 (guarded clk ad None (lift x))" for ad and x :: "api_failure + progress"
    by (rule quiet_guarded [where b = 0]) (auto intro: quiets assms)
  have pay: "quiet clk 0 7 (guarded clk ad None (st_bind (lift x) (\<lambda>vp. lift (g vp))))"
    for ad and x :: "api_failure + verified_payment" and g :: "verified_payment \<Rightarrow> api_failure + progress"
    by (rule quiet_guarded [where b = 0]) (auto intro!: quiet_bind [where b = 0] quiets assms)
  have seek: "quiet clk 0 7 (seek_source env clk j None)" for j by (rule quiet_seek_source) (use assms in auto)
  have analysis: "quiet clk 0 7 (begin_analysis env clk wall rq fp ad)" for fp ad
    using fail pay seek unfolding quiet_def begin_analysis_def Let_def by (simp split: sum.split)
  have admitted: "quiet clk 0 7 (st_bind (admit env clk token rq fp)
      (\<lambda>a. case a of Answered r \<Rightarrow> lift (Inr (Finished r)) | Admitted ad \<Rightarrow> begin_analysis env clk wall rq fp ad))" for fp
    by (rule quiet_bind [where b = 0])
      (auto split: admitted.split intro: quiet_calm calm_admit quiets analysis assms)
  show ?thesis
    unfolding quiet_def
  proof (intro allI impI)
    fix C rt assume ok: "claims_ok C (clk 0) rt"
    show "claims_ok C (clk 7) (snd (start_request env clk wall token rq rt))
        \<and> same_parts rt (snd (start_request env clk wall token rq rt))"
      using quietD [OF admitted ok prod.collapse [symmetric]] claims_ok_later [OF ok monoD [OF assms, of 0 7]]
      by (auto simp: start_request_def split: sum.split)
  qed
qed

lemma quiet_after_verify:
  assumes "mono clk" shows "quiet clk 0 7 (after_verify env clk token j vp answer)"
  unfolding after_verify_def claim_authorization_def
  by (rule quiet_guarded_bind [where b = 2])
    (auto split: idem_decision.split intro!: quiet_bind [where b = 0] quiet_bind [where b = 2] quiets quiet_seek_source assms)

lemma quiet_after_resolve:
  assumes "mono clk" shows "quiet clk 0 7 (after_resolve env clk j paid res)"
  by (cases res) (auto simp: after_resolve_def intro!: quiet_deliver quiet_guarded [where b = 0] quiets assms)

lemma segment_cases:
  assumes "segment env clk ev w = Some m"
  obtains (start) i rq token wall where "ev = Start i rq token wall" "w_jobs w i = None"
      "m = start_request env clk wall token rq"
  | (verified) i token answer j vp where "ev = FacilitatorVerified i token answer" "w_jobs w i = Some j"
      "jb_stage j = Verifying vp" "m = after_verify env clk token j vp answer"
  | (resolved) i res j paid where "ev = SourceAnswered i res" "w_jobs w i = Some j"
      "jb_stage j = Binding paid" "m = after_resolve env clk j paid res"
  | (settled) i answer j vp body where "ev = FacilitatorSettled i answer" "w_jobs w i = Some j"
      "jb_stage j = Settling vp body" "m = after_settle env clk j vp body answer"
  using assms
  by (auto simp: segment_def event_job_def split: event.splits option.splits stage.splits)

lemma quiet_segment:
  assumes "mono clk" "segment env clk ev w = Some m" shows "quiet clk 0 7 m"
  using assms(2)
proof (cases rule: segment_cases)
  case settled
  then show ?thesis using assms(1) by (simp add: quiet_calm calm_after_settle)
qed (simp_all add: assms quiet_start_request quiet_after_verify quiet_after_resolve)

end
