(* ===== verification/Api_Safety.thy ===== *)
theory Api_Safety
  imports Api_Facts
begin

text \<open>
  The invariant of the service's worlds, and what it says of every history: the settlements
  asked for form a ledger in which no authorization is spent twice within 900 seconds, each
  of them after a verdict; and every request comes to an end.
\<close>

section \<open>Segments that suspend\<close>

lemma st_bind_Inr:
  "st_bind m f s = (Inr y, s') \<longleftrightarrow> (\<exists>x s1. m s = (Inr x, s1) \<and> f x s1 = (Inr y, s'))"
  by (auto simp: st_bind_def split: prod.splits sum.splits)

lemma lift_Inr [simp]: "lift m rt = (Inr x, rt') \<longleftrightarrow> m = Inr x \<and> rt' = rt"
  by (auto simp: lift_def)

lemma guarded_Inr [simp]: "guarded clk ad claim m rt = (Inr x, rt') \<longleftrightarrow> m rt = (Inr x, rt')"
  by (auto simp: guarded_def st_bind_def lift_def split: prod.splits sum.splits)

lemma on_claims_Inr:
  "on_claims f rt = (Inr x, rt') \<longleftrightarrow>
     (\<exists>s s'. rt_claims rt = Some s \<and> f s = (Inr x, s') \<and> rt' = rt\<lparr>rt_claims := Some s'\<rparr>)"
  by (auto simp: on_claims_def map_failure_def split: option.splits prod.splits sum.splits)

definition delivered :: "api_env \<Rightarrow> job \<Rightarrow> verified_source option \<Rightarrow> bytes \<Rightarrow> bool" where
  "delivered env j source body \<longleftrightarrow>
     (\<exists>d. result_dict env (aq_dump (jb_request j)) (jb_baseline j) source = Inr d
        \<and> response_body env (aq_request_id (jb_request j)) d = Inr body)"

lemma deliver_Suspended:
  assumes "deliver env clk j source paid rt = (Inr (Suspended j'), rt')"
  shows "\<exists>vp claim body t s s'. paid = Some (vp, claim) \<and> j' = j\<lparr>jb_stage := Settling vp body\<rparr>
    \<and> delivered env j source body \<and> rt_claims rt = Some s
    \<and> commit (reading clk 3) claim t s = (Inr (), s') \<and> rt' = rt\<lparr>rt_claims := Some s'\<rparr>"
proof (cases paid)
  case None
  then show ?thesis using assms by (auto simp: deliver_def st_bind_Inr)
next
  case (Some p)
  obtain vp claim where p: "p = (vp, claim)" by fastforce
  obtain body t s s' where "delivered env j source body" "rt_claims rt = Some s"
    "commit (reading clk 3) claim t s = (Inr (), s')" "rt' = rt\<lparr>rt_claims := Some s'\<rparr>"
    "j' = j\<lparr>jb_stage := Settling vp body\<rparr>"
    using assms by (auto simp: deliver_def st_bind_Inr on_claims_Inr delivered_def res_bind_Inr_iff Some p)
  then show ?thesis using Some p by blast
qed

lemma seek_source_Suspended:
  assumes "seek_source env clk j paid rt = (Inr (Suspended j'), rt')"
  shows "(rt_sources rt \<noteq> None \<and> j' = j\<lparr>jb_stage := Binding paid\<rparr> \<and> rt' = rt)
    \<or> (rt_sources rt = None \<and> deliver env clk j None paid rt = (Inr (Suspended j'), rt'))"
  using assms by (auto simp: seek_source_def split: if_splits)

lemma begin_analysis_Suspended:
  assumes "begin_analysis env clk wall rq fp ad rt = (Inr (Suspended j'), rt')"
  shows "jb_start j' = clk 1 \<and> jb_wall j' = wall \<and> jb_request j' = rq
    \<and> (jb_stage j' = Binding None
       \<or> (\<exists>vp. jb_stage j' = Verifying vp \<and> begin_payment env wall rq (rt_payments rt) = Inr vp))"
  using assms
  by (auto simp: begin_analysis_def Let_def st_bind_Inr split: sum.splits if_splits
      dest!: seek_source_Suspended deliver_Suspended)

lemma admitted_Suspended:
  assumes "(case a of Answered r \<Rightarrow> lift (Inr (Finished r)) | Admitted ad \<Rightarrow> f ad) rt = (Inr (Suspended j'), rt')"
  obtains ad where "a = Admitted ad" "f ad rt = (Inr (Suspended j'), rt')"
  using assms by (cases a) auto

lemma start_request_Suspended:
  assumes "start_request env clk wall token rq rt = (Inr (Suspended j'), rt')"
  shows "jb_start j' = clk 1 \<and> jb_wall j' = wall \<and> jb_request j' = rq
    \<and> (jb_stage j' = Binding None
       \<or> (\<exists>vp. jb_stage j' = Verifying vp \<and> begin_payment env wall rq (rt_payments rt) = Inr vp))"
proof -
  obtain fp ad rt1 where a: "admit env clk token rq fp rt = (Inr (Admitted ad), rt1)"
    and b: "begin_analysis env clk wall rq fp ad rt1 = (Inr (Suspended j'), rt')"
    using assms
    by (auto simp: start_request_def st_bind_Inr split: sum.splits if_splits elim!: admitted_Suspended)
  have "rt_payments rt1 = rt_payments rt" using calmD [OF calm_admit a] by (simp add: same_parts_def)
  then show ?thesis using begin_analysis_Suspended [OF b] by simp
qed

definition claim_key :: "api_env \<Rightarrow> verified_payment \<Rightarrow> cache_key" where
  "claim_key env vp = (''x402-authorization'', ax_sha256 env (utf8 (vp_authorization vp)))"

lemma reserved_only:
  assumes "(case d of Reserved rv \<Rightarrow> lift (Inr (g rv)) | Replay r \<Rightarrow> lift (Inl (h r))) rt = (Inr x, rt')"
  obtains rv where "d = Reserved rv" "x = g rv" "rt' = rt"
  using assms by (cases d) auto

lemma claim_authorization_Inr:
  assumes "claims_ok C T rt"
    and "claim_authorization env clk token fp vp answer rt = (Inr (vp', rv), rt1)"
  shows "vp' = vp \<and> rv_key rv = claim_key env vp"
proof -
  obtain s s' where s: "rt_claims rt = Some s" and vp: "vp' = vp"
    and r: "reserve (ax_sha256 env) (reading clk 2) token (PStr ''x402-authorization'')
              (PStr (vp_authorization vp)) (PStr fp) s = (Inr (Reserved rv), s')"
    using assms(2)
    by (auto simp: claim_authorization_def st_bind_Inr on_claims_Inr map_failure_def
        split: sum.splits dest!: accept_answer_Inr elim!: reserved_only)
  have "store_inv s" using assms(1) s by (simp add: claims_ok_def paid_store_ok_def)
  from reserve_Reserved [OF this r] show ?thesis by (simp add: claim_key_def vp)
qed

section \<open>A new settlement\<close>

lemma deliver_claims:
  assumes "claims_ok C (clk 3) rt" "deliver env clk j source (Some (vp, claim)) rt = (Inr (Suspended j'), rt')"
  shows "claims_ok {(rv_key claim, clk 3)} T rt' \<and> (\<forall>(k, c)\<in>C. k = rv_key claim \<longrightarrow> c + 900 \<le> clk 3)"
proof -
  obtain t s s' where s: "rt_claims rt = Some s" and c: "commit (reading clk 3) claim t s = (Inr (), s')"
    and rt': "rt' = rt\<lparr>rt_claims := Some s'\<rparr>"
    using deliver_Suspended [OF assms(2)] by auto
  have ok: "paid_store_ok s" and C: "\<forall>(k, c)\<in>C. claimed s (clk 3) k c"
    using assms(1) s by (auto simp: claims_ok_def)
  have "paid_store_ok s'"
    using paid_step [OF ok, of "\<lambda>b. b" "OpCommit (reading clk 3) claim t"] c by (simp add: result_of_def)
  then show ?thesis using commit_claims [OF ok c] C rt' by (auto simp: claims_ok_def)
qed

section \<open>The ledger\<close>

text \<open>
  The specification: payments in the order of time, none of an authorization that was
  spent in the 900 seconds before.
\<close>

inductive ledger :: "(pystr \<times> rat) list \<Rightarrow> bool" where
  empty: "ledger []"
| spend: "ledger L \<Longrightarrow> \<forall>(a', c)\<in>set L. c \<le> t \<and> (a' = a \<longrightarrow> c + 900 \<le> t) \<Longrightarrow> ledger (L @ [(a, t)])"

definition spent :: "settlement \<Rightarrow> pystr \<times> rat" where
  "spent e = (vp_authorization (se_payment e), se_commit e)"

lemma ledger_nth:
  "ledger L \<Longrightarrow> i < j \<Longrightarrow> j < length L \<Longrightarrow> fst (L ! i) = fst (L ! j) \<Longrightarrow> snd (L ! i) + 900 \<le> snd (L ! j)"
proof (induction arbitrary: i j rule: ledger.induct)
  case (spend L t a)
  show ?case
  proof (cases "j < length L")
    case True
    then show ?thesis using spend by (simp add: nth_append)
  next
    case False
    then have "j = length L" "i < length L" using spend.prems by auto
    moreover have "L ! i \<in> set L" using calculation by simp
    ultimately show ?thesis using spend.hyps(2) spend.prems by (fastforce simp: nth_append)
  qed
qed simp

section \<open>The invariant\<close>

definition checked :: "api_env \<Rightarrow> runtime \<Rightarrow> job \<Rightarrow> verified_payment \<Rightarrow> bool" where
  "checked env rt j vp \<longleftrightarrow> begin_payment env (jb_wall j) (jb_request j) (rt_payments rt) = Inr vp"

definition job_ok :: "api_env \<Rightarrow> runtime \<Rightarrow> rat \<Rightarrow> job \<Rightarrow> bool" where
  "job_ok env rt now j \<longleftrightarrow> jb_start j \<le> now
     \<and> (case jb_stage j of
          Verifying vp \<Rightarrow> checked env rt j vp
        | Binding paid \<Rightarrow> (case paid of None \<Rightarrow> True
            | Some (vp, rv) \<Rightarrow> checked env rt j vp \<and> rv_key rv = claim_key env vp)
        | Settling vp body \<Rightarrow> True)"

text \<open>What stands behind a settlement.\<close>

definition justified :: "api_env \<Rightarrow> runtime \<Rightarrow> settlement \<Rightarrow> bool" where
  "justified env rt e \<longleftrightarrow>
     checked env rt (se_job e) (se_payment e) \<and> se_wall e = jb_wall (se_job e) \<and> se_start e \<le> se_commit e
     \<and> (\<exists>source. delivered env (se_job e) source (se_body e) \<and> (source = None \<longrightarrow> rt_sources rt = None))"

definition world_ok :: "api_env \<Rightarrow> runtime \<Rightarrow> world \<Rightarrow> bool" where
  "world_ok env rt w \<longleftrightarrow>
     same_parts rt (w_runtime w)
     \<and> claims_ok ((\<lambda>e. (claim_key env (se_payment e), se_commit e)) ` set (w_settled w)) (w_now w) (w_runtime w)
     \<and> (\<forall>i j. w_jobs w i = Some j \<longrightarrow> job_ok env rt (w_now w) j)
     \<and> (\<forall>e\<in>set (w_settled w). justified env rt e \<and> se_commit e \<le> w_now w)
     \<and> ledger (map spent (w_settled w))"

lemma job_ok_later: "job_ok env rt now j \<Longrightarrow> now \<le> now' \<Longrightarrow> job_ok env rt now' j"
  by (auto simp: job_ok_def)

text \<open>What a suspended segment leaves behind: a good job, and no settlement it may not ask for.\<close>

definition good_end ::
  "api_env \<Rightarrow> runtime \<Rightarrow> clock \<Rightarrow> (cache_key \<times> rat) set \<Rightarrow> job \<Rightarrow> runtime \<Rightarrow> bool" where
  "good_end env rt0 clk C j' rt' \<longleftrightarrow> job_ok env rt0 (clk 7) j'
     \<and> (\<forall>vp body. jb_stage j' = Settling vp body \<longrightarrow>
          claims_ok {(claim_key env vp, clk 3)} (clk 7) rt'
          \<and> (\<forall>(k, c)\<in>C. k = claim_key env vp \<longrightarrow> c + 900 \<le> clk 3)
          \<and> jb_start j' \<le> clk 3 \<and> checked env rt0 j' vp
          \<and> (\<exists>source. delivered env j' source body \<and> (source = None \<longrightarrow> rt_sources rt0 = None)))"

lemma checked_stage [simp]: "checked env rt (j\<lparr>jb_stage := st\<rparr>) vp = checked env rt j vp"
  by (simp add: checked_def)

lemma delivered_stage [simp]: "delivered env (j\<lparr>jb_stage := st\<rparr>) source body = delivered env j source body"
  by (simp add: delivered_def)

lemma deliver_good:
  assumes C: "claims_ok C (clk 3) rt" and clk: "mono clk" "jb_start j \<le> clk 3"
    and d: "deliver env clk j source paid rt = (Inr (Suspended j'), rt')"
    and paid: "\<And>vp claim. paid = Some (vp, claim) \<Longrightarrow> checked env rt0 j vp \<and> rv_key claim = claim_key env vp"
    and source: "source = None \<longrightarrow> rt_sources rt0 = None"
  shows "good_end env rt0 clk C j' rt'"
proof -
  obtain vp claim body where p: "paid = Some (vp, claim)" and j': "j' = j\<lparr>jb_stage := Settling vp body\<rparr>"
    and b: "delivered env j source body"
    using deliver_Suspended [OF d] by blast
  have "clk 3 \<le> clk 7" using clk(1) by (simp add: monoD)
  then show ?thesis
    using deliver_claims [OF C d [unfolded p], of "clk 7"] paid [OF p] b clk(2) source
    by (auto simp: good_end_def j' job_ok_def)
qed

lemma seek_source_good:
  assumes C: "claims_ok C (clk 3) rt" and clk: "mono clk" "jb_start j \<le> clk 3"
    and d: "seek_source env clk j paid rt = (Inr (Suspended j'), rt')"
    and paid: "\<And>vp claim. paid = Some (vp, claim) \<Longrightarrow> checked env rt0 j vp \<and> rv_key claim = claim_key env vp"
    and same: "same_parts rt0 rt"
  shows "good_end env rt0 clk C j' rt'"
  using seek_source_Suspended [OF d]
proof
  assume "rt_sources rt \<noteq> None \<and> j' = j\<lparr>jb_stage := Binding paid\<rparr> \<and> rt' = rt"
  moreover have "clk 3 \<le> clk 7" using clk(1) by (simp add: monoD)
  ultimately show ?thesis using clk(2) paid by (auto simp: good_end_def job_ok_def split: option.split)
next
  assume "rt_sources rt = None \<and> deliver env clk j None paid rt = (Inr (Suspended j'), rt')"
  then show ?thesis using same by (intro deliver_good [OF C clk _ paid]) (auto simp: same_parts_def)
qed

lemma segment_good:
  assumes w: "world_ok env rt0 w" and clk: "mono clk" "w_now w \<le> clk 0"
    and m: "segment env clk ev w = Some m" "m (w_runtime w) = (Inr (Suspended j'), rt')"
  shows "good_end env rt0 clk ((\<lambda>e. (claim_key env (se_payment e), se_commit e)) ` set (w_settled w)) j' rt'"
proof -
  let ?C = "(\<lambda>e. (claim_key env (se_payment e), se_commit e)) ` set (w_settled w)"
  have same: "same_parts rt0 (w_runtime w)" and C: "claims_ok ?C (clk 0) (w_runtime w)"
    and jobs: "\<And>i j. w_jobs w i = Some j \<Longrightarrow> job_ok env rt0 (clk 0) j"
    using w clk(2) by (auto simp: world_ok_def intro: claims_ok_later job_ok_later)
  have later: "clk 0 \<le> clk 3" "clk 0 \<le> clk 2" "clk 2 \<le> clk 3" "clk 1 \<le> clk 7" using clk(1) by (simp_all add: monoD)
  from m(1) show ?thesis
  proof (cases rule: segment_cases)
    case (start i rq token wall)
    from start_request_Suspended [OF m(2) [unfolded start(3)]] show ?thesis
      using same later by (auto simp: good_end_def job_ok_def checked_def same_parts_def)
  next
    case (verified i token answer j vp)
    obtain vp' rv rt1 where a: "claim_authorization env clk token (jb_fingerprint j) vp answer (w_runtime w)
          = (Inr (vp', rv), rt1)"
      and s: "seek_source env clk j (Some (vp', rv)) rt1 = (Inr (Suspended j'), rt')"
      using m(2) verified(4) by (auto simp: after_verify_def st_bind_Inr)
    have q: "quiet clk 0 2 (claim_authorization env clk token (jb_fingerprint j) vp answer)"
      unfolding claim_authorization_def using clk(1)
      by (auto split: idem_decision.split intro!: quiet_bind [where b = 0] quiet_bind [where b = 2] quiets)
    have "claims_ok ?C (clk 3) rt1" "same_parts rt0 rt1"
      using quietD [OF q C a] later same by (auto intro: claims_ok_later same_parts_trans)
    then show ?thesis
      using claim_authorization_Inr [OF C a] jobs [OF verified(2)] verified(3) later
      by (intro seek_source_good [OF _ clk(1) _ s]) (auto simp: job_ok_def)
  next
    case (resolved i res j paid)
    obtain so where "res = Resolved so" and d: "deliver env clk j (Some so) paid (w_runtime w) = (Inr (Suspended j'), rt')"
      using m(2) resolved(4) by (cases res) (auto simp: after_resolve_def)
    then show ?thesis
      using jobs [OF resolved(2)] resolved(3) later claims_ok_later [OF C later(1)]
      by (intro deliver_good [OF _ clk(1) _ d]) (auto simp: job_ok_def)
  next
    case (settled i answer j vp body)
    then show ?thesis
      using m(2) by (auto simp: after_settle_def st_bind_Inr split: option.splits sum.splits)
  qed
qed

section \<open>Every history\<close>

lemma claims_ok_union: "claims_ok (A \<union> B) T rt \<longleftrightarrow> claims_ok A T rt \<and> claims_ok B T rt"
  by (auto simp: claims_ok_def)

lemma world_ok_step:
  assumes w: "world_ok env rt0 w" and clk: "mono clk" "w_now w \<le> clk 0"
    and ev: "segment env clk ev w = Some m" "m (w_runtime w) = (r, rt')"
  shows "world_ok env rt0 (w\<lparr>w_runtime := rt',
      w_jobs := (w_jobs w)(event_job ev := (case r of Inr (Suspended j) \<Rightarrow> Some j | _ \<Rightarrow> None)),
      w_now := clk 7, w_settled := w_settled w @ settlements clk r\<rparr>)"
proof -
  let ?keys = "\<lambda>L. (\<lambda>e. (claim_key env (se_payment e), se_commit e)) ` set L"
  let ?C = "?keys (w_settled w)"
  have C: "claims_ok ?C (clk 0) (w_runtime w)" using w clk(2) by (auto simp: world_ok_def intro: claims_ok_later)
  have q: "claims_ok ?C (clk 7) rt'" "same_parts rt0 rt'"
    using quietD [OF quiet_segment [OF clk(1) ev(1)] C ev(2)] w by (auto simp: world_ok_def intro: same_parts_trans)
  have late: "w_now w \<le> clk 7" "clk 3 \<le> clk 7" "w_now w \<le> clk 3"
    using clk monoD [OF clk(1), of 0 7] monoD [OF clk(1), of 3 7] monoD [OF clk(1), of 0 3] by auto
  have good: "good_end env rt0 clk ?C j rt'" if "r = Inr (Suspended j)" for j
    using segment_good [OF w clk ev(1)] ev(2) that by simp
  have jobs: "job_ok env rt0 (clk 7) j"
    if "((w_jobs w)(event_job ev := (case r of Inr (Suspended j) \<Rightarrow> Some j | _ \<Rightarrow> None))) i = Some j" for i j
    using that good w late(1)
    by (auto simp: world_ok_def good_end_def split: if_splits sum.splits progress.splits intro: job_ok_later)
  show ?thesis
  proof (cases "settlements clk r")
    case Nil
    then show ?thesis using w q jobs late by (fastforce simp: world_ok_def)
  next
    case (Cons e L)
    obtain j vp body where r: "r = Inr (Suspended j)" "jb_stage j = Settling vp body" and L: "L = []"
      and e: "e = \<lparr>se_payment = vp, se_job = j, se_body = body, se_start = jb_start j, se_wall = jb_wall j, se_commit = clk 3\<rparr>"
      using Cons by (auto simp: settlements_def split: sum.splits progress.splits stage.splits)
    from good [OF r(1)] r(2) have g: "claims_ok {(claim_key env vp, clk 3)} (clk 7) rt'"
      "\<forall>(k, c)\<in>?C. k = claim_key env vp \<longrightarrow> c + 900 \<le> clk 3" "justified env rt0 e"
      by (auto simp: good_end_def justified_def e)
    have "c \<le> clk 3 \<and> (a = vp_authorization vp \<longrightarrow> c + 900 \<le> clk 3)" if mem: "(a, c) \<in> set (map spent (w_settled w))" for a c
    proof -
      obtain e' where e': "e' \<in> set (w_settled w)" "a = vp_authorization (se_payment e')" "c = se_commit e'"
        using mem by (auto simp: spent_def)
      then have "c \<le> w_now w" "(claim_key env (se_payment e'), c) \<in> ?C" using w by (auto simp: world_ok_def)
      then show ?thesis using g(2) e'(2) late(3) by (auto simp: claim_key_def)
    qed
    then have "\<forall>(a, c)\<in>set (map spent (w_settled w)). c \<le> clk 3 \<and> (a = vp_authorization vp \<longrightarrow> c + 900 \<le> clk 3)"
      by blast
    then have "ledger (map spent (w_settled w) @ [(vp_authorization vp, clk 3)])"
      using w by (intro ledger.spend) (simp_all add: world_ok_def)
    then have "ledger (map spent (w_settled w) @ [spent e])" by (simp add: spent_def e)
    moreover have "claims_ok (?keys (w_settled w @ [e])) (clk 7) rt'"
      using q(1) g(1) claims_ok_union [of "?C" "{(claim_key env vp, clk 3)}"] by (simp add: e insert_commute Un_commute)
    moreover have "justified env rt0 e' \<and> se_commit e' \<le> clk 7" if "e' \<in> set (w_settled w @ [e])" for e'
      using that w g(3) late by (auto simp: world_ok_def e)
    ultimately show ?thesis using w q(2) jobs Cons L unfolding world_ok_def by simp
  qed
qed

lemma serve_ok:
  assumes "world_ok env rt0 w" "mono clk" "w_now w \<le> clk 0" "serve env clk ev w = (a, w')"
  shows "world_ok env rt0 w'"
proof (cases "\<exists>i. ev = Cancelled i")
  case True
  then show ?thesis using assms by (auto simp: serve_def world_ok_def split: if_splits)
next
  case False
  then have s: "serve env clk ev w = (case segment env clk ev w of None \<Rightarrow> (None, w) | Some m \<Rightarrow>
      (case m (w_runtime w) of (r, rt) \<Rightarrow>
         (case r of Inl f \<Rightarrow> Some (Inl f) | Inr (Finished a) \<Rightarrow> Some (Inr a) | Inr (Suspended _) \<Rightarrow> None,
          w\<lparr>w_runtime := rt,
            w_jobs := (w_jobs w)(event_job ev := (case r of Inr (Suspended j) \<Rightarrow> Some j | _ \<Rightarrow> None)),
            w_now := clk 7, w_settled := w_settled w @ settlements clk r\<rparr>)))"
    by (simp add: serve_def split: event.split)
  show ?thesis
  proof (cases "segment env clk ev w")
    case None
    then show ?thesis using assms s by simp
  next
    case (Some m)
    obtain r rt' where "m (w_runtime w) = (r, rt')" by fastforce
    with world_ok_step [OF assms(1-3) Some this] show ?thesis using assms(4) s Some by auto
  qed
qed

lemma reaches_ok:
  assumes "reaches env (fresh_world rt t0) w" "\<forall>s. rt_claims rt = Some s \<longrightarrow> paid_store_ok s"
  shows "world_ok env rt w"
  using assms(1)
proof (induction rule: reaches.induct)
  case here
  then show ?case using assms(2) by (auto simp: world_ok_def fresh_world_def claims_ok_def intro: ledger.empty)
next
  case (event w clk ev r w')
  then show ?case by (blast intro: serve_ok)
qed

text \<open>Where payments are sold, a runtime from the environment has a source cache.\<close>

lemma env_runtime_ok:
  assumes "runtime_from_env b loads client given env_vars = Inr rt" "reaches env (fresh_world rt t0) w"
  shows "world_ok env rt w" "rt_payments rt \<noteq> None \<longrightarrow> rt_sources rt \<noteq> None"
proof -
  obtain st where st: "settings_from_env b loads env_vars = Inr st" and rt: "runtime_of client given st = Inr rt"
    using assms(1) by (auto simp: runtime_from_env_def res_bind_Inr_iff)
  show "world_ok env rt w" using runtime_of_Inr [OF rt] by (intro reaches_ok [OF assms(2)]) simp
  show "rt_payments rt \<noteq> None \<longrightarrow> rt_sources rt \<noteq> None"
    using runtime_of_Inr [OF rt] settings_from_env_Inr [OF st] by auto
qed

section \<open>The expiry of an authorization\<close>

lemma digits_value_nat_str: "digits_value (nat_str n) = int n"
proof -
  have "foldl (\<lambda>n c. 10 * n + (int (code c) - 48)) (int m) (filter is_digit (map (\<lambda>d. char_of (48 + d)) ds))
      = int (foldl (\<lambda>n d. 10 * n + d) m ds)" if "\<forall>d\<in>set ds. d < 10" for ds m
    using that
  proof (induction ds arbitrary: m)
    case (Cons d ds)
    then show ?case using Cons.IH [of "10 * m + d"] by (simp add: is_digit_def in_range_def)
  qed simp
  from this [of "nat_digits 10 n" 0] show ?thesis
    using nat_digits_less [of 10] by (auto simp: digits_value_def nat_str_def nat_digits_foldl)
qed

lemma decimal_text_value:
  assumes "decimal_text v = Some s" shows "digits_value s = decimal_value v"
proof -
  have str: "digits_value (int_str i) = i" if "0 \<le> i" for i
    using that by (simp add: int_str_def digits_value_nat_str)
  have minus: "\<not> is_decimal (int_str i)" if "i < 0" for i
    using that by (simp add: int_str_def is_decimal_def is_digit_def in_range_def code_def)
  show ?thesis
  proof (cases v)
    case (PInt i)
    then show ?thesis using assms minus [of i] str by (cases "i < 0") (auto simp: decimal_text_def decimal_value_def split: if_splits)
  next
    case (PStr t)
    then show ?thesis using assms str digits_value_nonneg [of t]
      by (auto simp: decimal_text_def decimal_value_def split: if_splits)
  qed (use assms in \<open>simp_all add: decimal_text_def\<close>)
qed

definition valid_before :: "verified_payment \<Rightarrow> int" where
  "valid_before vp = decimal_value (dget (the (authorization_of (vp_payload vp))) ''validBefore'')"

lemma verified_window:
  assumes "verify_locally x g clk sig expected = Inr vp"
  shows "\<exists>now. clk = Some (Finite now) \<and> now < of_int (valid_before vp)
    \<and> of_int (valid_before vp) \<le> now + of_int (gw_timeout g)"
  using verify_locally_Inr [OF assms] by (auto simp: valid_before_def in_window_def)

text \<open>One fingerprint, one transfer: the expiry is part of what it names.\<close>

lemma same_expiry:
  assumes "inj (xl_sha256 x)"
    and "verify_locally x g clk sig expected = Inr vp" "verify_locally x g clk' sig' expected' = Inr vp'"
    and "vp_authorization vp = vp_authorization vp'"
  shows "valid_before vp = valid_before vp'"
proof -
  obtain rq f a t where 1: "require_enabled g = Inr (rq, f)" "authorization_of (vp_payload vp) = Some a"
    "read_transfer a rq = Inr t" "authorization_fingerprint x (vp_payload vp) rq = Inr (vp_authorization vp)"
    using verify_locally_Inr [OF assms(2)] by blast
  obtain a' t' where 2: "authorization_of (vp_payload vp') = Some a'"
    "read_transfer a' rq = Inr t'" "authorization_fingerprint x (vp_payload vp') rq = Inr (vp_authorization vp')"
    using verify_locally_Inr [OF assms(3)] 1(1) by auto
  obtain b b' where b: "canonical_bytes (xl_float_text x) (transfer_json rq t) = Some b"
      "canonical_bytes (xl_float_text x) (transfer_json rq t') = Some b'"
    and h: "''sha256:'' @ bytes_hex (xl_sha256 x b) = ''sha256:'' @ bytes_hex (xl_sha256 x b')"
    using authorization_fingerprint_Inr [OF 1(4)] authorization_fingerprint_Inr [OF 2(3)] 1(2,3) 2(1,2) assms(4)
    by auto
  then have "b = b'" using assms(1) by (auto simp: inj_eq dest: hex_bytes_inj)
  then have "t = t'" using b transfer_json_inj [OF 1(3) 2(2), of "xl_float_text x"] by simp
  then show ?thesis
    using decimal_text_value [OF read_transfer_Inr(6) [OF 1(3)]] decimal_text_value [OF read_transfer_Inr(6) [OF 2(2)]] 1(2) 2(1)
    by (simp add: valid_before_def)
qed

lemma begin_payment_Inr:
  assumes "begin_payment env wall rq payments = Inr vp"
  shows "\<exists>g sig. payments = Some g \<and> aq_signature rq = Some sig
    \<and> verify_locally (ax_x402 env) g wall (PStr sig) (aq_idempotency_key rq) = Inr vp"
  using assms
  by (auto simp: begin_payment_def map_failure_def split: option.splits if_splits sum.splits)

end
