(* ===== verification/Api_Run.thy ===== *)
theory Api_Run
  imports Api_Safety
begin

text \<open>
  A service in a small environment, and one paid request through it: admitted, verified,
  bound to its source, and settled.
\<close>

section \<open>The environment\<close>

text \<open>The text the payer signed, which this hash (a bijection) maps to the empty digest.\<close>

definition run_signed :: bytes where
  "run_signed = the (canonical_bytes (\<lambda>r. [])
     (transfer_json toy_requirements (projr (read_transfer toy_authorization toy_requirements))))"

definition run_hash :: "bytes \<Rightarrow> bytes" where
  "run_hash b = (if b = run_signed then [] else if b = [] then run_signed else b)"

lemma inj_run_hash: "inj run_hash"
  by (auto simp: inj_def run_hash_def split: if_splits)

definition run_proof :: pay_proof where
  "run_proof = toy_proof\<lparr>pf_resource := Some ''https://lucent.example:443/v1/preflight''\<rparr>"

definition run_x402 :: x402_lib where
  "run_x402 = toy_x402\<lparr>xl_decode := (\<lambda>s. Decoded run_proof), xl_sha256 := run_hash\<rparr>"

definition run_prose :: prose where
  "run_prose = \<lparr>px_verdict = (\<lambda>v. []), px_sentence = (\<lambda>c. []), px_reason = (\<lambda>c. []), px_tier = (\<lambda>s. []),
     px_comprehension = (\<lambda>c. PNone), px_audit = (\<lambda>f. PNone), px_binding = (\<lambda>f. PNone), px_danger = (\<lambda>f. PNone)\<rparr>"

definition run_env :: api_env where
  "run_env = \<lparr>ax_preflight = toy_env, ax_x402 = run_x402, ax_prose = run_prose,
     ax_source_loads = (\<lambda>b. toy_transfer_abi), ax_render = (\<lambda>v. Some [123, 125]), ax_loads = (\<lambda>b. None)\<rparr>"

definition run_code :: code_identity where
  "run_code = \<lparr>ci_address = toy_address, ci_keccak = ''0x00'', ci_size = 3\<rparr>"

definition run_source :: verified_source where
  "run_source = \<lparr>so_chain = 1, so_address = toy_address, so_block = \<lparr>bi_number = 7, bi_hash = ''0x01''\<rparr>,
     so_target = run_code, so_effective = run_code, so_proxies = [], so_match = ''exact_match'',
     so_abi_hash = ''sha256:00'', so_abi_json = []\<rparr>"

definition run_request :: api_request where
  "run_request = \<lparr>aq_dump = toy_request, aq_idempotency_key = Some ''key-1'', aq_api_key = None,
     aq_signature = Some ''sig'', aq_request_id = ''request''\<rparr>"

section \<open>The payment\<close>

lemma run_fingerprint: "authorization_fingerprint run_x402 run_proof toy_requirements = Inr ''sha256:''"
proof -
  obtain t where t: "read_transfer toy_authorization toy_requirements = Inr t"
  proof -
    have "succeeds (read_transfer toy_authorization toy_requirements)" by code_simp
    then show ?thesis using that by (auto simp: succeeds_def)
  qed
  obtain b where b: "canonical_bytes (\<lambda>r. []) (transfer_json toy_requirements t) = Some b"
    by (simp add: canonical_bytes_def transfer_text)
  have "run_hash b = []" by (simp add: run_hash_def run_signed_def t b)
  moreover have "authorization_of run_proof = Some toy_authorization"
    by (simp add: authorization_of_def run_proof_def toy_proof_def)
  ultimately show ?thesis
    by (simp add: authorization_fingerprint_def t b run_x402_def toy_x402_def bytes_hex_def)
qed

lemma run_verifies:
  assumes "require_enabled g = Inr (toy_requirements, f)" "gw_timeout g = 300"
    and "pc_resource (gw_config g) = Some ''https://lucent.example:443/v1/preflight''"
  shows "\<exists>vp. verify_locally run_x402 g (Some (Finite 2)) (PStr ''sig'') (Some ''key-1'') = Inr vp
    \<and> vp_authorization vp = ''sha256:''"
proof -
  have "read_proof run_x402 (PStr ''sig'') = Inr (''sig'', run_proof)"
    by (simp add: read_proof_def Let_def run_x402_def toy_x402_def run_proof_def toy_proof_def is_ascii_def code_def
        utf8_def utf8_char_def MAX_PAYMENT_HEADER_BYTES_def)
  moreover have "check_terms run_x402 g toy_requirements (Some ''key-1'') run_proof = Inr ''key-1''"
    by (simp add: check_terms_def run_x402_def toy_x402_def run_proof_def toy_proof_def assms(3) py_eq_def)
  moreover have "authorization_of run_proof = Some toy_authorization"
    by (simp add: authorization_of_def run_proof_def toy_proof_def)
  moreover have "check_window g (Some (Finite 2)) toy_authorization = Inr ()"
  proof -
    have "decimal_value (dget toy_authorization ''validAfter'') = 1" "decimal_value (dget toy_authorization ''validBefore'') = 4"
      by code_simp+
    then show ?thesis by (simp add: check_window_def assms(2))
  qed
  ultimately show ?thesis by (simp add: verify_locally_def assms(1) run_fingerprint)
qed

lemma run_begins:
  assumes "require_enabled g = Inr (toy_requirements, f)" "gw_timeout g = 300"
    and "pc_resource (gw_config g) = Some ''https://lucent.example:443/v1/preflight''"
  obtains vp where "begin_payment run_env (Some (Finite 2)) run_request (Some g) = Inr vp"
    "vp_authorization vp = ''sha256:''"
proof -
  obtain vp where vp: "verify_locally run_x402 g (Some (Finite 2)) (PStr ''sig'') (Some ''key-1'') = Inr vp"
    "vp_authorization vp = ''sha256:''" using run_verifies [OF assms] by blast
  have "begin_payment run_env (Some (Finite 2)) run_request (Some g) = Inr vp"
    using vp(1) by (simp add: begin_payment_def run_request_def run_env_def toy_request_def toy_request_for_def
        RPC_ENDPOINTS_def dget_def map_failure_def)
  with vp(2) show ?thesis using that by blast
qed

section \<open>The stores\<close>

lemma run_reserve:
  assumes "payment_store = Inr s \<or> claim_store = Inr s"
    and "tenant = ''x402'' \<or> tenant = ''x402-authorization''" "key = ''key-1'' \<or> key = ''sha256:''"
    and "fp \<noteq> []" "length (utf8 fp) \<le> 256"
  shows "\<exists>rv s'. reserve h (PFloat (Finite 0)) token (PStr tenant) (PStr key) (PStr fp) s = (Inr (Reserved rv), s')
    \<and> rv_expires_at rv = 120
    \<and> (\<exists>e. is_entries s' = [(rv_key rv, e)] \<and> owns (Some e) rv \<and> ie_expires_at e = 120
         \<and> is_reserved_bytes s' = ie_reserved_bytes e)
    \<and> is_max_response_bytes s' = is_max_response_bytes s \<and> is_max_response_bytes s' \<le> is_max_total_response_bytes s'
    \<and> 1024 \<le> is_max_response_bytes s'
    \<and> \<not> is_evict_completed s' \<and> is_cached_bytes s' = 0"
proof -
  have s: "is_entries s = []" "\<not> is_evict_completed s" "is_cached_bytes s = 0" "is_reserved_bytes s = 0"
      "is_reservation_ttl s = 120" "0 < is_max_entries s" "is_max_response_bytes s \<le> is_max_total_response_bytes s"
      "1024 \<le> is_max_response_bytes s"
    using assms(1)
    by (auto simp: payment_store_def claim_store_def make_store_def res_bind_Inr_iff positive_finite_def
        positive_int_def PROTECTED_RESERVATION_TTL_SECONDS_def PAYMENT_CLAIM_TTL_SECONDS_def
        MAX_RESULT_CACHE_ENTRIES_def MAX_CACHED_RESULT_BYTES_def MAX_RESULT_CACHE_BYTES_def
        MAX_PAYMENT_CLAIM_ENTRIES_def MAX_PAYMENT_CLAIM_CACHE_BYTES_def guard_def split: if_splits)
  have t: "bounded_text (PStr tenant) n MAX_TENANT_ID_BYTES = Inr tenant"
      "bounded_text (PStr key) n MAX_IDEMPOTENCY_KEY_BYTES = Inr key"
      "bounded_text (PStr fp) n MAX_FINGERPRINT_BYTES = Inr fp" for n
    using assms(2-5) utf8_length_ascii [of tenant] utf8_length_ascii [of key]
    by (auto simp: bounded_text_Inr MAX_TENANT_ID_BYTES_def MAX_IDEMPOTENCY_KEY_BYTES_def MAX_FINGERPRINT_BYTES_def
        is_ascii_def code_def)
  show ?thesis
    using s by (simp add: reserve_def t locked_def now_of_def expire_def reserve_body_def make_room_def
        st_bind_def Let_def rv_key_def owns_def)
qed

lemma run_tombstone: "\<exists>t. tombstone = Inr t \<and> size_bytes t \<le> 1024"
proof -
  have "check_header (PTuple [PStr ''Content-Type'', PStr ''application/octet-stream''])
      = Inr (''Content-Type'', ''application/octet-stream'')" by code_simp
  moreover have "size_bytes \<lparr>ir_status = 204, ir_body = [], ir_headers = [(''Content-Type'', ''application/octet-stream'')]\<rparr> \<le> 1024"
    by code_simp
  ultimately show ?thesis
    by (simp add: tombstone_def from_parts_def make_response_def text_items_def MAX_CACHED_HEADERS_def map_failure_def)
qed

lemma run_commit:
  assumes "is_entries s = [(rv_key rv, e)]" "owns (Some e) rv" "ie_expires_at e = 120"
    and "is_reserved_bytes s = ie_reserved_bytes e" "is_cached_bytes s = 0" "\<not> is_evict_completed s"
    and "1024 \<le> is_max_response_bytes s" "is_max_response_bytes s \<le> is_max_total_response_bytes s" "size_bytes t \<le> 1024"
  shows "\<exists>s'. commit (PFloat (Finite 0)) rv t s = (Inr (), s')"
proof -
  have "\<not> is_max_response_bytes s < size_bytes t" "\<not> is_max_total_response_bytes s < size_bytes t"
    using assms(7-9) by linarith+
  then show ?thesis
    using assms(1-6)
    by (simp add: commit_def locked_def now_of_def expire_def st_bind_def commit_body_def Let_def)
qed

section \<open>The verdict\<close>

lemma run_bound:
  assumes "preflight_transaction toy_env toy_request = Inr r"
  shows "bind_source run_env toy_request run_source = Inr r"
proof -
  have "same_deployment (dict_items (dget (dict_items toy_request) ''transaction'')) run_source"
    by (simp add: same_deployment_def toy_request_def toy_request_for_def run_source_def dict_items_def dget_def)
  moreover have "set_at [''descriptor'', ''context'', ''contract'', ''abi''] toy_transfer_abi toy_request = Some toy_request"
    by (simp add: toy_request_def toy_request_for_def toy_transfer_descriptor_def toy_descriptor_for_def)
  ultimately show ?thesis
    using assms
    by (simp add: bind_source_def toy_request_def toy_request_for_def run_env_def run_source_def source_abi_def
        dict_items_def dget_def map_failure_def)
qed

lemma canonical_ok: "json_ok v \<Longrightarrow> \<exists>b. ax_canonical env v = Some b"
  using json_text_defined [of "ax_float_text env" True False v] by (auto simp: ax_canonical_def canonical_bytes_def)

lemma json_ok_update:
  "json_ok (PDict d) \<Longrightarrow> json_ok v \<Longrightarrow> json_ok (PDict (AList.update k v d))"
  by (induction d) auto

lemma run_body:
  assumes "pr_decoded r = toy_transfer_args"
  shows "response_body run_env ''request'' (bound_dict run_prose run_source r) = Inr [123, 125]"
proof -
  have parts: "json_ok (PList (map PStr xs))" "json_ok (PList (map (px_audit run_prose) as))"
      "json_ok (PList (map (px_binding run_prose) bs))" "json_ok (PList (map (px_danger run_prose) ds))"
      "json_ok (px_comprehension run_prose c)" for xs as bs ds c
    by (simp_all add: run_prose_def list.pred_map comp_def list_all_length)
  have args: "json_ok (PList (map argument_dict (pr_decoded r)))"
    by (simp add: assms toy_transfer_args_def argument_dict_def)
  have assurance: "json_ok (PDict baseline_assurance)" by (simp add: baseline_assurance_def)
  have worst: "json_ok (case pr_worst r of None \<Rightarrow> PNone | Some v \<Rightarrow> PStr (px_tier run_prose v))"
    by (simp split: option.split)
  have base: "json_ok (PDict (report_dict run_prose r))"
    unfolding report_dict_def by (simp del: json_ok.simps(3) add: parts args assurance [simplified] worst)
  have source: "json_ok (verified_source_summary run_source)"
    by (simp add: verified_source_summary_def run_source_def block_dict_def code_dict_def run_code_def)
  have scalars: "json_ok (PBool q)" "json_ok (PStr t)" for q t by simp_all
  have "json_ok (PDict (bound_dict run_prose run_source r))"
    unfolding bound_dict_def
    by (rule json_ok_update [OF json_ok_update [OF base
          json_ok_update [OF json_ok_update [OF json_ok_update [OF assurance scalars(2)] scalars(1)] source]] parts(1)])
  then obtain b where "ax_canonical run_env (PDict (bound_dict run_prose run_source r)) = Some b"
    using canonical_ok by blast
  moreover have "ax_render run_env v = Some [123, 125]" for v by (simp add: run_env_def)
  ultimately show ?thesis
    by (simp add: response_body_def assessment_fingerprint_def MAX_CACHED_RESULT_BYTES_def)
qed

lemma run_delivered:
  obtains r where "preflight_transaction toy_env toy_request = Inr r"
    "result_dict run_env toy_request b (Some run_source) = Inr (bound_dict run_prose run_source r)"
    "response_body run_env ''request'' (bound_dict run_prose run_source r) = Inr [123, 125]"
proof -
  obtain r where r: "preflight_transaction toy_env toy_request = Inr r" "pr_decoded r = toy_transfer_args"
    using toy_preflight by blast
  have "result_dict run_env toy_request b (Some run_source) = Inr (bound_dict run_prose run_source r)"
    using run_bound [OF r(1)] by (simp add: result_dict_def run_env_def)
  with r(1) run_body [OF r(2)] that show ?thesis by blast
qed

lemma run_request_fingerprint:
  "\<exists>fp. canonical_request_fingerprint run_env toy_request = Inr fp \<and> fp \<noteq> [] \<and> length (utf8 fp) \<le> 256"
proof -
  have "json_ok toy_request" using toy_json_ok by (simp add: toy_request_def toy_request_for_def)
  then obtain b where b: "ax_canonical run_env toy_request = Some b"
    using canonical_ok by blast
  let ?fp = "''sha256:'' @ bytes_hex (take 32 b)"
  have "is_ascii (bytes_hex bs)" for bs
    using bytes_hex_lower [of bs] by (auto simp: is_ascii_def list_all_iff is_lower_hex_def is_digit_def in_range_def)
  then have "is_ascii ?fp" by (simp add: is_ascii_def code_def)
  then have "length (utf8 ?fp) = length ?fp" by (rule utf8_length_ascii)
  then have "length (utf8 ?fp) \<le> 256" by simp
  moreover have "ax_sha256 run_env = take 32" by (simp add: ax_sha256_def run_env_def toy_env_def)
  ultimately show ?thesis
    by (simp add: canonical_request_fingerprint_def b fingerprint_request_def API_KEY_HASH_PREFIX_def map_failure_def)
qed

section \<open>The run\<close>

definition run_clock :: clock where "run_clock i = 0"

lemma run_reading [simp]: "reading run_clock i = PFloat (Finite 0)"
  by (simp add: reading_def run_clock_def)

lemma run_start:
  assumes "hs_mode (rt_settings rt) = X402" "rt_payments rt = Some g"
    and "require_enabled g = Inr (toy_requirements, f)" "gw_timeout g = 300"
    and "pc_resource (gw_config g) = Some ''https://lucent.example:443/v1/preflight''"
    and "payment_store = Inr ps" "rt_payment_store rt = Some ps"
  shows "\<exists>j vp ps'. start_request run_env run_clock (Some (Finite 2)) ''token'' run_request rt
      = (Inr (Suspended j), rt\<lparr>rt_payment_store := Some ps'\<rparr>)
    \<and> jb_stage j = Verifying vp \<and> vp_authorization vp = ''sha256:'' \<and> jb_request j = run_request
    \<and> jb_fingerprint j \<noteq> [] \<and> length (utf8 (jb_fingerprint j)) \<le> 256
    \<and> jb_start j = 0 \<and> jb_wall j = Some (Finite 2)"
proof -
  obtain fp where fp: "canonical_request_fingerprint run_env toy_request = Inr fp" "fp \<noteq> []" "length (utf8 fp) \<le> 256"
    using run_request_fingerprint by blast
  obtain r where r: "preflight_transaction toy_env toy_request = Inr r" using toy_preflight by blast
  obtain vp where vp: "begin_payment run_env (Some (Finite 2)) run_request (Some g) = Inr vp"
    "vp_authorization vp = ''sha256:''" using run_begins [OF assms(3-5)] by blast
  obtain rv ps' where res: "reserve (ax_sha256 run_env) (PFloat (Finite 0)) ''token'' (PStr ''x402'') (PStr ''key-1'') (PStr fp) ps
      = (Inr (Reserved rv), ps')"
    using run_reserve [of ps "''x402''" "''key-1''" fp] assms(6) fp(2,3) by blast
  let ?ad = "\<lparr>ad_label = ''x402'', ad_headers = access_header ''x402'',
      ad_reservation = Some (PaymentStore, rv), ad_paid = True\<rparr>"
  have fields: "aq_dump run_request = toy_request" "aq_api_key run_request = None" "aq_signature run_request = Some ''sig''"
    "header_value (aq_idempotency_key run_request) = PStr ''key-1''" "ax_preflight run_env = toy_env"
    by (simp_all add: run_request_def header_value_def run_env_def)
  have "admit run_env run_clock ''token'' run_request fp rt = (Inr (Admitted ?ad), rt\<lparr>rt_payment_store := Some ps'\<rparr>)"
    using assms(1,7) res
    by (simp add: admit_def admit_payer_def fields st_bind_def on_payments_def map_failure_def lift_def uses_api_keys_def)
  moreover have "\<exists>j. begin_analysis run_env run_clock (Some (Finite 2)) run_request fp ?ad (rt\<lparr>rt_payment_store := Some ps'\<rparr>)
      = (Inr (Suspended j), rt\<lparr>rt_payment_store := Some ps'\<rparr>)
    \<and> jb_stage j = Verifying vp \<and> jb_request j = run_request \<and> jb_fingerprint j = fp
    \<and> jb_start j = 0 \<and> jb_wall j = Some (Finite 2)"
    using vp(1) assms(2)
    by (simp add: begin_analysis_def fields r Let_def map_failure_def guarded_def st_bind_def lift_def run_clock_def)
  ultimately show ?thesis
    using vp(2) fp assms(1) by (fastforce simp: start_request_def fields st_bind_def)
qed

lemma run_claim:
  assumes "claim_store = Inr cs" "rt_claims rt = Some cs" "rt_sources rt \<noteq> None"
    and "vp_authorization vp = ''sha256:''" "jb_fingerprint j \<noteq> []" "length (utf8 (jb_fingerprint j)) \<le> 256"
    and t: "tombstone = Inr t" "size_bytes t \<le> 1024"
  shows "\<exists>rv cs1 cs2. after_verify run_env run_clock ''claim'' j vp (Answer \<lparr>vr_valid = True, vr_payer = None\<rparr>) rt
      = (Inr (Suspended (j\<lparr>jb_stage := Binding (Some (vp, rv))\<rparr>)), rt\<lparr>rt_claims := Some cs1\<rparr>)
    \<and> commit (PFloat (Finite 0)) rv t cs1 = (Inr (), cs2)"
proof -
  obtain rv cs1 where res: "reserve (ax_sha256 run_env) (PFloat (Finite 0)) ''claim'' (PStr ''x402-authorization'')
      (PStr ''sha256:'') (PStr (jb_fingerprint j)) cs = (Inr (Reserved rv), cs1)"
    and cs1: "\<exists>e. is_entries cs1 = [(rv_key rv, e)] \<and> owns (Some e) rv \<and> ie_expires_at e = 120
         \<and> is_reserved_bytes cs1 = ie_reserved_bytes e" "is_max_response_bytes cs1 \<le> is_max_total_response_bytes cs1"
      "1024 \<le> is_max_response_bytes cs1" "\<not> is_evict_completed cs1" "is_cached_bytes cs1 = 0"
    using run_reserve [of cs "''x402-authorization''" "''sha256:''" "jb_fingerprint j" "ax_sha256 run_env" "''claim''"]
      assms(1,5,6) by blast
  have "claim_authorization run_env run_clock ''claim'' (jb_fingerprint j) vp (Answer \<lparr>vr_valid = True, vr_payer = None\<rparr>) rt
      = (Inr (vp, rv), rt\<lparr>rt_claims := Some cs1\<rparr>)"
    using assms(2,4) res
    by (simp add: claim_authorization_def accept_answer_def map_failure_def st_bind_def lift_def on_claims_def)
  then have "after_verify run_env run_clock ''claim'' j vp (Answer \<lparr>vr_valid = True, vr_payer = None\<rparr>) rt
      = (Inr (Suspended (j\<lparr>jb_stage := Binding (Some (vp, rv))\<rparr>)), rt\<lparr>rt_claims := Some cs1\<rparr>)"
    using assms(3) by (auto simp: after_verify_def guarded_def st_bind_def seek_source_def)
  then show ?thesis using cs1 run_commit t(2) by blast
qed

lemma run_settles:
  assumes "jb_request j = run_request" "rt_claims rt = Some cs1" "tombstone = Inr t"
    and "commit (PFloat (Finite 0)) rv t cs1 = (Inr (), cs2)"
  shows "after_resolve run_env run_clock j (Some (vp, rv)) (Resolved run_source) rt
    = (Inr (Suspended (j\<lparr>jb_stage := Settling vp [123, 125]\<rparr>)), rt\<lparr>rt_claims := Some cs2\<rparr>)"
proof -
  obtain r where "result_dict run_env toy_request (jb_baseline j) (Some run_source) = Inr (bound_dict run_prose run_source r)"
    "response_body run_env ''request'' (bound_dict run_prose run_source r) = Inr [123, 125]"
    using run_delivered by blast
  moreover have "aq_dump run_request = toy_request" "aq_request_id run_request = ''request''"
    by (simp_all add: run_request_def)
  ultimately show ?thesis
    by (simp add: after_resolve_def deliver_def guarded_def st_bind_def lift_def on_claims_def map_failure_def assms)
qed

lemma run_step:
  assumes "reaches run_env w0 w" "w_now w = 0" "segment run_env run_clock ev w = Some m"
    and "m (w_runtime w) = (Inr (Suspended j), rt')"
  shows "reaches run_env w0 (w\<lparr>w_runtime := rt', w_jobs := (w_jobs w)(event_job ev := Some j), w_now := 0,
      w_settled := w_settled w @ settlements run_clock (Inr (Suspended j))\<rparr>)"
proof -
  have "mono run_clock" "w_now w \<le> run_clock 0" by (simp_all add: mono_def run_clock_def assms(2))
  moreover have "serve run_env run_clock ev w = (None, w\<lparr>w_runtime := rt', w_jobs := (w_jobs w)(event_job ev := Some j),
      w_now := 0, w_settled := w_settled w @ settlements run_clock (Inr (Suspended j))\<rparr>)"
    using assms(3,4) by (cases ev) (simp_all add: serve_def segment_def run_clock_def)
  ultimately show ?thesis using reaches.event [OF assms(1)] by blast
qed

text \<open>The whole history: three events, and one settlement asked for.\<close>

lemma run_history:
  obtains rt w e where "runtime_from_env (\<lambda>s. True) (\<lambda>s. None) toy_client None toy_environ = Inr rt"
    "reaches run_env (fresh_world rt 0) w" "w_settled w = [e]" "se_start e = 0" "se_commit e = 0"
    "se_wall e = Some (Finite 2)" "se_body e = [123, 125]" "jb_request (se_job e) = run_request"
proof -
  obtain rt g f ps cs where rt: "runtime_from_env (\<lambda>s. True) (\<lambda>s. None) toy_client None toy_environ = Inr rt"
    and m: "hs_mode (rt_settings rt) = X402" and g: "rt_payments rt = Some g" "require_enabled g = Inr (toy_requirements, f)"
      "gw_timeout g = 300" "pc_resource (gw_config g) = Some ''https://lucent.example:443/v1/preflight''"
    and ps: "payment_store = Inr ps" "rt_payment_store rt = Some ps"
    and cs: "claim_store = Inr cs" "rt_claims rt = Some cs" and so: "rt_sources rt \<noteq> None"
    using toy_runtime by blast
  obtain t where t: "tombstone = Inr t" "size_bytes t \<le> 1024" using run_tombstone by blast
  let ?w0 = "fresh_world rt 0"
  obtain j vp ps' where 1: "start_request run_env run_clock (Some (Finite 2)) ''token'' run_request rt
      = (Inr (Suspended j), rt\<lparr>rt_payment_store := Some ps'\<rparr>)"
    and j: "jb_stage j = Verifying vp" "vp_authorization vp = ''sha256:''" "jb_request j = run_request"
      "jb_fingerprint j \<noteq> []" "length (utf8 (jb_fingerprint j)) \<le> 256" "jb_start j = 0" "jb_wall j = Some (Finite 2)"
    using run_start [OF m g(1-4) ps] by blast
  let ?rt1 = "rt\<lparr>rt_payment_store := Some ps'\<rparr>"
  let ?w1 = "?w0\<lparr>w_runtime := ?rt1, w_jobs := (w_jobs ?w0)(0 := Some j), w_now := 0, w_settled := []\<rparr>"
  have r1: "reaches run_env ?w0 ?w1"
    using run_step [OF reaches.here, of ?w0 "Start 0 run_request ''token'' (Some (Finite 2))" _ j ?rt1] 1 j(1)
    by (simp add: segment_def event_job_def fresh_world_def settlements_def)
  obtain rv cs1 cs2 where 2: "after_verify run_env run_clock ''claim'' j vp (Answer \<lparr>vr_valid = True, vr_payer = None\<rparr>) ?rt1
      = (Inr (Suspended (j\<lparr>jb_stage := Binding (Some (vp, rv))\<rparr>)), ?rt1\<lparr>rt_claims := Some cs1\<rparr>)"
    and c: "commit (PFloat (Finite 0)) rv t cs1 = (Inr (), cs2)"
    using run_claim [of cs ?rt1 vp j t] cs so j t by auto
  let ?j2 = "j\<lparr>jb_stage := Binding (Some (vp, rv))\<rparr>" and ?rt2 = "?rt1\<lparr>rt_claims := Some cs1\<rparr>"
  let ?w2 = "?w1\<lparr>w_runtime := ?rt2, w_jobs := (w_jobs ?w1)(0 := Some ?j2), w_now := 0, w_settled := []\<rparr>"
  have r2: "reaches run_env ?w0 ?w2"
    using run_step [OF r1, of "FacilitatorVerified 0 ''claim'' (Answer \<lparr>vr_valid = True, vr_payer = None\<rparr>)" _ ?j2 ?rt2] 2 j(1)
    by (simp add: segment_def event_job_def settlements_def)
  let ?j3 = "?j2\<lparr>jb_stage := Settling vp [123, 125]\<rparr>"
  have 3: "after_resolve run_env run_clock ?j2 (Some (vp, rv)) (Resolved run_source) ?rt2
      = (Inr (Suspended ?j3), ?rt2\<lparr>rt_claims := Some cs2\<rparr>)"
    by (rule run_settles [OF _ _ t(1) c]) (simp_all add: j(3))
  have r3: "reaches run_env ?w0 (?w2\<lparr>w_runtime := ?rt2\<lparr>rt_claims := Some cs2\<rparr>, w_jobs := (w_jobs ?w2)(0 := Some ?j3),
      w_now := 0, w_settled := settlements run_clock (Inr (Suspended ?j3))\<rparr>)"
    using run_step [OF r2, of "SourceAnswered 0 (Resolved run_source)" _ ?j3] 3
    by (simp add: segment_def event_job_def)
  show ?thesis
    by (rule that [OF rt r3], simp add: settlements_def j run_clock_def) (simp_all add: j)
qed

end
