(* ===== verification/Api_Properties.thy ===== *)
theory Api_Properties
  imports Api_Run
begin

text \<open>
  The properties of the service as a whole: payments are spent once and only for a verdict,
  every request ends, and a body is bounded before it is read.
\<close>

section \<open>Settlements\<close>

lemma settlement_checked:
  assumes "world_ok env rt w" "e \<in> set (w_settled w)"
  shows "\<exists>g sig key. rt_payments rt = Some g
    \<and> verify_locally (ax_x402 env) g (se_wall e) (PStr sig) key = Inr (se_payment e)"
proof -
  have "justified env rt e" using assms by (simp add: world_ok_def)
  then have "begin_payment env (jb_wall (se_job e)) (jb_request (se_job e)) (rt_payments rt) = Inr (se_payment e)"
    "se_wall e = jb_wall (se_job e)" by (simp_all add: justified_def checked_def)
  then show ?thesis using begin_payment_Inr by fastforce
qed

text \<open>
  C7: The service refines the ledger. In every history of a service configured from its
  environment, under any interleaving of requests, answers and cancellations, the settlements
  asked for are a run of the specification that spends an authorization only if it was not
  spent in the last 900 seconds.
\<close>

theorem settlements_refine_ledger:
  assumes "runtime_from_env b loads client given env_vars = Inr rt" "reaches env (fresh_world rt t0) w"
  shows "ledger (map (\<lambda>e. (vp_authorization (se_payment e), se_commit e)) (w_settled w))"
proof -
  have "ledger (map spent (w_settled w))" using env_runtime_ok(1) [OF assms] by (simp add: world_ok_def)
  then show ?thesis by (simp add: spent_def [abs_def])
qed

theorem settlements_refine_ledger_witness:
  "\<exists>rt w e. reaches run_env (fresh_world rt 0) w \<and> w_settled w = [e]
     \<and> ledger [(vp_authorization (se_payment e), se_commit e)]"
proof -
  obtain rt w e where r: "runtime_from_env (\<lambda>s. True) (\<lambda>s. None) toy_client None toy_environ = Inr rt"
    "reaches run_env (fresh_world rt 0) w" "w_settled w = [e]" by (rule run_history)
  from settlements_refine_ledger [OF r(1,2)] r(2,3) show ?thesis by auto
qed

text \<open>
  C6: An authorization is settled at most once. While the wall clock and the monotonic clock
  run at the same rate and no request takes ten minutes from its admission to the claim, no
  two settlements that a service with its own facilitator client ever asks for carry the same
  authorization: by the time the claim of one is forgotten, it has expired. SHA-256 is assumed
  not to collide.
\<close>

theorem authorization_settled_once:
  assumes "runtime_from_env b loads client None env_vars = Inr rt" "reaches env (fresh_world rt t0) w"
    and "inj (xl_sha256 (ax_x402 env))"
    and clocks: "\<forall>e\<in>set (w_settled w). \<forall>now. se_wall e = Some (Finite now) \<longrightarrow>
        se_start e + off \<le> now \<and> now \<le> se_commit e + off"
    and prompt: "\<forall>e\<in>set (w_settled w). se_commit e \<le> se_start e + 600"
  shows "distinct (map (\<lambda>e. vp_authorization (se_payment e)) (w_settled w))"
proof -
  let ?L = "w_settled w"
  have ok: "world_ok env rt w" by (rule env_runtime_ok(1) [OF assms(1,2)])
  have led: "ledger (map spent ?L)" using ok by (simp add: world_ok_def)
  obtain st where rt: "runtime_of client None st = Inr rt"
    using assms(1) by (auto simp: runtime_from_env_def res_bind_Inr_iff)
  have gate: "gw_timeout g \<le> 300" if "rt_payments rt = Some g" "require_enabled g = Inr (rq, f)" for g rq f
    using make_gateway_enabled [OF _ that(2)] rt that(1)
    by (auto simp: runtime_of_def res_bind_Inr_iff optional_Inr split: if_splits)
  have "vp_authorization (se_payment (?L ! i)) \<noteq> vp_authorization (se_payment (?L ! j))"
    if ij: "i < j" "j < length ?L" for i j
  proof
    assume same: "vp_authorization (se_payment (?L ! i)) = vp_authorization (se_payment (?L ! j))"
    have mem: "?L ! i \<in> set ?L" "?L ! j \<in> set ?L" using ij by auto
    have late: "se_commit (?L ! i) + 900 \<le> se_commit (?L ! j)"
      using ledger_nth [OF led ij(1)] ij same by (simp add: spent_def)
    obtain g sig key where g: "rt_payments rt = Some g"
      and vi: "verify_locally (ax_x402 env) g (se_wall (?L ! i)) (PStr sig) key = Inr (se_payment (?L ! i))"
      using settlement_checked [OF ok mem(1)] by blast
    obtain sig' key' where
      vj: "verify_locally (ax_x402 env) g (se_wall (?L ! j)) (PStr sig') key' = Inr (se_payment (?L ! j))"
      using settlement_checked [OF ok mem(2)] g by auto
    have exp: "valid_before (se_payment (?L ! i)) = valid_before (se_payment (?L ! j))"
      by (rule same_expiry [OF assms(3) vi vj same])
    obtain ni nj where ni: "se_wall (?L ! i) = Some (Finite ni)"
        "of_int (valid_before (se_payment (?L ! i))) \<le> ni + of_int (gw_timeout g)"
      and nj: "se_wall (?L ! j) = Some (Finite nj)" "nj < of_int (valid_before (se_payment (?L ! j)))"
      using verified_window [OF vi] verified_window [OF vj] by blast
    obtain rq f where "require_enabled g = Inr (rq, f)" using verify_locally_Inr [OF vi] by blast
    then have "of_int (gw_timeout g) \<le> (300 :: rat)" using gate [OF g] by simp
    moreover have "ni \<le> se_commit (?L ! i) + off" using clocks mem(1) ni(1) by blast
    moreover have "se_start (?L ! j) + off \<le> nj" using clocks mem(2) nj(1) by blast
    moreover have "se_commit (?L ! j) \<le> se_start (?L ! j) + 600" using prompt mem(2) by blast
    ultimately show False using late ni(2) nj(2) unfolding exp by linarith
  qed
  then show ?thesis
    by (auto simp: distinct_conv_nth) (metis linorder_neqE_nat)
qed

theorem authorization_settled_once_witness:
  "\<exists>rt w. reaches run_env (fresh_world rt 0) w \<and> w_settled w \<noteq> []
     \<and> distinct (map (\<lambda>e. vp_authorization (se_payment e)) (w_settled w))"
proof -
  obtain rt w e where r: "runtime_from_env (\<lambda>s. True) (\<lambda>s. None) toy_client None toy_environ = Inr rt"
    "reaches run_env (fresh_world rt 0) w" and e: "w_settled w = [e]" "se_start e = 0" "se_commit e = 0"
    "se_wall e = Some (Finite 2)" by (rule run_history)
  have "inj (xl_sha256 (ax_x402 run_env))" using inj_run_hash by (simp add: run_env_def run_x402_def)
  from authorization_settled_once [OF r this, of 2] e
  have "distinct (map (\<lambda>e. vp_authorization (se_payment e)) (w_settled w))" by simp
  moreover have "w_settled w \<noteq> []" using e(1) by simp
  ultimately show ?thesis using r(2) by blast
qed



section \<open>Every request ends\<close>

fun stage_rank :: "job option \<Rightarrow> nat" where
  "stage_rank None = 4"
| "stage_rank (Some j) = (case jb_stage j of Verifying _ \<Rightarrow> 3 | Binding _ \<Rightarrow> 2 | Settling _ _ \<Rightarrow> 1)"

lemma segment_rank:
  assumes "segment env clk ev w = Some m" "m rt = (Inr (Suspended j'), rt')"
  shows "stage_rank (Some j') < stage_rank (w_jobs w (event_job ev))"
  using assms(1)
proof (cases rule: segment_cases)
  case (start i rq token wall)
  then show ?thesis using start_request_Suspended [of env clk wall token rq rt j' rt'] assms(2)
    by (auto simp: event_job_def)
next
  case (verified i token answer j vp)
  obtain p rt1 where "seek_source env clk j (Some p) rt1 = (Inr (Suspended j'), rt')"
    using assms(2) verified(4) by (auto simp: after_verify_def st_bind_Inr)
  from seek_source_Suspended [OF this] show ?thesis
    using verified by (auto simp: event_job_def dest!: deliver_Suspended)
next
  case (resolved i res j paid)
  then show ?thesis
    using assms(2) by (cases res) (auto simp: after_resolve_def event_job_def dest!: deliver_Suspended)
next
  case (settled i answer j vp body)
  then show ?thesis
    using assms(2) by (auto simp: after_settle_def st_bind_Inr split: option.splits sum.splits)
qed

text \<open>
  C22: Every request comes to an end. Each event a request awaits either answers it, with a
  response or with a failure that has one, or brings it strictly closer to its last await:
  after its admission at most three answers from outside complete it. No event leaves a
  request unanswered and forgotten.
\<close>

theorem request_terminates:
  assumes "segment env clk ev w \<noteq> None" "serve env clk ev w = (a, w')"
  shows "(a \<noteq> None \<longleftrightarrow> w_jobs w' (event_job ev) = None)
    \<and> (a = None \<longrightarrow> stage_rank (w_jobs w' (event_job ev)) < stage_rank (w_jobs w (event_job ev)))
    \<and> stage_rank (w_jobs w (event_job ev)) \<le> 4"
proof -
  obtain m where m: "segment env clk ev w = Some m" using assms(1) by blast
  obtain r rt' where r: "m (w_runtime w) = (r, rt')" by fastforce
  have ev: "\<forall>i. ev \<noteq> Cancelled i" using m by (auto simp: segment_def)
  have "(a, w') = (case r of Inl f \<Rightarrow> Some (Inl f) | Inr (Finished x) \<Rightarrow> Some (Inr x) | Inr (Suspended _) \<Rightarrow> None,
      w\<lparr>w_runtime := rt',
        w_jobs := (w_jobs w)(event_job ev := (case r of Inr (Suspended j) \<Rightarrow> Some j | _ \<Rightarrow> None)),
        w_now := clk 7, w_settled := w_settled w @ settlements clk r\<rparr>)"
    using assms(2) m r ev by (simp add: serve_def split: event.splits)
  moreover have "stage_rank x \<le> 4" for x by (cases x) (auto split: stage.split)
  ultimately show ?thesis
    using segment_rank [OF m] r by (auto split: sum.splits progress.splits)
qed

definition disabled_runtime :: runtime where
  "disabled_runtime = \<lparr>rt_settings = \<lparr>hs_mode = Disabled, hs_source_required = False, hs_cache_ttl = 15,
       hs_tenants = [], hs_payment = default_pay_config\<rparr>,
     rt_access = None, rt_payments = None, rt_payment_store = None, rt_claims = None, rt_sources = None\<rparr>"

theorem request_terminates_witness:
  "\<exists>w'. serve run_env run_clock (Start 0 run_request ''token'' None) (fresh_world disabled_runtime 0)
       = (Some (Inr (not_configured ''request'')), w') \<and> w_jobs w' 0 = None"
proof -
  let ?ev = "Start 0 run_request ''token'' None" and ?w = "fresh_world disabled_runtime 0"
  obtain fp where fp: "canonical_request_fingerprint run_env toy_request = Inr fp"
    using run_request_fingerprint by blast
  have seg: "segment run_env run_clock ?ev ?w \<noteq> None" by (simp add: segment_def event_job_def fresh_world_def)
  have "aq_dump run_request = toy_request" "aq_request_id run_request = ''request''" by (simp_all add: run_request_def)
  then obtain w' where w': "serve run_env run_clock ?ev ?w = (Some (Inr (not_configured ''request'')), w')"
    using fp by (simp add: serve_def segment_def event_job_def fresh_world_def start_request_def disabled_runtime_def)
  from request_terminates [OF seg w'] w' show ?thesis by (simp add: event_job_def)
qed

section \<open>The body limit\<close>

definition body_bytes :: "asgi_message \<Rightarrow> nat" where
  "body_bytes m = (case m of HttpRequest b _ \<Rightarrow> length b | _ \<Rightarrow> 0)"

lemma receive_loop_Pass:
  "receive_loop limit received kept ms = Pass out \<Longrightarrow> received \<le> limit \<Longrightarrow>
     \<exists>n. out = kept @ take n ms \<and> received + int (sum_list (map body_bytes (take n ms))) \<le> limit"
proof (induction ms arbitrary: received kept)
  case (Cons m ms)
  show ?case
  proof (cases m)
    case (HttpRequest body more_body)
    then have b: "body_bytes m = length body" by (simp add: body_bytes_def)
    show ?thesis
    proof (cases "limit < received + int (length body) \<or> \<not> more_body")
      case True
      then have "out = kept @ take 1 (m # ms)" "received + int (length body) \<le> limit"
        using Cons.prems HttpRequest by (auto split: if_splits)
      then show ?thesis using b by (intro exI [of _ 1]) simp
    next
      case False
      then have "receive_loop limit (received + int (length body)) (kept @ [m]) ms = Pass out"
        using Cons.prems HttpRequest by simp
      from Cons.IH [OF this] False obtain n where "out = (kept @ [m]) @ take n ms"
        "received + int (length body) + int (sum_list (map body_bytes (take n ms))) \<le> limit" by auto
      then show ?thesis using b by (intro exI [of _ "Suc n"]) (simp add: algebra_simps)
    qed
  next
    case HttpDisconnect
    then show ?thesis using Cons.prems by (intro exI [of _ 1]) (simp add: body_bytes_def)
  next
    case OtherMessage
    from Cons.IH [of received "kept @ [m]"] Cons.prems OtherMessage
    obtain n where "out = (kept @ [m]) @ take n ms" "received + int (sum_list (map body_bytes (take n ms))) \<le> limit"
      by auto
    moreover have "body_bytes m = 0" using OtherMessage by (simp add: body_bytes_def)
    ultimately show ?thesis by (intro exI [of _ "Suc n"]) simp
  qed
qed simp

text \<open>
  C23: The application never sees a body above the limit. The messages it can read are the
  messages that arrived, in order and without gaps, then empty ones; together their bodies
  are within the limit, whatever length the request declares or omits. A declared length
  above the limit is refused before a byte is read.
\<close>

theorem body_limit:
  assumes "0 \<le> limit"
  shows "(\<forall>out. body_gate limit headers arrived = Pass out \<longrightarrow>
      (\<exists>n. out = take n arrived \<and> int (sum_list (map body_bytes out)) \<le> limit
         \<and> (\<forall>i. replay_receive out i = (if i < length out then arrived ! i else HttpRequest [] False))))
    \<and> (\<forall>t n. scope_header ''content-length'' headers = Some t \<and> t \<noteq> [] \<and> py_int_text t = Some n \<and> limit < n \<longrightarrow>
         body_gate limit headers arrived = TooLarge)"
proof (intro conjI allI impI)
  fix out assume "body_gate limit headers arrived = Pass out"
  then have "receive_loop limit 0 [] arrived = Pass out"
    by (auto simp: body_gate_def split: option.splits if_splits)
  from receive_loop_Pass [OF this assms] obtain n where n: "out = take n arrived"
    "int (sum_list (map body_bytes out)) \<le> limit" by auto
  then show "\<exists>n. out = take n arrived \<and> int (sum_list (map body_bytes out)) \<le> limit
      \<and> (\<forall>i. replay_receive out i = (if i < length out then arrived ! i else HttpRequest [] False))"
    by (intro exI [of _ n]) (auto simp: replay_receive_def)
qed (auto simp: body_gate_def)

theorem body_limit_witness:
  "body_gate 4 [(''Content-Length'', ''5'')] [] = TooLarge
   \<and> (\<exists>n. [HttpRequest [1, 2] True, HttpRequest [3] False] = take n [HttpRequest [1, 2] True, HttpRequest [3] False, HttpDisconnect])"
proof -
  have l: "scope_header ''content-length'' [(''Content-Length'', ''5'')] = Some ''5''" "py_int_text ''5'' = Some 5"
    by code_simp+
  have g: "body_gate 4 [] [HttpRequest [1, 2] True, HttpRequest [3] False, HttpDisconnect]
      = Pass [HttpRequest [1, 2] True, HttpRequest [3] False]" by code_simp
  from body_limit [of 4 "[(''Content-Length'', ''5'')]" "[]"] l have "body_gate 4 [(''Content-Length'', ''5'')] [] = TooLarge" by auto
  moreover from body_limit [of 4 "[]" "[HttpRequest [1, 2] True, HttpRequest [3] False, HttpDisconnect]"] g
  have "\<exists>n. [HttpRequest [1, 2] True, HttpRequest [3] False] = take n [HttpRequest [1, 2] True, HttpRequest [3] False, HttpDisconnect]"
    by auto
  ultimately show ?thesis ..
qed

end
