(* ===== verification/Mcp_Facts.thy ===== *)
theory Mcp_Facts
  imports Mcp_Server Api_Run
begin

text \<open>
  What the MCP server promises: one answer per request and none per notification, a text
  block of fixed words with every argument value redacted, and framing that an oversized or
  malformed line cannot break.
\<close>

section \<open>Redaction\<close>

text \<open>What may remain in an argument's value: numbers, hexadecimal text, and the two kinds of digest.\<close>

definition inert_scalar :: "pyval \<Rightarrow> bool" where
  "inert_scalar v \<longleftrightarrow>
     (case v of
        PStr s \<Rightarrow> is_inert_text s \<or> list_all is_lower_hex s \<or> s \<in> {''bytes'', ''untrusted-text-sha256''}
      | PInt _ \<Rightarrow> True | PBool _ \<Rightarrow> True | PNone \<Rightarrow> True | _ \<Rightarrow> False)"

fun inert :: "pyval \<Rightarrow> bool" where
  "inert (PList xs) = list_all inert xs"
| "inert (PDict d) = list_all (\<lambda>kv. inert_scalar (snd kv)) d"
| "inert (PStr s) = is_inert_text s"
| "inert v = inert_scalar v"

lemma is_inert_hex [simp]: "is_inert_text (''0x'' @ bytes_hex b)"
  using bytes_hex_lower [of b] by (auto simp: is_inert_text_def list_all_iff is_hex_def)

lemma redacted_inert: "inert (redact_argument_value sha256 (json_safe h str_of v))"
proof (induction h str_of v rule: json_safe.induct)
  case (1 h str_of b)
  show ?case
    using is_inert_hex [of b] is_inert_hex [of "take MAX_BYTES_PREVIEW b"] bytes_hex_lower [of "h b"]
    by (auto simp: inert_scalar_def simp del: is_inert_hex)
next
  case (2 h str_of xs)
  then show ?case by (simp add: list_all_iff)
next
  case (3 h str_of xs)
  then show ?case by (simp add: list_all_iff)
qed (auto simp: inert_scalar_def bytes_hex_lower Let_def)

lemma redact_arguments:
  "opt_all (map (redact_argument sha256) (map argument_dict args))
   = Some (map (\<lambda>a. PDict [(''name'', PStr (da_name a)), (''type'', PStr (da_type a)),
       (''value'', redact_argument_value sha256 (da_value a))]) args)"
  by (simp add: opt_all_Some argument_dict_def redact_argument_def)

lemma decoded_json_safe:
  assumes "preflight_transaction env args = Inr r" "a \<in> set (pr_decoded r)"
  shows "\<exists>v. da_value a = json_safe (env_sha256 env) (env_str env) v"
proof -
  obtain abi calldata fn where "decode_call env abi calldata = Inr (fn, pr_function r, pr_decoded r)"
    using preflight_transaction_Inr [OF assms(1)] by blast
  then have "decode_arguments (env_sha256 env) (env_str env) (env_decode env) (env_encode env) fn calldata
      = Inr (pr_decoded r)" by (simp add: decode_call_Inr)
  from decode_arguments_Inr [OF this] assms(2) show ?thesis by auto blast
qed

section \<open>The text block\<close>

definition verdict_text :: "verdict \<Rightarrow> pystr" where
  "verdict_text v = py_join '' '' [''Lucent analysis completed.'', ''gate='' @ gate_text (vd_gate v) @ ''.'',
     ''code='' @ vd_code v @ ''.'', closing_words]"

definition failure_text :: "pystr \<Rightarrow> pystr" where
  "failure_text cd = py_join '' '' ([''Lucent analysis failed.'']
     @ (if is_code_text cd then [''code='' @ cd @ ''.''] else []) @ [closing_words])"

lemma transaction_verdict_code:
  assumes "preflight_transaction env args = Inr r"
  shows "vd_code (pr_verdict r) \<in> set VERDICT_CODES"
proof -
  from preflight_transaction_Inr [OF assms] obtain fn wei formats where
    "assess_call fn (pr_function r) (map_of formats (pr_function r)) wei (pr_decoded r)
       = Inr (pr_audit r, pr_comprehension r, pr_danger r, pr_binding r, pr_verdict r)" by blast
  then have "vd_code (pr_verdict r) \<in> set VERDICT_CODES \<and> vd_gate (pr_verdict r) = gate_of_code (vd_code (pr_verdict r))"
    by (intro final_verdict_code) (auto simp: assess_call_Inr)
  then show ?thesis ..
qed

lemma codes_are_text: "cd \<in> set VERDICT_CODES \<Longrightarrow> is_code_text cd"
proof -
  have "list_all is_code_text VERDICT_CODES" by code_simp
  then show "cd \<in> set VERDICT_CODES \<Longrightarrow> is_code_text cd" by (simp add: list_all_iff)
qed

lemma gate_text_member: "gate_text g \<in> set GATES"
  by (cases g) (simp_all add: GATES_def)

lemma error_answer:
  "tool_text env mid (error_payload cd msg) True = Some (rpc_success mid (PDict
     [(''content'', text_block (failure_text cd)),
      (''structuredContent'', PDict (error_payload cd msg
         @ [(''mcp_payload_trust'', PStr ''untrusted_caller_derived_data'')])),
      (''isError'', PBool True)]))"
  by (simp add: tool_text_def redact_untrusted_calldata_def error_payload_def Let_def model_facing_summary_def
      summary_words_def member_words_def code_words_def flag_words_def failure_text_def)

lemma failure_answer:
  "\<exists>cd rendered. the (tool_text env mid (failure_payload f) True) = rpc_success mid (PDict
     [(''content'', text_block (failure_text cd)), (''structuredContent'', PDict rendered), (''isError'', PBool True)])
   \<and> cd = (case f of InputError cd _ \<Rightarrow> cd | Uncaught (KeyError _) \<Rightarrow> ''MISSING_ARGUMENT'' | _ \<Rightarrow> ''ANALYSIS_FAILED'')"
  by (auto simp: failure_payload_def failed_payload_def error_answer split: pf_failure.split py_exn.split)

lemma redacted_report:
  "\<exists>rendered c args. redact_untrusted_calldata sha256 (report_dict px r) = Some rendered
     \<and> dget rendered ''call'' = PDict c \<and> dget c ''decoded_arguments'' = PList args
     \<and> args = map (\<lambda>a. PDict [(''name'', PStr (da_name a)), (''type'', PStr (da_type a)),
         (''value'', redact_argument_value sha256 (da_value a))]) (pr_decoded r)
     \<and> dget rendered ''verdict'' = dget (report_dict px r) ''verdict''
     \<and> (\<forall>k\<in>{''error'', ''found'', ''matched'', ''tier'', ''worst_severity''}. dget rendered k = PNone)"
proof -
  let ?args = "map (\<lambda>a. PDict [(''name'', PStr (da_name a)), (''type'', PStr (da_type a)),
         (''value'', redact_argument_value sha256 (da_value a))]) (pr_decoded r)"
  have "opt_all (map (redact_argument sha256 \<circ> argument_dict) (pr_decoded r)) = Some ?args"
    using redact_arguments [of sha256 "pr_decoded r"] by simp
  then show ?thesis by (simp add: redact_untrusted_calldata_def report_dict_def Let_def)
qed

lemma report_summary:
  assumes "dget rendered ''verdict'' = dget (report_dict px r) ''verdict''"
    and "\<forall>k\<in>{''error'', ''found'', ''matched'', ''tier'', ''worst_severity''}. dget rendered k = PNone"
    and "is_code_text (vd_code (pr_verdict r))"
  shows "model_facing_summary rendered False = Some (verdict_text (pr_verdict r))"
proof -
  have "dget (report_dict px r) ''verdict'' = PDict [(''gate'', PStr (gate_text (vd_gate (pr_verdict r)))),
      (''code'', PStr (vd_code (pr_verdict r))), (''reason'', PStr (px_verdict px (pr_verdict r)))]"
    by (simp add: report_dict_def)
  then show ?thesis
    using assms gate_text_member [of "vd_gate (pr_verdict r)"]
    by (simp add: model_facing_summary_def summary_words_def Let_def member_words_def code_words_def flag_words_def
        verdict_text_def)
qed

section \<open>Answers\<close>

definition answers :: "pyval \<Rightarrow> pyval \<Rightarrow> bool" where
  "answers mid v \<longleftrightarrow> (\<exists>r. v = rpc_success mid r) \<or> (\<exists>cd msg. v = rpc_error mid cd msg)"

lemma answers_simps [simp]: "answers mid (rpc_success mid r)" "answers mid (rpc_error mid cd msg)"
  by (auto simp: answers_def)

lemma tool_text_answers: "tool_text env mid p e = Some v \<Longrightarrow> answers mid v"
  by (auto simp: tool_text_def split: option.splits)

lemma tool_answer_answers: "answers mid (tool_answer env mid r)"
proof (cases r)
  case (Inl f)
  then show ?thesis using failure_answer [of env mid f] by (auto simp: tool_answer_def)
next
  case (Inr payload)
  then show ?thesis
    using tool_text_answers [of env mid payload False]
    by (auto simp: tool_answer_def failed_payload_def error_answer split: option.split)
qed

lemma call_tool_answers: "answers mid (call_tool env mid params)"
  by (simp add: call_tool_def tool_answer_answers split: pyval.split option.split)

section \<open>Lines\<close>

text \<open>The first line of an input with its newline, and all lines.\<close>

definition line_of :: "bytes \<Rightarrow> bytes" where
  "line_of s = takeWhile (\<lambda>c. c \<noteq> 10) s @ take 1 (dropWhile (\<lambda>c. c \<noteq> 10) s)"

lemma line_of_simps [simp]:
  "line_of [] = []" "line_of (c # s) = (if c = 10 then [c] else c # line_of s)"
  by (simp_all add: line_of_def)

lemma line_of_length: "length (line_of s) \<le> length s"
  by (induction s) simp_all

function split_lines :: "bytes \<Rightarrow> bytes list" where
  "split_lines [] = []"
| "split_lines (c # s) = line_of (c # s) # split_lines (drop (length (line_of (c # s))) (c # s))"
  by pat_completeness auto
termination by (relation "measure length") auto

lemma read_line_take: "read_line n s = take n (line_of s)"
  by (induction n s rule: read_line.induct) simp_all

lemma line_of_drop: "n < length (line_of s) \<Longrightarrow> line_of (drop n s) = drop n (line_of s)"
proof (induction s arbitrary: n)
  case (Cons c s)
  then show ?case by (cases n) (auto split: if_splits)
qed simp

lemma newline_last: "c \<in> set (butlast (line_of s)) \<Longrightarrow> c \<noteq> 10"
  by (induction s) (auto split: if_splits)

lemma unended_line: "line_of s \<noteq> [] \<Longrightarrow> last (line_of s) \<noteq> 10 \<Longrightarrow> line_of s = s"
proof (induction s)
  case (Cons c s)
  then show ?case by (cases s) (auto split: if_splits)
qed simp

text \<open>A line that was cut does not end in a newline, and goes on.\<close>

lemma cut_line:
  assumes "Suc limit < length (line_of s)"
  shows "length (read_line (Suc limit) s) = Suc limit" "last (read_line (Suc limit) s) \<noteq> 10"
    "drop (length (line_of (drop (Suc limit) s))) (drop (Suc limit) s) = drop (length (line_of s)) s"
proof -
  let ?L = "line_of s"
  show len: "length (read_line (Suc limit) s) = Suc limit" using assms by (simp add: read_line_take)
  then have "last (read_line (Suc limit) s) = ?L ! limit"
    using assms by (subst last_conv_nth) (auto simp: read_line_take)
  moreover have "?L ! limit \<in> set (butlast ?L)"
    using assms unfolding in_set_conv_nth by (intro exI [of _ limit]) (simp add: nth_butlast)
  ultimately show "last (read_line (Suc limit) s) \<noteq> 10" using newline_last by metis
  have "line_of (drop (Suc limit) s) = drop (Suc limit) ?L" using assms by (rule line_of_drop)
  moreover have "length ?L - Suc limit + Suc limit = length ?L" using assms by simp
  ultimately show "drop (length (line_of (drop (Suc limit) s))) (drop (Suc limit) s) = drop (length ?L) s"
    by (simp only: drop_drop length_drop)
qed

text \<open>An oversized line is skipped to its end, however many reads that takes.\<close>

lemma skip_line_rest:
  "skip_line limit raw rest =
     (if raw \<noteq> [] \<and> last raw \<noteq> 10 then drop (length (line_of rest)) rest else rest)"
proof (induction limit raw rest rule: skip_line.induct)
  case (1 limit raw rest)
  let ?raw = "read_line (Suc limit) rest" and ?L = "line_of rest"
  show ?case
  proof (cases "raw \<noteq> [] \<and> last raw \<noteq> 10")
    case True
    have step: "skip_line limit raw rest = skip_line limit ?raw (drop (length ?raw) rest)"
      using True by (subst skip_line.simps) (simp add: Let_def del: skip_line.simps)
    have ih: "skip_line limit ?raw (drop (length ?raw) rest) =
        (if ?raw \<noteq> [] \<and> last ?raw \<noteq> 10 then drop (length (line_of (drop (length ?raw) rest))) (drop (length ?raw) rest)
         else drop (length ?raw) rest)" by (rule "1.IH" [OF True refl])
    have raw: "?raw = take (Suc limit) ?L" by (rule read_line_take)
    show ?thesis
    proof (cases "length ?L \<le> Suc limit")
      case True
      then have "?raw = ?L" using raw by simp
      moreover have "line_of (drop (length ?L) rest) = []" if "?L \<noteq> []" "last ?L \<noteq> 10"
        using unended_line [OF that] by simp
      ultimately show ?thesis using step ih \<open>raw \<noteq> [] \<and> last raw \<noteq> 10\<close> by auto
    next
      case False
      then have cut: "Suc limit < length ?L" by simp
      have ne: "?raw \<noteq> []" using cut_line(1) [OF cut] by auto
      show ?thesis unfolding step ih using True ne cut_line [OF cut] by simp
    qed
  next
    case False
    then show ?thesis by (subst skip_line.simps) (auto simp del: skip_line.simps)
  qed
qed

definition answer_line :: "nat \<Rightarrow> mcp_env \<Rightarrow> bytes \<Rightarrow> pyval list" where
  "answer_line limit env l = (if limit < length l then [too_large] else answer_message env l)"

lemma skip_first_line:
  assumes "limit < length (line_of input)"
  shows "skip_line limit (read_line (Suc limit) input) (drop (length (read_line (Suc limit) input)) input)
    = drop (length (line_of input)) input"
proof (cases "length (line_of input) = Suc limit")
  case True
  then have r: "read_line (Suc limit) input = line_of input" by (simp add: read_line_take)
  have "line_of input \<noteq> []" using True by auto
  then have "line_of (drop (length (line_of input)) input) = []" if "last (line_of input) \<noteq> 10"
    using unended_line [OF _ that] by simp
  then show ?thesis
    using skip_line_rest [of limit "line_of input" "drop (length (line_of input)) input"] by (auto simp: r)
next
  case False
  then have cut: "Suc limit < length (line_of input)" using assms by simp
  have "input \<noteq> []" using cut by auto
  then show ?thesis
    using skip_line_rest [of limit "read_line (Suc limit) input" "drop (Suc limit) input"] cut_line [OF cut]
    by (simp del: skip_line.simps)
qed

text \<open>One turn of the loop reads one line.\<close>

lemma loop_turn:
  assumes "input \<noteq> []"
  shows "mcp_loop limit env input
    = answer_line limit env (line_of input) @ mcp_loop limit env (drop (length (line_of input)) input)"
proof (cases "limit < length (line_of input)")
  case True
  then have "limit < length (read_line (Suc limit) input)" by (simp add: read_line_take)
  then show ?thesis
    using assms skip_first_line [OF True] True
    by (subst mcp_loop.simps) (simp add: Let_def answer_line_def del: mcp_loop.simps skip_line.simps)
next
  case False
  then have "read_line (Suc limit) input = line_of input" by (simp add: read_line_take)
  moreover have "line_of input \<noteq> []" using assms by (cases input) simp_all
  ultimately show ?thesis
    using False by (subst mcp_loop.simps) (simp add: Let_def answer_line_def del: mcp_loop.simps)
qed

text \<open>
  C39: One bad line does not disturb the next. The responses to any input are those to its
  lines, each on its own and in order: a line above the limit is answered by one error, a
  malformed one by one error, a blank one by nothing. No line has more than one response.
\<close>

theorem mcp_lines:
  "mcp_loop limit env input = concat (map (answer_line limit env) (split_lines input))
   \<and> (\<forall>l. length (answer_line limit env l) \<le> 1)"
proof
  show "mcp_loop limit env input = concat (map (answer_line limit env) (split_lines input))"
  proof (induction input rule: split_lines.induct)
    case 1
    then show ?case by simp
  next
    case (2 c s)
    then show ?case using loop_turn [of "c # s" limit env] by (simp del: mcp_loop.simps line_of_simps(2))
  qed
qed (simp add: answer_line_def answer_message_def split: parsed_line.split option.split)

text \<open>
  C36: What the model reads is the server's own. Whatever the request contains, the text block
  of a preflight is the fixed sentence with the gate and the code of the verdict, or with the
  code of the failure, and nothing else; and every value of a decoded argument in the
  structured content is a number, hexadecimal text or a digest, at any depth.
\<close>

theorem mcp_isolation:
  assumes "dget p ''name'' = PStr ''preflight_transaction''" "dget_or p ''arguments'' (PDict []) = PDict a"
  shows "(\<forall>r. preflight_transaction (mx_preflight env) (PDict a) = Inr r \<longrightarrow>
      (\<exists>rendered c args. call_tool env mid (PDict p) = rpc_success mid (PDict
           [(''content'', text_block (verdict_text (pr_verdict r))), (''structuredContent'', PDict rendered),
            (''isError'', PBool False)])
         \<and> dget rendered ''call'' = PDict c \<and> dget c ''decoded_arguments'' = PList args
         \<and> length args = length (pr_decoded r)
         \<and> (\<forall>v\<in>set args. \<exists>item. v = PDict item \<and> inert (dget item ''value''))))
    \<and> (\<forall>f. preflight_transaction (mx_preflight env) (PDict a) = Inl f \<longrightarrow>
      (\<exists>cd rendered. call_tool env mid (PDict p) = rpc_success mid (PDict
           [(''content'', text_block (failure_text cd)), (''structuredContent'', PDict rendered),
            (''isError'', PBool True)])
         \<and> cd = (case f of InputError cd _ \<Rightarrow> cd | Uncaught (KeyError _) \<Rightarrow> ''MISSING_ARGUMENT'' | _ \<Rightarrow> ''ANALYSIS_FAILED'')))"
proof (intro conjI allI impI)
  let ?sha = "env_sha256 (mx_preflight env)"
  have call: "call_tool env mid (PDict p) = tool_answer env mid
      (res_bind (preflight_transaction (mx_preflight env) (PDict a)) (\<lambda>r. Inr (report_dict (mx_prose env) r)))"
    using assms by (simp add: call_tool_def HANDLERS_def Let_def)
  fix r assume r: "preflight_transaction (mx_preflight env) (PDict a) = Inr r"
  obtain rendered c args where red: "redact_untrusted_calldata ?sha (report_dict (mx_prose env) r) = Some rendered"
    and args: "dget rendered ''call'' = PDict c" "dget c ''decoded_arguments'' = PList args"
      "args = map (\<lambda>a. PDict [(''name'', PStr (da_name a)), (''type'', PStr (da_type a)),
         (''value'', redact_argument_value ?sha (da_value a))]) (pr_decoded r)"
    and keys: "dget rendered ''verdict'' = dget (report_dict (mx_prose env) r) ''verdict''"
      "\<forall>k\<in>{''error'', ''found'', ''matched'', ''tier'', ''worst_severity''}. dget rendered k = PNone"
    using redacted_report [of ?sha "mx_prose env" r] by blast
  have "model_facing_summary rendered False = Some (verdict_text (pr_verdict r))"
    using report_summary [OF keys codes_are_text [OF transaction_verdict_code [OF r]]] .
  then have "call_tool env mid (PDict p) = rpc_success mid (PDict
      [(''content'', text_block (verdict_text (pr_verdict r))), (''structuredContent'', PDict rendered),
       (''isError'', PBool False)])"
    by (simp add: call r tool_answer_def tool_text_def red)
  moreover have "inert (redact_argument_value ?sha (da_value x))" if x: "x \<in> set (pr_decoded r)" for x
  proof -
    obtain v where "da_value x = json_safe ?sha (env_str (mx_preflight env)) v" using decoded_json_safe [OF r x] by blast
    then show ?thesis using redacted_inert [of ?sha ?sha "env_str (mx_preflight env)" v] by simp
  qed
  ultimately show "\<exists>rendered c args. call_tool env mid (PDict p) = rpc_success mid (PDict
           [(''content'', text_block (verdict_text (pr_verdict r))), (''structuredContent'', PDict rendered),
            (''isError'', PBool False)])
         \<and> dget rendered ''call'' = PDict c \<and> dget c ''decoded_arguments'' = PList args
         \<and> length args = length (pr_decoded r)
         \<and> (\<forall>v\<in>set args. \<exists>item. v = PDict item \<and> inert (dget item ''value''))"
    using args by (intro exI [of _ rendered] exI [of _ c] exI [of _ args]) auto
next
  fix f assume "preflight_transaction (mx_preflight env) (PDict a) = Inl f"
  then have "call_tool env mid (PDict p) = the (tool_text env mid (failure_payload f) True)"
    using assms by (simp add: call_tool_def HANDLERS_def Let_def tool_answer_def)
  then show "\<exists>cd rendered. call_tool env mid (PDict p) = rpc_success mid (PDict
           [(''content'', text_block (failure_text cd)), (''structuredContent'', PDict rendered),
            (''isError'', PBool True)])
         \<and> cd = (case f of InputError cd _ \<Rightarrow> cd | Uncaught (KeyError _) \<Rightarrow> ''MISSING_ARGUMENT'' | _ \<Rightarrow> ''ANALYSIS_FAILED'')"
    using failure_answer [of env mid f] by simp
qed

definition toy_mcp :: mcp_env where
  "toy_mcp = \<lparr>mx_preflight = toy_env, mx_prose = run_prose, mx_remote = (\<lambda>n a. RemoteFails), mx_tools = PList [],
     mx_instructions = [], mx_parse = (\<lambda>b. if b = [10] then Blank else if hd b = 123 then Parsed (PDict []) else Unparsable)\<rparr>"

theorem mcp_isolation_witness:
  "\<exists>r rendered. preflight_transaction toy_env toy_request = Inr r
     \<and> call_tool toy_mcp (PInt 1) (PDict [(''name'', PStr ''preflight_transaction''), (''arguments'', toy_request)])
       = rpc_success (PInt 1) (PDict [(''content'', text_block (verdict_text (pr_verdict r))),
           (''structuredContent'', PDict rendered), (''isError'', PBool False)])"
proof -
  obtain r where r: "preflight_transaction toy_env toy_request = Inr r" using toy_preflight by blast
  obtain a where a: "toy_request = PDict a" by (simp add: toy_request_def toy_request_for_def)
  have "mx_preflight toy_mcp = toy_env" by (simp add: toy_mcp_def)
  then show ?thesis
    using mcp_isolation [of "[(''name'', PStr ''preflight_transaction''), (''arguments'', toy_request)]" a toy_mcp "PInt 1"] r a
    by fastforce
qed



text \<open>
  Two divergences. A request, with an \<open>id\<close>, for one of the notification methods is never
  answered; and a \<open>KeyError\<close> inside an analysis is reported as a missing argument.
\<close>

lemma ignored_request:
  "dispatch env (PDict [(''jsonrpc'', PStr ''2.0''), (''id'', PInt 7), (''method'', PStr ''notifications/cancelled'')]) = None"
  by (simp add: dispatch_def ignored_methods_def)

lemma internal_key_error:
  "failure_payload (Uncaught (KeyError ''name''))
   = error_payload ''MISSING_ARGUMENT'' (''missing required argument: '' @ py_repr ''name'')"
  by (simp add: failure_payload_def)

end
