(* ===== verification/Descriptor_Tools.thy ===== *)
theory Descriptor_Tools
  imports Preflight_Entry
begin

text \<open>
  The command-line tools that judge a descriptor against the chain: \<open>scripts/semverify.py\<close>
  (the screen against the asset movements of mined transactions), \<open>scripts/watch.py\<close> (drift
  against a recorded baseline), the gate of \<open>scripts/attest.py\<close>, and the verdict and the
  divergence lines of \<open>scripts/review.py\<close>. What an explorer, a fork or the file system
  answers is an argument; printing is left out.
\<close>

section \<open>Failures and dictionaries\<close>

datatype tool_failure = Raised py_exn | IndexError

text \<open>\<open>d[k]\<close>, \<open>d.get(k, default)\<close> and iteration.\<close>

definition item_of :: "pyval \<Rightarrow> pystr \<Rightarrow> tool_failure + pyval" where
  "item_of v k =
     (case v of
        PDict d \<Rightarrow> (case map_of d k of Some x \<Rightarrow> Inr x | None \<Rightarrow> Inl (Raised (KeyError k)))
      | _ \<Rightarrow> Inl (Raised (TypeError ''object is not subscriptable by a text'')))"

definition get_of :: "pyval \<Rightarrow> pystr \<Rightarrow> pyval \<Rightarrow> tool_failure + pyval" where
  "get_of v k x =
     (case v of PDict d \<Rightarrow> Inr (dget_or d k x) | _ \<Rightarrow> Inl (Raised (AttributeError ''object has no attribute get'')))"

definition iter_of :: "pyval \<Rightarrow> tool_failure + pyval list" where
  "iter_of v =
     (case v of
        PList xs \<Rightarrow> Inr xs
      | PTuple xs \<Rightarrow> Inr xs
      | PDict d \<Rightarrow> Inr (map (\<lambda>kv. PStr (fst kv)) d)
      | PStr s \<Rightarrow> Inr (map (\<lambda>c. PStr [c]) s)
      | PBytes bs \<Rightarrow> Inr (map (\<lambda>b. PInt (uint b)) bs)
      | _ \<Rightarrow> Inl (Raised (TypeError ''object is not iterable'')))"

definition raised :: "py_exn + 'a \<Rightarrow> tool_failure + 'a" where
  "raised m = (case m of Inl e \<Rightarrow> Inl (Raised e) | Inr x \<Rightarrow> Inr x)"

section \<open>Numbers and bytes in an explorer's answers\<close>

fun hex_digits_ok :: "bool \<Rightarrow> pystr \<Rightarrow> bool" where
  "hex_digits_ok after [] = after"
| "hex_digits_ok after (c # s) =
     (if is_hex c then hex_digits_ok True s else c = CHR ''_'' \<and> after \<and> hex_digits_ok False s)"

text \<open>\<open>int(text, 16)\<close>: spaces around, a sign, the prefix, single underscores.\<close>

definition py_int16 :: "pystr \<Rightarrow> tool_failure + int" where
  "py_int16 t =
     (let s = py_strip t;
          body = (if take 1 s \<in> {''+'', ''-''} then drop 1 s else s);
          prefixed = (take 2 body \<in> {''0x'', ''0X''});
          digits = (if prefixed then drop 2 body else body);
          ok = (digits \<noteq> [] \<and> (if prefixed \<and> hd digits = CHR ''_'' then hex_digits_ok False (tl digits)
                               else hex_digits_ok False digits));
          n = int_fromhex (filter is_hex digits)
      in if ok then Inr (if take 1 s = ''-'' then - n else n)
         else Inl (Raised (ValueError ''invalid literal for int() with base 16'')))"

text \<open>\<open>bytes.fromhex(text)\<close>: pairs of digits with ASCII spaces between them.\<close>

fun py_fromhex :: "pystr \<Rightarrow> bytes option" where
  "py_fromhex [] = Some []"
| "py_fromhex [c] = (if code c \<in> {9, 10, 11, 12, 13, 32} then Some [] else None)"
| "py_fromhex (c # d # s) =
     (if code c \<in> {9, 10, 11, 12, 13, 32} then py_fromhex (d # s)
      else if is_hex c \<and> is_hex d
      then map_option ((#) (of_nat (16 * hex_value c + hex_value d))) (py_fromhex s)
      else None)"

section \<open>Movements\<close>

text \<open>The members of a transaction and its receipt that the tool reads.\<close>

record log_entry =
  lg_topics :: "pystr list"
  lg_data :: pystr

record mined =
  mt_value :: pystr
  mt_to :: "pystr option"
  mt_input :: pystr
  mt_logs :: "log_entry list"

datatype movement =
    EthMove pystr int
  | Erc20Move pystr pystr int
  | Erc1155Move pystr pystr int int
  | ApprovalMove pystr pystr bool

definition TRANSFER :: pystr where
  "TRANSFER = ''0xddf252ad1be2c89b69c2b068fc378daa952ba7f163c4a11628f55a4df523b3ef''"
definition TRANSFER_SINGLE :: pystr where
  "TRANSFER_SINGLE = ''0xc3d58168c5ae7397731d063d5bbf3d657854427343f4c083240f7aacaa2d0f62''"
definition APPROVAL_FOR_ALL :: pystr where
  "APPROVAL_FOR_ALL = ''0x17307eab39ab6107e8899845ad3d59bd9653f200f220920489ca2b5937696c31''"
definition RECIPIENT_LABELS :: "pystr list" where
  "RECIPIENT_LABELS = [''to'', ''recipient'', ''send to'', ''receiver'']"
definition ZERO_ADDRESS :: pystr where "ZERO_ADDRESS = ''0x'' @ replicate 40 CHR ''0''"

definition addr_of :: "pystr \<Rightarrow> pystr" where
  "addr_of topic = py_lower (''0x'' @ drop (length topic - 40) topic)"

definition log_movement :: "log_entry \<Rightarrow> tool_failure + movement list" where
  "log_movement l =
     (let ts = lg_topics l in
      case ts of
        [] \<Rightarrow> Inl IndexError
      | topic # _ \<Rightarrow>
          (let t0 = py_lower topic in
           if t0 = TRANSFER \<and> length ts = 3
           then res_bind (if lg_data l \<in> {''0x'', []} then Inr 0 else py_int16 (lg_data l))
                  (\<lambda>n. Inr [Erc20Move (addr_of (ts ! 1)) (addr_of (ts ! 2)) n])
           else if t0 = TRANSFER_SINGLE \<and> length ts = 4
           then (let data = drop 2 (lg_data l) in
                 res_bind (py_int16 (take 64 data))
                 (\<lambda>i. res_bind (py_int16 (take 64 (drop 64 data)))
                 (\<lambda>n. Inr [Erc1155Move (addr_of (ts ! 2)) (addr_of (ts ! 3)) i n])))
           else if t0 = APPROVAL_FOR_ALL \<and> length ts = 3
           then res_bind (py_int16 (lg_data l))
                  (\<lambda>n. Inr [ApprovalMove (addr_of (ts ! 1)) (addr_of (ts ! 2)) (n = 1)])
           else Inr []))"

definition eth_movement :: "mined \<Rightarrow> tool_failure + movement list" where
  "eth_movement tx =
     res_bind (py_int16 (mt_value tx))
     (\<lambda>n. if 0 < n
      then (case mt_to tx of
              None \<Rightarrow> Inl (Raised (AttributeError ''object has no attribute lower''))
            | Some a \<Rightarrow> Inr [EthMove (py_lower a) n])
      else Inr [])"

definition movements :: "mined \<Rightarrow> tool_failure + movement list" where
  "movements tx =
     res_bind (eth_movement tx)
     (\<lambda>eth. res_bind (res_map log_movement (mt_logs tx)) (\<lambda>ms. Inr (eth @ concat ms)))"

section \<open>The screen\<close>

text \<open>What one field claims: the native value, or an address under a label.\<close>

datatype claim = ClaimsValue | ClaimsAddress pystr pystr

record screen =
  sc_signature :: pystr
  sc_claims :: "claim list"

definition shown_addresses :: "screen \<Rightarrow> pystr list" where
  "shown_addresses sc = concat (map (\<lambda>c. case c of ClaimsAddress _ a \<Rightarrow> [a] | ClaimsValue \<Rightarrow> []) (sc_claims sc))"

definition labelled_claim :: "(pystr \<Rightarrow> pyval option) \<Rightarrow> pyval \<Rightarrow> pystr \<Rightarrow> tool_failure + claim list" where
  "labelled_claim decoded f p =
     (if \<not> py_startswith p ''#.'' then Inr []
      else
        (case decoded (hd (py_split (CHR ''.'') (drop 2 p))) of
           Some (PStr v) \<Rightarrow>
             if py_startswith v ''0x''
             then
               res_bind (get_of f ''label'' (PStr []))
               (\<lambda>label. case label of
                  PStr l \<Rightarrow> Inr [ClaimsAddress (py_lower (py_strip l)) (py_lower v)]
                | _ \<Rightarrow> Inl (Raised (AttributeError ''object has no attribute strip'')))
             else Inr []
         | _ \<Rightarrow> Inr []))"

definition field_claims :: "(pystr \<Rightarrow> pyval option) \<Rightarrow> pyval \<Rightarrow> tool_failure + claim list" where
  "field_claims decoded f =
     res_bind (get_of f ''visible'' PNone)
     (\<lambda>vis. if vis = PStr ''never'' then Inr []
      else
        res_bind (get_of f ''path'' (PStr []))
        (\<lambda>path. let here = (if path = PStr ''@.value'' then [ClaimsValue] else []) in
          res_bind (get_of f ''format'' PNone)
          (\<lambda>fm. if fm \<noteq> PStr ''addressName'' then Inr here
           else
             (case path of
                PStr p \<Rightarrow> res_bind (labelled_claim decoded f p) (\<lambda>cs. Inr (here @ cs))
              | _ \<Rightarrow> Inl (Raised (AttributeError ''object has no attribute startswith''))))))"

definition screen_claims :: "pf_env \<Rightarrow> pyval \<Rightarrow> bytes \<Rightarrow> tool_failure + screen" where
  "screen_claims env desc data =
     res_bind (raised (descriptor_abi (env_float_text env) (env_encodable env) (env_abi_cache env) desc))
     (\<lambda>abi. let sel = ''0x'' @ bytes_hex (take 4 data) in
       case map_of (selector_index (env_keccak env) abi) sel of
         None \<Rightarrow> Inl (Raised (KeyError sel))
       | Some (sig, inputs) \<Rightarrow>
           res_bind (res_map (\<lambda>i. case ai_name i of None \<Rightarrow> Inl (Raised (KeyError ''name'')) | Some n \<Rightarrow> Inr n) inputs)
           (\<lambda>names. case env_decode env (map canonical_type inputs) (drop 4 data) of
              None \<Rightarrow> Inl (Raised (ValueError ''could not decode''))
            | Some vals \<Rightarrow>
                res_bind (res_bind (item_of desc ''display'') (\<lambda>d. item_of d ''formats''))
                (\<lambda>formats. res_bind (get_of formats sig (PDict []))
                (\<lambda>fm. res_bind (res_bind (get_of fm ''fields'' (PList [])) iter_of)
                (\<lambda>fields. res_bind (res_map (field_claims (map_of (rev (zip names vals)))) fields)
                (\<lambda>claims. Inr \<lparr>sc_signature = sig, sc_claims = concat claims\<rparr>))))))"

section \<open>One transaction\<close>

datatype divergence =
    ValueUnshown
  | AssetUnshown pystr
  | OperatorUnshown pystr
  | WrongRecipient pystr

text \<open>The addresses that received an asset, but for burns.\<close>

definition received :: "movement \<Rightarrow> pystr list" where
  "received m =
     (case m of
        Erc20Move _ a n \<Rightarrow> if 0 < n \<and> a \<noteq> ZERO_ADDRESS then [a] else []
      | Erc1155Move _ a _ n \<Rightarrow> if 0 < n \<and> a \<noteq> ZERO_ADDRESS then [a] else []
      | _ \<Rightarrow> [])"

definition recipients :: "movement list \<Rightarrow> pystr list" where
  "recipients moves = concat (map received moves)"

definition is_recipient_label :: "pystr \<Rightarrow> bool" where
  "is_recipient_label l \<longleftrightarrow> list_ex (\<lambda>r. l = r \<or> py_startswith l r) RECIPIENT_LABELS"

definition movement_divergences :: "screen \<Rightarrow> pystr \<Rightarrow> movement list \<Rightarrow> movement \<Rightarrow> divergence list" where
  "movement_divergences sc contract moves m =
     (let asset = (\<lambda>a. if a \<in> set (recipients moves) \<and> a \<notin> set (shown_addresses sc) \<and> a \<noteq> contract then [AssetUnshown a] else []) in
      case m of
        EthMove _ _ \<Rightarrow> []
      | Erc20Move _ a _ \<Rightarrow> asset a
      | Erc1155Move _ a _ _ \<Rightarrow> asset a
      | ApprovalMove _ op approved \<Rightarrow> if approved \<and> op \<notin> set (shown_addresses sc) then [OperatorUnshown op] else [])"

definition claim_divergences :: "pystr \<Rightarrow> movement list \<Rightarrow> claim \<Rightarrow> divergence list" where
  "claim_divergences contract moves c =
     (case c of
        ClaimsValue \<Rightarrow> []
      | ClaimsAddress l a \<Rightarrow>
          if is_recipient_label l \<and> a \<notin> set (recipients moves) \<and> a \<noteq> contract then [WrongRecipient a] else [])"

definition divergences :: "screen \<Rightarrow> pystr \<Rightarrow> movement list \<Rightarrow> divergence list" where
  "divergences sc contract moves =
     (if list_ex (\<lambda>m. case m of EthMove _ _ \<Rightarrow> True | _ \<Rightarrow> False) moves \<and> ClaimsValue \<notin> set (sc_claims sc)
      then [ValueUnshown] else [])
     @ concat (map (movement_divergences sc contract moves) moves)
     @ (if recipients moves = [] then [] else concat (map (claim_divergences contract moves) (sc_claims sc)))"

definition verify_one :: "pf_env \<Rightarrow> pyval \<Rightarrow> pystr \<Rightarrow> mined \<Rightarrow> tool_failure + (pystr \<times> movement list \<times> divergence list)" where
  "verify_one env desc contract tx =
     (case py_fromhex (drop 2 (mt_input tx)) of
        None \<Rightarrow> Inl (Raised (ValueError ''non-hexadecimal number found in fromhex() arg''))
      | Some data \<Rightarrow>
          res_bind (screen_claims env desc data)
          (\<lambda>sc. res_bind (movements tx)
          (\<lambda>moves. Inr (sc_signature sc, moves, divergences sc (py_lower contract) moves))))"

section \<open>All vectors\<close>

record sem_row =
  rw_signature :: pystr
  rw_moves :: "movement list"
  rw_divergences :: "divergence list"

text \<open>
  A vector gives a row, an honest skip, or nothing. The explorer's answer to a hash is an
  argument, and so is a simulation, where the flag is set; one that raises is skipped.
\<close>

datatype vector_outcome = Row sem_row | Skipped pyval | Ignored

definition to_row :: "pystr \<times> movement list \<times> divergence list \<Rightarrow> vector_outcome" where
  "to_row r = (case r of (sig, moves, ds) \<Rightarrow>
     Row \<lparr>rw_signature = sig, rw_moves = moves, rw_divergences = ds\<rparr>)"

definition run_vector ::
  "pf_env \<Rightarrow> (pyval \<Rightarrow> tool_failure + mined) \<Rightarrow> (pyval \<Rightarrow> tool_failure + mined) option \<Rightarrow> pyval \<Rightarrow> pystr \<Rightarrow> pyval
   \<Rightarrow> tool_failure + vector_outcome" where
  "run_vector env fetch simulate desc contract v =
     res_bind (get_of v ''txHash'' PNone)
     (\<lambda>h. if truthy h
      then res_bind (fetch h) (\<lambda>tx. res_bind (verify_one env desc contract tx) (\<lambda>r. Inr (to_row r)))
      else
        res_bind (get_of v ''call'' PNone)
        (\<lambda>call. case simulate of
           None \<Rightarrow> Inr Ignored
         | Some sim \<Rightarrow>
             if \<not> truthy call then Inr Ignored
             else
               (case sim call of
                  Inl _ \<Rightarrow> res_bind (get_of call ''function'' PNone) (\<lambda>f. Inr (Skipped f))
                | Inr tx \<Rightarrow>
                    res_bind (verify_one env desc contract tx)
                    (\<lambda>r. res_bind (get_of call ''function'' (PStr ''?''))
                    (\<lambda>f. case f of
                       PStr _ \<Rightarrow> Inr (to_row r)
                     | _ \<Rightarrow> Inl (Raised (TypeError ''can only concatenate str'')))))))"

record sem_report =
  sr_rows :: "sem_row list"
  sr_skipped :: "pyval list"
  sr_total :: nat
  sr_verified :: nat
  sr_divergences :: nat

definition evaluate ::
  "pf_env \<Rightarrow> (pyval \<Rightarrow> tool_failure + mined) \<Rightarrow> (pyval \<Rightarrow> tool_failure + mined) option \<Rightarrow> pyval \<Rightarrow> pystr \<Rightarrow> pyval list
   \<Rightarrow> tool_failure + sem_report" where
  "evaluate env fetch simulate desc contract vectors =
     res_bind (res_map (run_vector env fetch simulate desc contract) vectors)
     (\<lambda>outcomes.
        let rows = concat (map (\<lambda>x. case x of Row r \<Rightarrow> [r] | _ \<Rightarrow> []) outcomes);
            skips = concat (map (\<lambda>x. case x of Skipped c \<Rightarrow> [c] | _ \<Rightarrow> []) outcomes)
        in Inr \<lparr>sr_rows = rows, sr_skipped = skips, sr_total = length rows,
                sr_verified = length (filter (\<lambda>r. rw_divergences r = []) rows),
                sr_divergences = sum_list (map (\<lambda>r. length (rw_divergences r)) rows)\<rparr>)"

definition semverify_exit :: "sem_report \<Rightarrow> int" where
  "semverify_exit r = (if 0 < sr_divergences r then 1 else 0)"

section \<open>Attestation\<close>

definition MIN_GRADE :: "pystr list" where "MIN_GRADE = [''A'', ''B'']"

text \<open>\<open>run_semverify\<close>: nothing without an explorer's key; else whether it passed.\<close>

definition run_semverify :: "bool \<Rightarrow> (tool_failure + sem_report) \<Rightarrow> tool_failure + bool option" where
  "run_semverify has_key evaluated =
     (if \<not> has_key then Inr None
      else res_bind evaluated (\<lambda>r. Inr (Some (sr_divergences r = 0 \<and> 0 < sr_total r))))"

datatype attestation = RefusedGrade | RefusedDivergence | RefusedUnsimulated | Unsigned | Signed pystr

text \<open>Signed under a schema by an account, else the evidence alone.\<close>

definition sign_choice :: "pystr option \<Rightarrow> pystr option \<Rightarrow> attestation" where
  "sign_choice schema account =
     (case (schema, account) of
        (Some s, Some a) \<Rightarrow> if s = [] then Unsigned else Signed a
      | _ \<Rightarrow> Unsigned)"

definition attest ::
  "(tool_failure + audit_report) \<Rightarrow> bool \<Rightarrow> (tool_failure + sem_report) \<Rightarrow> bool \<Rightarrow> pystr option \<Rightarrow> pystr option \<Rightarrow>
   tool_failure + attestation" where
  "attest audited has_key evaluated require_sim schema account =
     res_bind audited
     (\<lambda>r. if ar_grade r \<notin> set MIN_GRADE then Inr RefusedGrade
      else
        res_bind (run_semverify has_key evaluated)
        (\<lambda>sim. case sim of
           Some passed \<Rightarrow>
             if \<not> passed then Inr RefusedDivergence
             else Inr (sign_choice schema account)
         | None \<Rightarrow>
             if require_sim then Inr RefusedUnsimulated
             else Inr (sign_choice schema account)))"

section \<open>Review\<close>

text \<open>
  The lines of the report for the rows of a semantic verification: \<open>join\<close> over the findings,
  which are pairs, raises if there are any.
\<close>

definition divergence_lines :: "sem_report \<Rightarrow> py_exn + nat" where
  "divergence_lines r =
     (if list_ex (\<lambda>row. rw_divergences row \<noteq> []) (sr_rows r)
      then Inl (TypeError ''sequence item 0: expected str instance, tuple found'')
      else Inr 1)"

definition review_exit :: "bool \<Rightarrow> gate option list \<Rightarrow> int" where
  "review_exit report_only results =
     (if report_only then 0
      else if list_ex (\<lambda>g. g = None \<or> g = Some Block) results then 1 else 0)"

section \<open>Watching for drift\<close>

record live_contract =
  lv_impl :: "pystr option"
  lv_hash :: pystr
  lv_signable :: "pystr list"

datatype drift = ImplChanged pystr pystr | NewUncovered pystr | StaleEntry pystr | AbiTouched

fun drift_severity :: "drift \<Rightarrow> pystr" where
  "drift_severity (ImplChanged _ _) = ''CRITICAL''"
| "drift_severity (NewUncovered _) = ''HIGH''"
| "drift_severity (StaleEntry _) = ''MEDIUM''"
| "drift_severity AbiTouched = ''LOW''"

definition FAILING :: "pystr list" where "FAILING = [''CRITICAL'', ''HIGH'']"

text \<open>\<open>sorted(a - b)\<close> on sets of texts.\<close>

definition sorted_minus :: "pystr list \<Rightarrow> pystr list \<Rightarrow> pystr list" where
  "sorted_minus a b = map fst (sort_items (map (\<lambda>s. (s, ())) (filter (\<lambda>s. s \<notin> set b) (remdups a))))"

definition drift_of :: "live_contract \<Rightarrow> live_contract \<Rightarrow> pystr list \<Rightarrow> drift list" where
  "drift_of baseline live covered =
     (let events =
            (case (lv_impl baseline, lv_impl live) of
               (Some i, Some j) \<Rightarrow> if i \<noteq> [] \<and> j \<noteq> [] \<and> i \<noteq> j then [ImplChanged i j] else []
             | _ \<Rightarrow> [])
            @ map NewUncovered (sorted_minus (lv_signable live) covered)
            @ map StaleEntry (sorted_minus covered (lv_signable live))
      in if events = [] \<and> lv_hash baseline \<noteq> lv_hash live then [AbiTouched] else events)"

datatype watch_status = Unresolvable | Baseline | Drift "drift list" | NoDrift

text \<open>One descriptor: its key, its covered signatures, and the live contract if it resolves.\<close>

definition watch_one ::
  "bool \<Rightarrow> (pystr, live_contract) odict \<Rightarrow> pystr \<times> pystr list \<times> live_contract option \<Rightarrow>
   watch_status \<times> (pystr, live_contract) odict" where
  "watch_one init state w =
     (case w of (key, covered, found) \<Rightarrow>
        (case found of
           None \<Rightarrow> (Unresolvable, state)
         | Some live \<Rightarrow>
             (case map_of state key of
                Some baseline \<Rightarrow>
                  if init then (Baseline, AList.update key live state)
                  else (case drift_of baseline live covered of [] \<Rightarrow> (NoDrift, state) | es \<Rightarrow> (Drift es, state))
              | None \<Rightarrow> (Baseline, AList.update key live state))))"

fun watch_all ::
  "bool \<Rightarrow> (pystr, live_contract) odict \<Rightarrow> (pystr \<times> pystr list \<times> live_contract option) list \<Rightarrow>
   watch_status list \<times> (pystr, live_contract) odict" where
  "watch_all init state [] = ([], state)"
| "watch_all init state (w # ws) =
     (case watch_one init state w of (r, s) \<Rightarrow> (case watch_all init s ws of (rs, s') \<Rightarrow> (r # rs, s')))"

definition watch_exit :: "watch_status list \<Rightarrow> int" where
  "watch_exit rs =
     (if list_ex (\<lambda>r. case r of Drift es \<Rightarrow> list_ex (\<lambda>e. drift_severity e \<in> set FAILING) es | _ \<Rightarrow> False) rs
      then 1 else 0)"

end
