(* ===== verification/Tools_Facts.thy ===== *)
theory Tools_Facts
  imports Descriptor_Tools
begin

text \<open>
  What the tools promise: a transaction without divergences was shown as it happened, an
  attestation is only made on the evidence it names, and drift is reported until a new
  baseline is accepted.
\<close>

section \<open>The screen\<close>

lemma item_of_Inr [simp]: "item_of v k = Inr x \<longleftrightarrow> (\<exists>d. v = PDict d \<and> map_of d k = Some x)"
  by (auto simp: item_of_def split: pyval.splits option.splits)

lemma get_of_Inr [simp]: "get_of v k x = Inr y \<longleftrightarrow> (\<exists>d. v = PDict d \<and> y = dget_or d k x)"
  by (auto simp: get_of_def split: pyval.splits)

lemma raised_Inr [simp]: "raised m = Inr x \<longleftrightarrow> m = Inr x"
  by (simp add: raised_def split: sum.split)

text \<open>A visible field that shows the native value, and one that shows an address under a label.\<close>

definition shows_value :: "pyval \<Rightarrow> bool" where
  "shows_value f \<longleftrightarrow> (\<exists>d. f = PDict d \<and> dget d ''visible'' \<noteq> PStr ''never'' \<and> dget d ''path'' = PStr ''@.value'')"

definition shows_address :: "(pystr \<Rightarrow> pyval option) \<Rightarrow> pyval \<Rightarrow> pystr \<Rightarrow> pystr \<Rightarrow> bool" where
  "shows_address decoded f l a \<longleftrightarrow>
     (\<exists>d p v t. f = PDict d \<and> dget d ''visible'' \<noteq> PStr ''never'' \<and> dget d ''path'' = PStr p
        \<and> dget d ''format'' = PStr ''addressName'' \<and> py_startswith p ''#.''
        \<and> decoded (hd (py_split (CHR ''.'') (drop 2 p))) = Some (PStr v) \<and> py_startswith v ''0x'' \<and> a = py_lower v
        \<and> dget_or d ''label'' (PStr []) = PStr t \<and> l = py_lower (py_strip t))"

lemma dget_or_text: "dget_or d k (PStr []) = PStr p \<Longrightarrow> p \<noteq> [] \<Longrightarrow> dget d k = PStr p"
  by (auto simp: dget_or_def dget_def split: option.splits)

lemma dget_or_None: "dget_or d k PNone = dget d k"
  by (simp add: dget_or_def dget_def)

lemma startswith_Nil [simp]: "\<not> py_startswith [] (c # s)"
  by (simp add: py_startswith_def)

lemma labelled_claim_Inr:
  assumes "labelled_claim decoded (PDict d) p = Inr cs"
  shows "ClaimsValue \<notin> set cs"
    and "ClaimsAddress l a \<in> set cs \<longleftrightarrow> (\<exists>v t. py_startswith p ''#.''
       \<and> decoded (hd (py_split (CHR ''.'') (drop 2 p))) = Some (PStr v) \<and> py_startswith v ''0x'' \<and> a = py_lower v
       \<and> dget_or d ''label'' (PStr []) = PStr t \<and> l = py_lower (py_strip t))"
  using assms
  by (auto simp: labelled_claim_def get_of_def split: if_splits option.splits pyval.splits)

lemma field_claims_Inr:
  assumes "field_claims decoded f = Inr cs"
  shows "\<exists>d. f = PDict d \<and> (if dget d ''visible'' = PStr ''never'' then cs = []
     else \<exists>here. (here = (if dget_or d ''path'' (PStr []) = PStr ''@.value'' then [ClaimsValue] else []))
       \<and> (if dget d ''format'' \<noteq> PStr ''addressName'' then cs = here
          else \<exists>p cs'. dget_or d ''path'' (PStr []) = PStr p \<and> labelled_claim decoded f p = Inr cs' \<and> cs = here @ cs'))"
proof -
  obtain d where f: "f = PDict d" using assms by (auto simp: field_claims_def res_bind_Inr_iff)
  show ?thesis
  proof (cases "dget d ''visible'' = PStr ''never''")
    case True
    then show ?thesis using assms by (simp add: f field_claims_def get_of_def dget_or_None)
  next
    case visible: False
    show ?thesis
    proof (cases "dget d ''format'' = PStr ''addressName''")
      case True
      then show ?thesis
        using assms visible
        by (cases "dget_or d ''path'' (PStr [])")
          (auto simp: f field_claims_def get_of_def dget_or_None Let_def res_bind_Inr_iff)
    next
      case False
      then show ?thesis
        using assms visible by (simp add: f field_claims_def get_of_def dget_or_None Let_def)
    qed
  qed
qed

lemma field_claims_value:
  assumes "field_claims decoded f = Inr cs" "ClaimsValue \<in> set cs"
  shows "shows_value f"
  using field_claims_Inr [OF assms(1)] assms(2) dget_or_text labelled_claim_Inr(1)
  by (fastforce simp: shows_value_def split: if_splits)

lemma field_claims_address:
  assumes "field_claims decoded f = Inr cs"
  shows "ClaimsAddress l a \<in> set cs \<longleftrightarrow> shows_address decoded f l a"
proof -
  obtain d where f: "f = PDict d" using assms by (auto simp: field_claims_def res_bind_Inr_iff)
  have path: "dget_or d ''path'' (PStr []) = PStr p \<longleftrightarrow> dget d ''path'' = PStr p" if "py_startswith p ''#.''" for p
    using that dget_or_text [of d "''path''" p] by (auto simp: dget_or_def dget_def split: option.splits)
  show ?thesis
  proof (cases "dget d ''visible'' \<noteq> PStr ''never'' \<and> dget d ''format'' = PStr ''addressName''")
    case True
    then obtain p cs' where p: "dget_or d ''path'' (PStr []) = PStr p" "labelled_claim decoded (PDict d) p = Inr cs'"
      and mem: "ClaimsAddress l a \<in> set cs \<longleftrightarrow> ClaimsAddress l a \<in> set cs'"
      using field_claims_Inr [OF assms] f by (auto split: if_splits)
    show ?thesis
      unfolding mem labelled_claim_Inr(2) [OF p(2)] using True p(1) path f by (auto simp: shows_address_def)
  next
    case False
    then have "ClaimsAddress l a \<notin> set cs"
      using field_claims_Inr [OF assms] f by (auto split: if_splits)
    then show ?thesis using False f by (auto simp: shows_address_def)
  qed
qed

text \<open>Where a screen comes from: the fields of the called function's format, and the decoded arguments.\<close>

definition screen_source ::
  "pf_env \<Rightarrow> pyval \<Rightarrow> bytes \<Rightarrow> pystr \<Rightarrow> pyval list \<Rightarrow> (pystr \<Rightarrow> pyval option) \<Rightarrow> bool" where
  "screen_source env desc data sig fds decoded \<longleftrightarrow>
     (\<exists>abi inputs names vals formats fm v.
        descriptor_abi (env_float_text env) (env_encodable env) (env_abi_cache env) desc = Inr abi
        \<and> map_of (selector_index (env_keccak env) abi) (''0x'' @ bytes_hex (take 4 data)) = Some (sig, inputs)
        \<and> env_decode env (map canonical_type inputs) (drop 4 data) = Some vals
        \<and> map ai_name inputs = map Some names \<and> decoded = map_of (rev (zip names vals))
        \<and> res_bind (item_of desc ''display'') (\<lambda>d. item_of d ''formats'') = Inr formats
        \<and> get_of formats sig (PDict []) = Inr fm \<and> get_of fm ''fields'' (PList []) = Inr v \<and> iter_of v = Inr fds)"

lemma named_inputs_Inr:
  "res_map (\<lambda>i. case ai_name i of None \<Rightarrow> Inl (Raised (KeyError ''name'')) | Some n \<Rightarrow> Inr n) inputs = Inr names
   \<Longrightarrow> map ai_name inputs = map Some names"
  by (induction inputs arbitrary: names) (auto simp: res_bind_Inr_iff split: option.splits)

lemma res_map_concat:
  "res_map f xs = Inr ys \<Longrightarrow> y \<in> set (concat ys) \<longleftrightarrow> (\<exists>x\<in>set xs. \<exists>zs. f x = Inr zs \<and> y \<in> set zs)"
  by (induction xs arbitrary: ys) (auto simp: res_bind_Inr_iff)

lemma screen_claims_Inr:
  assumes "screen_claims env desc data = Inr sc"
  shows "\<exists>fds decoded cs. screen_source env desc data (sc_signature sc) fds decoded
    \<and> res_map (field_claims decoded) fds = Inr cs \<and> sc_claims sc = concat cs"
proof -
  obtain abi sig inputs names vals formats fm v fds cs where s:
    "descriptor_abi (env_float_text env) (env_encodable env) (env_abi_cache env) desc = Inr abi"
    "map_of (selector_index (env_keccak env) abi) (''0x'' @ bytes_hex (take 4 data)) = Some (sig, inputs)"
    "res_map (\<lambda>i. case ai_name i of None \<Rightarrow> Inl (Raised (KeyError ''name'')) | Some n \<Rightarrow> Inr n) inputs = Inr names"
    "env_decode env (map canonical_type inputs) (drop 4 data) = Some vals"
    "res_bind (item_of desc ''display'') (\<lambda>d. item_of d ''formats'') = Inr formats"
    "get_of formats sig (PDict []) = Inr fm" "get_of fm ''fields'' (PList []) = Inr v" "iter_of v = Inr fds"
    "res_map (field_claims (map_of (rev (zip names vals)))) fds = Inr cs"
    "sc = \<lparr>sc_signature = sig, sc_claims = concat cs\<rparr>"
    using assms unfolding screen_claims_def Let_def res_bind_Inr_iff raised_Inr
    by (fastforce split: option.splits prod.splits simp: res_bind_Inr_iff simp del: item_of_Inr get_of_Inr)
  have "screen_source env desc data sig fds (map_of (rev (zip names vals)))"
    unfolding screen_source_def using s(1,2,4-8) named_inputs_Inr [OF s(3)] by blast
  then show ?thesis using s(9,10) by auto
qed

section \<open>The movements\<close>

text \<open>What a log says happened: an asset arrived at an address, an operator was approved.\<close>

definition asset_to :: "log_entry \<Rightarrow> pystr \<Rightarrow> bool" where
  "asset_to l a \<longleftrightarrow> a \<noteq> ZERO_ADDRESS
     \<and> (\<exists>t x y z n. 0 < n
        \<and> ((lg_topics l = [t, x, y] \<and> py_lower t = TRANSFER \<and> a = addr_of y \<and> py_int16 (lg_data l) = Inr n)
           \<or> (lg_topics l = [t, x, y, z] \<and> py_lower t = TRANSFER_SINGLE \<and> a = addr_of z
              \<and> py_int16 (take 64 (drop 64 (drop 2 (lg_data l)))) = Inr n)))"

definition approves :: "log_entry \<Rightarrow> pystr \<Rightarrow> bool" where
  "approves l op \<longleftrightarrow> (\<exists>t x y. lg_topics l = [t, x, y] \<and> py_lower t = APPROVAL_FOR_ALL \<and> op = addr_of y
     \<and> py_int16 (lg_data l) = Inr 1)"

lemma topics_distinct: "TRANSFER \<noteq> TRANSFER_SINGLE" "TRANSFER \<noteq> APPROVAL_FOR_ALL" "TRANSFER_SINGLE \<noteq> APPROVAL_FOR_ALL"
  by (simp_all add: TRANSFER_def TRANSFER_SINGLE_def APPROVAL_FOR_ALL_def)

lemma empty_number: "py_int16 ''0x'' = Inl (Raised (ValueError ''invalid literal for int() with base 16''))"
    "py_int16 [] = Inl (Raised (ValueError ''invalid literal for int() with base 16''))"
  by code_simp+

lemma log_movement_received:
  assumes "log_movement l = Inr ms"
  shows "(\<exists>m\<in>set ms. a \<in> set (received m)) \<longleftrightarrow> asset_to l a"
proof (cases "lg_topics l")
  case Nil
  then show ?thesis using assms by (simp add: log_movement_def)
next
  case (Cons t ts)
  consider (erc20) "py_lower t = TRANSFER" "length ts = 2"
    | (erc1155) "py_lower t = TRANSFER_SINGLE" "length ts = 3"
    | (approval) "py_lower t = APPROVAL_FOR_ALL" "length ts = 2"
    | (other) "\<not> (py_lower t = TRANSFER \<and> length ts = 2)" "\<not> (py_lower t = TRANSFER_SINGLE \<and> length ts = 3)"
        "\<not> (py_lower t = APPROVAL_FOR_ALL \<and> length ts = 2)"
    by blast
  then show ?thesis
  proof cases
    case erc20
    then obtain x y where "ts = [x, y]" by (auto simp: length_Suc_conv numeral_2_eq_2)
    then show ?thesis
      using assms topics_distinct Cons erc20
      by (auto simp: log_movement_def asset_to_def received_def res_bind_Inr_iff Let_def empty_number split: if_splits)
  next
    case erc1155
    then obtain x y z where "ts = [x, y, z]" by (auto simp: length_Suc_conv numeral_3_eq_3)
    then show ?thesis
      using assms topics_distinct Cons erc1155
      by (auto simp: log_movement_def asset_to_def received_def res_bind_Inr_iff Let_def split: if_splits)
  next
    case approval
    then obtain x y where "ts = [x, y]" by (auto simp: length_Suc_conv numeral_2_eq_2)
    then show ?thesis
      using assms topics_distinct Cons approval
      by (auto simp: log_movement_def asset_to_def received_def res_bind_Inr_iff Let_def split: if_splits)
  next
    case other
    then show ?thesis
      using assms Cons by (auto simp: log_movement_def asset_to_def Let_def split: if_splits)
  qed
qed

lemma log_movement_approval:
  assumes "log_movement l = Inr ms" "approves l op"
  shows "\<exists>owner. ApprovalMove owner op True \<in> set ms"
  using assms topics_distinct by (auto simp: log_movement_def approves_def Let_def)

lemma movements_Inr:
  assumes "movements tx = Inr moves"
  shows "(\<forall>a. a \<in> set (recipients moves) \<longleftrightarrow> (\<exists>l\<in>set (mt_logs tx). asset_to l a))"
    and "l \<in> set (mt_logs tx) \<Longrightarrow> approves l op \<Longrightarrow> \<exists>owner. ApprovalMove owner op True \<in> set moves"
    and "py_int16 (mt_value tx) = Inr n \<Longrightarrow> 0 < n \<Longrightarrow> \<exists>a. EthMove a n \<in> set moves"
proof -
  obtain eth mss where e: "eth_movement tx = Inr eth" and m: "res_map log_movement (mt_logs tx) = Inr mss"
    and moves: "moves = eth @ concat mss"
    using assms by (auto simp: movements_def res_bind_Inr_iff)
  have eth: "\<forall>m\<in>set eth. received m = []"
    using e by (auto simp: eth_movement_def res_bind_Inr_iff received_def split: if_splits option.splits)
  have in_logs: "m \<in> set (concat mss) \<longleftrightarrow> (\<exists>l\<in>set (mt_logs tx). \<exists>ms. log_movement l = Inr ms \<and> m \<in> set ms)" for m
    by (rule res_map_concat [OF m])
  have each: "\<exists>ms. log_movement l = Inr ms" if "l \<in> set (mt_logs tx)" for l
    using res_map_Inr_mem [OF m that] by blast
  show "\<forall>a. a \<in> set (recipients moves) \<longleftrightarrow> (\<exists>l\<in>set (mt_logs tx). asset_to l a)"
  proof
    fix a
    have "a \<in> set (recipients moves) \<longleftrightarrow> (\<exists>m\<in>set (concat mss). a \<in> set (received m))"
      using eth by (auto simp: recipients_def moves)
    also have "\<dots> \<longleftrightarrow> (\<exists>l\<in>set (mt_logs tx). \<exists>ms. log_movement l = Inr ms \<and> (\<exists>m\<in>set ms. a \<in> set (received m)))"
      unfolding Bex_def [of "set (concat mss)"] in_logs by blast
    also have "\<dots> \<longleftrightarrow> (\<exists>l\<in>set (mt_logs tx). asset_to l a)"
      using log_movement_received each by metis
    finally show "a \<in> set (recipients moves) \<longleftrightarrow> (\<exists>l\<in>set (mt_logs tx). asset_to l a)" .
  qed
  show "\<exists>owner. ApprovalMove owner op True \<in> set moves" if l: "l \<in> set (mt_logs tx)" "approves l op"
  proof -
    obtain ms where ms: "log_movement l = Inr ms" using each [OF l(1)] by blast
    obtain owner where "ApprovalMove owner op True \<in> set ms" using log_movement_approval [OF ms l(2)] by blast
    then have "ApprovalMove owner op True \<in> set (concat mss)" using in_logs l(1) ms by blast
    then show ?thesis by (auto simp: moves)
  qed
  show "\<exists>a. EthMove a n \<in> set moves" if "py_int16 (mt_value tx) = Inr n" "0 < n"
    using e that by (auto simp: eth_movement_def moves split: option.splits)
qed

lemma screen_fields:
  assumes "screen_claims env desc data = Inr sc"
  obtains fds decoded where "screen_source env desc data (sc_signature sc) fds decoded"
    "\<And>t a. ClaimsAddress t a \<in> set (sc_claims sc) \<longleftrightarrow> (\<exists>f\<in>set fds. shows_address decoded f t a)"
    "\<And>a. a \<in> set (shown_addresses sc) \<longleftrightarrow> (\<exists>f\<in>set fds. \<exists>t. shows_address decoded f t a)"
    "ClaimsValue \<in> set (sc_claims sc) \<Longrightarrow> \<exists>f\<in>set fds. shows_value f"
proof -
  obtain fds decoded cs where src: "screen_source env desc data (sc_signature sc) fds decoded"
    and cs: "res_map (field_claims decoded) fds = Inr cs" "sc_claims sc = concat cs"
    using screen_claims_Inr [OF assms] by blast
  have claims: "c \<in> set (sc_claims sc) \<longleftrightarrow> (\<exists>f\<in>set fds. \<exists>zs. field_claims decoded f = Inr zs \<and> c \<in> set zs)" for c
    unfolding cs(2) by (rule res_map_concat [OF cs(1)])
  have each: "\<exists>zs. field_claims decoded f = Inr zs" if "f \<in> set fds" for f
    using res_map_Inr_mem [OF cs(1) that] by blast
  have addr: "ClaimsAddress t a \<in> set (sc_claims sc) \<longleftrightarrow> (\<exists>f\<in>set fds. shows_address decoded f t a)" for t a
    unfolding claims using each field_claims_address by metis
  have "a \<in> set (shown_addresses sc) \<longleftrightarrow> (\<exists>t. ClaimsAddress t a \<in> set (sc_claims sc))" for a
    by (auto simp: shown_addresses_def split: claim.splits)
  then have shown: "a \<in> set (shown_addresses sc) \<longleftrightarrow> (\<exists>f\<in>set fds. \<exists>t. shows_address decoded f t a)" for a
    using addr by blast
  have "\<exists>f\<in>set fds. shows_value f" if "ClaimsValue \<in> set (sc_claims sc)"
    using that field_claims_value unfolding claims by blast
  with src addr shown show ?thesis using that by blast
qed

lemma no_divergences:
  assumes "divergences sc contract moves = []"
  shows "a \<in> set (recipients moves) \<Longrightarrow> a \<noteq> contract \<Longrightarrow> a \<in> set (shown_addresses sc)"
    and "ApprovalMove owner op True \<in> set moves \<Longrightarrow> op \<in> set (shown_addresses sc)"
    and "EthMove a n \<in> set moves \<Longrightarrow> ClaimsValue \<in> set (sc_claims sc)"
    and "recipients moves \<noteq> [] \<Longrightarrow> ClaimsAddress t a \<in> set (sc_claims sc) \<Longrightarrow> is_recipient_label t
      \<Longrightarrow> a = contract \<or> a \<in> set (recipients moves)"
proof -
  note parts = assms [unfolded divergences_def append_is_Nil_conv concat_eq_Nil_conv]
  have moved: "\<forall>m\<in>set moves. movement_divergences sc contract moves m = []" using parts by auto
  show "a \<in> set (shown_addresses sc)" if a: "a \<in> set (recipients moves)" "a \<noteq> contract"
  proof -
    obtain m where "m \<in> set moves" "a \<in> set (received m)" using a(1) by (auto simp: recipients_def)
    then show ?thesis
      using moved a by (fastforce simp: received_def movement_divergences_def Let_def split: movement.splits if_splits)
  qed
  show "op \<in> set (shown_addresses sc)" if "ApprovalMove owner op True \<in> set moves"
    using moved that by (force simp: movement_divergences_def split: if_splits)
  show "ClaimsValue \<in> set (sc_claims sc)" if "EthMove a n \<in> set moves"
    using parts that by (force simp: list_ex_iff split: if_splits)
  show "a = contract \<or> a \<in> set (recipients moves)"
    if "recipients moves \<noteq> []" "ClaimsAddress t a \<in> set (sc_claims sc)" "is_recipient_label t"
    using parts that by (force simp: claim_divergences_def split: if_splits)
qed

section \<open>Properties\<close>


definition vector_env :: pf_env where
  "vector_env = toy_env\<lparr>env_decode := (\<lambda>ts b. if length ts = 2 then Some [PStr toy_address, PInt 5] else None)\<rparr>"

definition toy_mined :: mined where
  "toy_mined = \<lparr>mt_value = ''0x0'', mt_to = Some ''0xcc'', mt_input = ''0x7472616e07'',
     mt_logs = [\<lparr>lg_topics = [TRANSFER, ''0xbb'', ''0x'' @ replicate 24 CHR ''0'' @ replicate 40 CHR ''A''], lg_data = ''0x05''\<rparr>]\<rparr>"

lemma toy_verified:
  "verify_one vector_env toy_transfer_descriptor ''0xCC'' toy_mined
   = Inr (''transfer(address,uint256)'', [Erc20Move ''0x0xbb'' toy_address 5], [])"
  by code_simp


text \<open>
  Two things the tool misses: a log without topics makes it raise, and the transfer of an
  ERC-721 token, whose \<open>Transfer\<close> event has four topics, is no movement.
\<close>

lemma anonymous_log_raises: "log_movement \<lparr>lg_topics = [], lg_data = d\<rparr> = Inl IndexError"
  by (simp add: log_movement_def)

lemma nft_transfer_unseen:
  "log_movement \<lparr>lg_topics = [TRANSFER, x, y, z], lg_data = d\<rparr> = Inr []"
proof -
  have "py_lower TRANSFER = TRANSFER" by code_simp
  then show ?thesis using topics_distinct by (simp add: log_movement_def)
qed

text \<open>Counting rows.\<close>

lemma evaluate_Inr:
  assumes "evaluate env fetch simulate desc contract vectors = Inr r"
  shows "sr_total r = length (sr_rows r)" "sr_verified r = length (filter (\<lambda>r. rw_divergences r = []) (sr_rows r))"
    "sr_divergences r = 0 \<longleftrightarrow> (\<forall>row\<in>set (sr_rows r). rw_divergences row = [])"
proof -
  obtain rows skips where r: "r = \<lparr>sr_rows = rows, sr_skipped = skips, sr_total = length rows,
      sr_verified = length (filter (\<lambda>r. rw_divergences r = []) rows),
      sr_divergences = sum_list (map (\<lambda>r. length (rw_divergences r)) rows)\<rparr>"
    using assms unfolding evaluate_def res_bind_Inr_iff Let_def by blast
  show "sr_total r = length (sr_rows r)" "sr_verified r = length (filter (\<lambda>r. rw_divergences r = []) (sr_rows r))"
    "sr_divergences r = 0 \<longleftrightarrow> (\<forall>row\<in>set (sr_rows r). rw_divergences row = [])"
    by (simp_all add: r)
qed

text \<open>The report of a review cannot be rendered exactly when a vector diverges.\<close>

lemma diverging_review_raises:
  assumes "evaluate env fetch simulate desc contract vectors = Inr r"
  shows "divergence_lines r = Inr 1 \<longleftrightarrow> semverify_exit r = 0"
  using evaluate_Inr(3) [OF assms] by (auto simp: divergence_lines_def semverify_exit_def list_ex_iff)

text \<open>
  C37: An attestation states only what was checked. A descriptor is attested, signed or not,
  only with an audit grade of A or B; where an explorer's key is present, only if at least
  one vector ran and every one verified without a divergence; without a key, only if no
  simulation was required; and it is signed only by a configured account under a schema.
\<close>

theorem attestation_gated:
  assumes "attest audited has_key (evaluate env fetch simulate desc contract vectors) require_sim schema account = Inr x"
    and "x = Unsigned \<or> (\<exists>a. x = Signed a)"
  shows "(\<exists>r. audited = Inr r \<and> (ar_grade r = ''A'' \<or> ar_grade r = ''B''))
    \<and> (has_key \<longrightarrow> (\<exists>r. evaluate env fetch simulate desc contract vectors = Inr r
          \<and> sr_rows r \<noteq> [] \<and> (\<forall>row\<in>set (sr_rows r). rw_divergences row = [])))
    \<and> (\<not> has_key \<longrightarrow> \<not> require_sim)
    \<and> (\<forall>a. x = Signed a \<longrightarrow> account = Some a \<and> schema \<noteq> None \<and> schema \<noteq> Some [])"
proof -
  obtain r where r: "audited = Inr r" "ar_grade r \<in> set MIN_GRADE"
    using assms by (auto simp: attest_def res_bind_Inr_iff split: if_splits)
  have ran: "\<exists>e. evaluate env fetch simulate desc contract vectors = Inr e \<and> sr_divergences e = 0 \<and> 0 < sr_total e" if has_key
    using assms r that by (auto simp: attest_def run_semverify_def res_bind_Inr_iff split: if_splits)
  have "\<exists>e. evaluate env fetch simulate desc contract vectors = Inr e
      \<and> sr_rows e \<noteq> [] \<and> (\<forall>row\<in>set (sr_rows e). rw_divergences row = [])" if has_key
    using ran [OF that] evaluate_Inr(1,3) by fastforce
  moreover have "\<not> require_sim" if "\<not> has_key"
    using assms r that by (auto simp: attest_def run_semverify_def split: if_splits)
  moreover have "account = Some a \<and> schema \<noteq> None \<and> schema \<noteq> Some []" if "x = Signed a" for a
    using assms(1) r that
    by (auto simp: attest_def sign_choice_def run_semverify_def res_bind_Inr_iff split: if_splits option.splits)
  ultimately show ?thesis using r by (auto simp: MIN_GRADE_def)
qed

definition graded :: "tool_failure + audit_report" where
  "graded = Inr \<lparr>ar_score = 95, ar_grade = ''A'', ar_signable = 1, ar_covered = 1, ar_findings = []\<rparr>"

theorem attestation_gated_witness:
  "attest graded True (evaluate vector_env (\<lambda>h. Inr toy_mined) None toy_transfer_descriptor ''0xCC''
      [PDict [(''txHash'', PStr ''0x01'')]]) True (Some ''0x02'') (Some ''0x03'') = Inr (Signed ''0x03'')
   \<and> (\<exists>r. evaluate vector_env (\<lambda>h. Inr toy_mined) None toy_transfer_descriptor ''0xCC''
        [PDict [(''txHash'', PStr ''0x01'')]] = Inr r \<and> sr_rows r \<noteq> [])"
proof -
  have "run_vector vector_env (\<lambda>h. Inr toy_mined) None toy_transfer_descriptor ''0xCC'' (PDict [(''txHash'', PStr ''0x01'')])
      = Inr (Row \<lparr>rw_signature = ''transfer(address,uint256)'', rw_moves = [Erc20Move ''0x0xbb'' toy_address 5],
          rw_divergences = []\<rparr>)"
    by (simp add: run_vector_def get_of_def toy_verified to_row_def)
  then have a: "attest graded True (evaluate vector_env (\<lambda>h. Inr toy_mined) None toy_transfer_descriptor ''0xCC''
      [PDict [(''txHash'', PStr ''0x01'')]]) True (Some ''0x02'') (Some ''0x03'') = Inr (Signed ''0x03'')"
    by (simp add: attest_def sign_choice_def graded_def MIN_GRADE_def run_semverify_def evaluate_def Let_def)
  from attestation_gated [OF this] a show ?thesis by blast
qed

section \<open>Drift\<close>

lemma sorted_minus_set [simp]: "set (sorted_minus a b) = set a - set b"
proof -
  have "set (sort_items kvs) = set kvs" for kvs :: "(pystr \<times> unit) list"
  proof -
    have "set (insert_key kv xs) = insert kv (set xs)" for kv and xs :: "(pystr \<times> unit) list"
      by (induction xs) auto
    then show ?thesis by (induction kvs) (simp_all add: sort_items_def)
  qed
  then show ?thesis by (auto simp: sorted_minus_def image_iff)
qed

text \<open>What must fail a run: the implementation was replaced, or a live function has no screen.\<close>

definition drifted :: "live_contract \<Rightarrow> live_contract \<Rightarrow> pystr list \<Rightarrow> bool" where
  "drifted baseline live covered \<longleftrightarrow>
     (\<exists>i j. lv_impl baseline = Some i \<and> lv_impl live = Some j \<and> i \<noteq> [] \<and> j \<noteq> [] \<and> i \<noteq> j)
     \<or> (\<exists>sig\<in>set (lv_signable live). sig \<notin> set covered)"

lemma drift_failing:
  "(\<exists>e\<in>set (drift_of baseline live covered). drift_severity e \<in> set FAILING) \<longleftrightarrow> drifted baseline live covered"
proof -
  let ?events = "(case (lv_impl baseline, lv_impl live) of
               (Some i, Some j) \<Rightarrow> if i \<noteq> [] \<and> j \<noteq> [] \<and> i \<noteq> j then [ImplChanged i j] else []
             | _ \<Rightarrow> [])
            @ map NewUncovered (sorted_minus (lv_signable live) covered)
            @ map StaleEntry (sorted_minus covered (lv_signable live))"
  obtain events where ev: "events = ?events" by simp
  have "(\<exists>e\<in>set events. drift_severity e \<in> set FAILING) \<longleftrightarrow> drifted baseline live covered"
    unfolding ev drifted_def set_append set_map bex_Un sorted_minus_set
    by (cases "lv_impl baseline"; cases "lv_impl live") (simp_all add: FAILING_def set_eq_subset subset_iff, blast+)
  moreover have "drift_of baseline live covered = (if events = [] \<and> lv_hash baseline \<noteq> lv_hash live then [AbiTouched] else events)"
    unfolding drift_of_def Let_def ev by (rule refl)
  moreover have "drift_severity AbiTouched \<notin> set FAILING" by (simp add: FAILING_def)
  ultimately show ?thesis by (auto split: if_splits)
qed

lemma watch_all_state:
  assumes "watch_all False state ws = (rs, s')" "map_of state key = Some b"
  shows "map_of s' key = Some b"
  using assms
proof (induction ws arbitrary: state rs)
  case (Cons w ws)
  obtain r s where r: "watch_one False state w = (r, s)" by fastforce
  then have "map_of s key = Some b"
    using Cons.prems(2) by (auto simp: watch_one_def update_Some_unfold split: prod.splits option.splits list.splits)
  then show ?case using Cons r by (auto split: prod.splits)
qed simp

lemma watch_all_status:
  assumes "watch_all False state ws = (rs, s')" "map_of state key = Some b" "(key, covered, Some live) \<in> set ws"
  shows "(case drift_of b live covered of [] \<Rightarrow> NoDrift | es \<Rightarrow> Drift es) \<in> set rs"
  using assms
proof (induction ws arbitrary: state rs)
  case (Cons w ws)
  obtain r s where r: "watch_one False state w = (r, s)" by fastforce
  then have s: "map_of s key = Some b"
    using Cons.prems(2) by (auto simp: watch_one_def update_Some_unfold split: prod.splits option.splits list.splits)
  obtain rs' where rs: "watch_all False s ws = (rs', s')" "rs = r # rs'"
    using Cons.prems(1) r by (auto split: prod.splits)
  show ?case
  proof (cases "w = (key, covered, Some live)")
    case True
    then have "r = (case drift_of b live covered of [] \<Rightarrow> NoDrift | es \<Rightarrow> Drift es)"
      using r Cons.prems(2) by (auto simp: watch_one_def split: list.splits)
    then show ?thesis by (simp add: rs)
  next
    case False
    then show ?thesis using Cons.IH [OF rs(1) s] Cons.prems(3) by (auto simp: rs)
  qed
qed simp

lemma watch_all_results:
  assumes "watch_all False state ws = (rs, s')" "\<forall>w\<in>set ws. \<exists>b. map_of state (fst w) = Some b" "r \<in> set rs"
  shows "r = Unresolvable \<or> (\<exists>key covered live b. (key, covered, Some live) \<in> set ws \<and> map_of state key = Some b
      \<and> r = (case drift_of b live covered of [] \<Rightarrow> NoDrift | es \<Rightarrow> Drift es))"
  using assms
proof (induction ws arbitrary: rs)
  case (Cons w ws)
  obtain key covered found b where w: "w = (key, covered, found)" "map_of state key = Some b"
    using Cons.prems(2) by (cases w) auto
  have one: "watch_one False state w = (case found of None \<Rightarrow> Unresolvable
      | Some live \<Rightarrow> (case drift_of b live covered of [] \<Rightarrow> NoDrift | es \<Rightarrow> Drift es), state)"
    by (simp add: w watch_one_def split: option.split list.split)
  obtain rs' where rs: "watch_all False state ws = (rs', s')"
    "rs = (case found of None \<Rightarrow> Unresolvable
      | Some live \<Rightarrow> (case drift_of b live covered of [] \<Rightarrow> NoDrift | es \<Rightarrow> Drift es)) # rs'"
    using Cons.prems(1) one by (auto split: prod.splits)
  show ?case
  proof (cases "r \<in> set rs'")
    case True
    from Cons.IH [OF rs(1) _ this] Cons.prems(2)
    have "r = Unresolvable \<or> (\<exists>key covered live b. (key, covered, Some live) \<in> set ws \<and> map_of state key = Some b
        \<and> r = (case drift_of b live covered of [] \<Rightarrow> NoDrift | es \<Rightarrow> Drift es))" by simp
    then show ?thesis unfolding list.set by blast
  next
    case False
    then have r: "r = (case found of None \<Rightarrow> Unresolvable
        | Some live \<Rightarrow> (case drift_of b live covered of [] \<Rightarrow> NoDrift | es \<Rightarrow> Drift es))"
      using Cons.prems(3) rs(2) by simp
    show ?thesis
    proof (cases found)
      case (Some live)
      then have "(key, covered, Some live) \<in> set (w # ws)" using w(1) by simp
      moreover have "r = (case drift_of b live covered of [] \<Rightarrow> NoDrift | es \<Rightarrow> Drift es)" using r Some by simp
      ultimately show ?thesis using w(2) by blast
    qed (simp add: r)
  qed
qed simp

text \<open>
  C38: Drift is not forgotten. A run without \<open>--init\<close> keeps every recorded baseline, whatever
  it finds, and it fails exactly if some descriptor's live contract, against its baseline, has
  another implementation or a signable function without a screen; so a drift fails every run
  until a new baseline is recorded.
\<close>

theorem drift_persists:
  assumes "watch_all False state ws = (rs, s')" "\<forall>w\<in>set ws. \<exists>b. map_of state (fst w) = Some b"
  shows "(\<forall>key b. map_of state key = Some b \<longrightarrow> map_of s' key = Some b)
    \<and> (watch_exit rs = 1 \<longleftrightarrow> (\<exists>key covered live b. (key, covered, Some live) \<in> set ws \<and> map_of state key = Some b
          \<and> drifted b live covered))"
proof
  show "\<forall>key b. map_of state key = Some b \<longrightarrow> map_of s' key = Some b"
    using watch_all_state [OF assms(1)] by blast
  note from_ws = watch_all_results [OF assms]
  show "watch_exit rs = 1 \<longleftrightarrow> (\<exists>key covered live b. (key, covered, Some live) \<in> set ws \<and> map_of state key = Some b
          \<and> drifted b live covered)"
  proof
    assume "watch_exit rs = 1"
    then obtain st where st: "st \<in> set rs"
      "case st of Drift es \<Rightarrow> list_ex (\<lambda>e. drift_severity e \<in> set FAILING) es | _ \<Rightarrow> False"
      unfolding watch_exit_def list_ex_iff [of _ rs] by (auto simp del: list_ex_iff split: if_splits)
    then obtain es e where es: "Drift es \<in> set rs" "e \<in> set es" "drift_severity e \<in> set FAILING"
      by (cases st rule: watch_status.exhaust) (auto simp: list_ex_iff)
    from from_ws [OF es(1)] obtain key covered live b where k: "(key, covered, Some live) \<in> set ws"
      "map_of state key = Some b" "Drift es = (case drift_of b live covered of [] \<Rightarrow> NoDrift | es \<Rightarrow> Drift es)" by blast
    then have "drift_of b live covered = es" by (cases "drift_of b live covered") simp_all
    with k(1,2)
    show "\<exists>key covered live b. (key, covered, Some live) \<in> set ws \<and> map_of state key = Some b \<and> drifted b live covered"
      using drift_failing es(2,3) by metis
  next
    assume "\<exists>key covered live b. (key, covered, Some live) \<in> set ws \<and> map_of state key = Some b \<and> drifted b live covered"
    then obtain key covered live b where d: "(key, covered, Some live) \<in> set ws" "map_of state key = Some b"
      "drifted b live covered" by blast
    obtain e where e: "e \<in> set (drift_of b live covered)" "drift_severity e \<in> set FAILING" using drift_failing d(3) by blast
    have "Drift (drift_of b live covered) \<in> set rs"
      using watch_all_status [OF assms(1) d(2,1)] e(1) by (auto split: list.splits)
    then show "watch_exit rs = 1" using e by (force simp: watch_exit_def list_ex_iff)
  qed
qed

text \<open>The proxy of a deposited contract gains a function; its implementation stays.\<close>

definition pinned_contract :: live_contract where
  "pinned_contract = \<lparr>lv_impl = Some ''0x01'', lv_hash = ''aa'', lv_signable = [''transfer(address,uint256)'']\<rparr>"

definition grown_contract :: live_contract where
  "grown_contract = \<lparr>lv_impl = Some ''0x01'', lv_hash = ''bb'',
     lv_signable = [''transfer(address,uint256)'', ''sweep(address)'']\<rparr>"

theorem drift_persists_witness:
  "watch_all False [(''token.json'', pinned_contract)] [(''token.json'', [''transfer(address,uint256)''], Some grown_contract)]
     = ([Drift [NewUncovered ''sweep(address)'']], [(''token.json'', pinned_contract)])
   \<and> watch_exit [Drift [NewUncovered ''sweep(address)'']] = 1"
proof -
  have run: "watch_all False [(''token.json'', pinned_contract)]
      [(''token.json'', [''transfer(address,uint256)''], Some grown_contract)]
     = ([Drift [NewUncovered ''sweep(address)'']], [(''token.json'', pinned_contract)])"
    by code_simp
  moreover have "drifted pinned_contract grown_contract [''transfer(address,uint256)'']"
    by (simp add: drifted_def pinned_contract_def grown_contract_def)
  ultimately show ?thesis using drift_persists [OF run] by simp
qed

end
