(* ===== verification/Spec2Isabelle.thy ===== *)
theory Spec2Isabelle
  imports Hosted_Cache Preflight_Entry Source_Facts Source_Evidence Source_Values Payment_Facts Hosted_Facts Api_Properties Mcp_Facts Tools_Facts
begin

text \<open>
  Verification of Lucent, a preflight service for unsigned EVM calls: given a transaction and
  an ERC-7730 display descriptor it decides whether the call may be shown to a signer
  (\<open>safe_to_present\<close>), needs a review, or is blocked; every doubt is meant to fail closed.

  \<^bold>\<open>Parts and theories.\<close> (Files are under \<open>src/\<close>.)

  \<^item> \<open>Lucent_Prelude\<close>, \<open>Py_Text\<close>, \<open>Hex_Text\<close>, \<open>Py_Json\<close>: the Python values the code handles
    (\<open>pyval\<close>), results and state passing, ordered dictionaries, text functions, regular
    expression prefixes, hexadecimal and decimal text, \<open>json.dumps\<close>.
  \<^item> \<open>Access_Errors\<close>, \<open>Access_Auth\<close>, \<open>Access_Quota\<close>, \<open>Access_Response\<close>, \<open>Access_Idempotency\<close>,
    \<open>Idempotency_Facts\<close>, \<open>Idempotency_Safety\<close>, \<open>Idempotency_Properties\<close>, \<open>Access_Controller\<close>:
    \<open>lucent/access.py\<close>. The limiter's buckets, the idempotency store and the authenticator
    are records; each method is one function on them. The store's contract is a locale
    interpreted on the model; replay, single flight and stale finalisation rest on it.
  \<^item> \<open>Hosted_Cache\<close>: \<open>VerifiedSourceCache\<close> of \<open>lucent/hosted.py\<close>, its critical sections as
    functions and its threads as a step relation with reachable states.
  \<^item> \<open>Abi_Common\<close>, \<open>Danger\<close>, \<open>Comprehend\<close>, \<open>Audit_Screen\<close>: \<open>scripts/common.py\<close>, \<open>danger.py\<close>,
    \<open>comprehend.py\<close>, \<open>audit.py\<close>: the ABI validation and the three analyses.
  \<^item> \<open>Descriptor_Validation\<close>, \<open>Call_Decoding\<close>, \<open>Presentation\<close>, \<open>Preflight\<close> and their facts
    \<open>Presentation_Facts\<close>, \<open>Preflight_Facts\<close>, \<open>Preflight_Policy\<close>, \<open>Preflight_Entry\<close>:
    \<open>lucent/preflight.py\<close>, from the descriptor's checks to the verdict of the four entry points.
  \<^item> \<open>Bounded_Http\<close>, \<open>Evm_Code\<close>, \<open>Source_Resolve\<close>, \<open>Source_Values\<close>, \<open>Source_Facts\<close>,
    \<open>Source_Evidence\<close>: \<open>lucent/verified_source.py\<close>, the HTTP and JSON-RPC clients, the
    bytecode scan, the proxy chain, the Sourcify binding, the request budget and the
    provenance of a result.
  \<^item> \<open>Payment_Client\<close>, \<open>Payments\<close>, \<open>Payment_Facts\<close>: \<open>lucent/payments.py\<close>, the facilitator's
    client, the gateway's checks of a proof, the canonical fingerprint of the signed transfer,
    verification and settlement.
  \<^item> \<open>Hosted_Settings\<close>, \<open>Hosted_Facts\<close>: the configuration from the environment in
    \<open>lucent/hosted.py\<close> and \<open>PaymentConfig.from_env\<close>, and the runtime built from it.
  \<^item> \<open>Api_Problem\<close>, \<open>Api_Binding\<close>, \<open>Api_Flow\<close>: \<open>lucent/api.py\<close>. The body limit, problem
    documents and exception handlers; the result and its binding to a verified source; the
    handler \<open>transaction_preflight\<close> as four functions between its awaits, and the service as a
    step relation over requests in flight. \<open>Api_Facts\<close> and \<open>Api_Safety\<close> hold the effect of each
    segment on the stores and the invariant of the service's worlds, \<open>Api_Run\<close> a paid request
    in a small environment, \<open>Api_Properties\<close> what holds of every history.
  \<^item> \<open>Mcp_Server\<close>, \<open>Mcp_Facts\<close>: \<open>scripts/mcp_server.py\<close>, the four entry points as tools of a
    JSON-RPC server: the redaction of what the caller controls, the fixed prose of the text
    block, the dispatch of a message and the loop over bounded lines.
  \<^item> \<open>Descriptor_Tools\<close>, \<open>Tools_Facts\<close>: \<open>scripts/semverify.py\<close> (a screen against the movements
    of a mined transaction), the gate of \<open>attest.py\<close>, the divergences and exit code of
    \<open>review.py\<close>, and \<open>watch.py\<close> (drift against a recorded baseline).

  \<^bold>\<open>How the code is read.\<close> A method that changes an object is a function on the object's
  record, with the clock's reading an argument; code under a lock is one atomic step, and
  what threads do between locks is an interleaving of steps. Exceptions are values of sum
  types. Floats that the code only adds, multiplies and compares (quota tokens, times) are
  exact rationals; NaN and infinities are kept where the code tests for them. Text is
  Latin-1 (\<open>char list\<close>). Python's integers are \<open>int\<close>; bytes are \<open>8 word\<close>. Loops are structural
  recursion or recursion with a measure: the JSON stack loop decreases the nodes left on its
  stack, the bytecode scan the bytes left, the proxy loop the hops left under its limit of
  four. One loop has fuel, \<open>_make_response_room\<close> of the idempotency store: each turn removes
  an entry, so the number of entries plus one is enough, and it is shown to be. A coroutine
  is cut at its awaits: what it does between two of them is one step, what it awaits is an
  event with an arbitrary answer, and a cancelled request has no further step.

  \<^bold>\<open>Parameters.\<close> Code outside the repository is an argument: SHA-256, Keccak-256, the ABI codec
  and type parser of \<open>eth_abi\<close>, \<open>json.loads\<close>, the text of a float, the HTTP transport and the
  clock, random tokens, the codecs and payload objects of the \<open>x402\<close> library, the framework's
  rendering of a response model, the answers of explorers and forks, and the fixed texts of
  reports. Where a property needs something of them (a codec that decodes what it encoded) it is a named hypothesis, and a witness instantiates it.

  \<^bold>\<open>What the properties show.\<close> The access layer authenticates exactly the configured keys,
  bounds every tenant's rate, and replays or refuses but never repeats an idempotent
  request; the cache stays in its bounds, resolves each key in one thread and never serves
  a stale answer; validated ABIs and descriptors have the shape the analyses assume; danger,
  comprehension and audit fail closed; a clear verdict rests on calldata that re-encodes to
  itself, a presentation showing every signed value, and the exact policy of the gate; a
  verified source is bound to finalized code by a chain of evidence within a fixed budget;
  an accepted configuration is consistent; a verified payment pays this server on its own
  terms; and the service, under every interleaving of requests, answers and cancellations,
  charges only for a rendered verdict, refines a ledger that spends an authorization once in
  900 seconds, and ends every request it is answered for. The tools keep what a caller wrote
  out of the text a model reads, answer each line on its own, attest only descriptors whose
  screens showed what their transactions did, and report drift until it is accepted.

  \<^bold>\<open>Not modelled.\<close> The prose of reports (\<open>why\<close>, \<open>issue\<close>, reasons), whose sentences are
  constructors or parameters, and printing; sockets, thread scheduling and logging; the
  framework's validation and response models and the OpenAPI document. The service takes a
  source cache's answer as an arbitrary event: the cache and the resolution are modelled on
  their own. Of the command-line tools, what is left out hashes, signs, prints, reads and
  writes files or fetches: \<open>attest.py\<close> from the descriptor's hash on, the report of
  \<open>review.py\<close> but for its divergences and exit code, \<open>preview.py\<close>, \<open>discover.py\<close>,
  \<open>to_submission.py\<close>, and the clients \<open>fetch_abi.py\<close>, \<open>fetch_tx.py\<close>, \<open>resolve_proxy.py\<close> and
  \<open>forkreplay.py\<close>, whose answers are arguments. The MCP server's descriptions of its tools
  are constants of the reader, not of the code's logic, and are a parameter.
\<close>

end
